(* ===== verification/HPrelude.thy ===== *)
theory HPrelude
  imports Main "HOL-Library.AList" "HOL-Library.Sublist"
begin

section \<open>Prelude: ordered maps, failing computations, decimal text\<close>

text \<open>
  What the components share.

  \<^item> A JavaScript \<open>Map\<close> and a JavaScript object are both insertion-ordered maps: writing an
    existing key keeps its position, a new key goes to the end, and a deleted key that is written
    again goes to the end. They are association lists here; \<open>AList.update\<close> and \<open>AList.delete\<close>
    of the library behave in exactly that way and \<open>map_of\<close> is the lookup.
  \<^item> A two-level map (record id, then field) is an \<open>emap\<close>; \<open>eget\<close>, \<open>eset\<close> are its access paths.
  \<^item> A statement that may throw returns \<open>js_error + 'a\<close>; \<open>sbind\<close> is sequencing.
  \<^item> Decimal text of numbers (\<open>js_of_nat\<close>, \<open>js_of_int\<close>) with its injectivity.

  The collections \<open>omap_simps\<close> and \<open>sbind_simps\<close> are the simplification sets that the component
  proofs use.
\<close>

named_theorems omap_simps \<open>lookup and key facts of ordered maps\<close>
named_theorems sbind_simps \<open>inversion of sequenced computations\<close>

subsection \<open>Ordered maps\<close>

type_synonym ('k, 'v) omap = "('k \<times> 'v) list"

abbreviation okeys :: "('k, 'v) omap \<Rightarrow> 'k list" where
  "okeys m \<equiv> map fst m"

abbreviation oset :: "'k \<Rightarrow> 'v \<Rightarrow> ('k, 'v) omap \<Rightarrow> ('k, 'v) omap" where
  "oset \<equiv> AList.update"

abbreviation odel :: "'k \<Rightarrow> ('k, 'v) omap \<Rightarrow> ('k, 'v) omap" where
  "odel \<equiv> AList.delete"

definition oget :: "'v \<Rightarrow> ('k, 'v) omap \<Rightarrow> 'k \<Rightarrow> 'v" where
  "oget d m k = (case map_of m k of None \<Rightarrow> d | Some v \<Rightarrow> v)"

lemma map_of_oset [omap_simps]: "map_of (oset k v m) k' = (if k' = k then Some v else map_of m k')"
  by (simp add: update_conv')

lemma map_of_odel [omap_simps]: "map_of (odel k m) k' = (if k' = k then None else map_of m k')"
  by (simp add: delete_conv')

lemma oget_oset [omap_simps]: "oget d (oset k v m) k' = (if k' = k then v else oget d m k')"
  by (simp add: oget_def map_of_oset)

lemma oget_odel [omap_simps]: "oget d (odel k m) k' = (if k' = k then d else oget d m k')"
  by (simp add: oget_def map_of_odel)

lemma oget_Nil [simp]: "oget d [] k = d"
  by (simp add: oget_def)

lemma okeys_oset: "set (okeys (oset k v m)) = insert k (set (okeys m))"
  by (induction m) auto

lemma distinct_oset: "distinct (okeys m) \<Longrightarrow> distinct (okeys (oset k v m))"
  by (rule distinct_update)

lemma distinct_odel: "distinct (okeys m) \<Longrightarrow> distinct (okeys (odel k m))"
  by (rule distinct_delete)

lemma okeys_odel: "set (okeys (odel k m)) = set (okeys m) - {k}"
  by (simp add: delete_keys)

lemma fst_odel [simp]: "fst ` set (odel k m) = fst ` set m - {k}"
  using okeys_odel [of k m] by simp

lemma map_of_mem: "map_of m k = Some v \<Longrightarrow> (k, v) \<in> set m"
  by (rule map_of_SomeD)

lemma length_oset: "length (oset k v m) = (if k \<in> set (okeys m) then length m else Suc (length m))"
  by (induction m) auto

lemma oset_new: "k \<notin> set (okeys m) \<Longrightarrow> oset k v m = m @ [(k, v)]"
  by (induction m) auto

lemma odel_fresh: "k \<notin> set (okeys m) \<Longrightarrow> odel k m = m"
  by (induction m) auto

text \<open>\<open>set.add(x)\<close>: a \<open>Set\<close> is a list without repetition, in insertion order.\<close>

definition sadd :: "'a \<Rightarrow> 'a list \<Rightarrow> 'a list" where
  "sadd x xs = (if x \<in> set xs then xs else xs @ [x])"

lemma set_sadd [simp]: "set (sadd x xs) = insert x (set xs)"
  by (auto simp: sadd_def)

lemma distinct_sadd: "distinct xs \<Longrightarrow> distinct (sadd x xs)"
  by (simp add: sadd_def)

lemma set_fold_sadd [simp]: "set (fold sadd ys xs) = set ys \<union> set xs"
  by (induction ys arbitrary: xs) auto

lemma fold_sadd_distinct: "distinct ys \<Longrightarrow> set ys \<inter> set xs = {} \<Longrightarrow> fold sadd ys xs = xs @ ys"
  by (induction ys arbitrary: xs) (auto simp: sadd_def)

subsection \<open>Two-level maps: record id, then field\<close>

type_synonym ('k, 'f, 'v) emap = "('k, ('f, 'v) omap) omap"

definition eget :: "('k, 'f, 'v) emap \<Rightarrow> 'k \<Rightarrow> 'f \<Rightarrow> 'v option" where
  "eget m k f = (case map_of m k of None \<Rightarrow> None | Some r \<Rightarrow> map_of r f)"

definition eset :: "'k \<Rightarrow> 'f \<Rightarrow> 'v \<Rightarrow> ('k, 'f, 'v) emap \<Rightarrow> ('k, 'f, 'v) emap" where
  "eset k f v m = oset k (oset f v (oget [] m k)) m"

lemma eget_Nil [simp]: "eget [] k f = None"
  by (simp add: eget_def)

lemma eget_eset [omap_simps]:
  "eget (eset k f v m) k' f' = (if k' = k \<and> f' = f then Some v else eget m k' f')"
  by (simp add: eget_def eset_def oget_def map_of_oset split: option.splits)

lemma eget_odel [omap_simps]: "eget (odel k m) k' f = (if k' = k then None else eget m k' f)"
  by (simp add: eget_def map_of_odel)

lemma okeys_eset: "set (okeys (eset k f v m)) = insert k (set (okeys m))"
  unfolding eset_def by (rule okeys_oset)

lemma distinct_eset: "distinct (okeys m) \<Longrightarrow> distinct (okeys (eset k f v m))"
  by (simp add: eset_def distinct_oset)

definition ewf :: "('k, 'f, 'v) emap \<Rightarrow> bool" where
  "ewf m \<longleftrightarrow> distinct (okeys m) \<and> list_all (\<lambda>(k, r). distinct (okeys r)) m"

lemma ewf_Nil [simp]: "ewf []"
  by (simp add: ewf_def)

lemma ewf_lookup: "ewf m \<Longrightarrow> map_of m k = Some r \<Longrightarrow> distinct (okeys r)"
  by (auto simp: ewf_def list_all_iff dest: map_of_SomeD)

lemma list_all_oset: "list_all P m \<Longrightarrow> P (k, v) \<Longrightarrow> list_all P (oset k v m)"
  by (induction m) auto

lemma list_all_odel: "list_all P m \<Longrightarrow> list_all P (odel k m)"
  by (induction m) auto

lemma ewf_eset: "ewf m \<Longrightarrow> ewf (eset k f v m)"
proof -
  assume m: "ewf m"
  have "distinct (okeys (oget [] m k))"
    using ewf_lookup [OF m] by (auto simp: oget_def split: option.splits)
  then have "distinct (okeys (oset f v (oget [] m k)))" by (rule distinct_oset)
  with m show ?thesis
    by (simp add: ewf_def eset_def distinct_oset list_all_oset)
qed

lemma ewf_odel: "ewf m \<Longrightarrow> ewf (odel k m)"
  by (simp add: ewf_def distinct_odel list_all_odel)

lemma ewf_oset: "ewf m \<Longrightarrow> distinct (okeys r) \<Longrightarrow> ewf (oset k r m)"
  by (simp add: ewf_def distinct_oset list_all_oset)

definition edel :: "'k \<Rightarrow> 'f \<Rightarrow> ('k, 'f, 'v) emap \<Rightarrow> ('k, 'f, 'v) emap" where
  "edel i f m = (case map_of m i of None \<Rightarrow> m | Some r \<Rightarrow> oset i (odel f r) m)"

lemma eget_edel [omap_simps]: "eget (edel i f m) i' f' = (if i' = i \<and> f' = f then None else eget m i' f')"
  by (cases "map_of m i") (auto simp: edel_def eget_def map_of_oset map_of_odel)

lemma ewf_edel: "ewf m \<Longrightarrow> ewf (edel i f m)"
  by (auto simp: edel_def distinct_odel dest: ewf_lookup split: option.splits intro!: ewf_oset)

subsection \<open>Computations that may throw\<close>

text \<open>
  \<open>TypeError\<close> is the engine's own error (a property of \<open>undefined\<close> is read); \<open>Thrown\<close> carries the
  message of an explicit \<open>throw new Error(message)\<close>.
\<close>

datatype js_error = TypeError string | Thrown string

definition sbind :: "js_error + 'a \<Rightarrow> ('a \<Rightarrow> js_error + 'b) \<Rightarrow> js_error + 'b" where
  "sbind m f = (case m of Inl e \<Rightarrow> Inl e | Inr x \<Rightarrow> f x)"

lemma sbind_Inl [simp]: "sbind (Inl e) f = Inl e"
  and sbind_Inr [simp]: "sbind (Inr x) f = f x"
  by (simp_all add: sbind_def)

lemma sbind_eq_Inr [sbind_simps]: "sbind m f = Inr y \<longleftrightarrow> (\<exists>x. m = Inr x \<and> f x = Inr y)"
  by (simp add: sbind_def split: sum.splits)

lemma sbind_cong [fundef_cong]:
  "m = m' \<Longrightarrow> (\<And>x. m' = Inr x \<Longrightarrow> f x = f' x) \<Longrightarrow> sbind m f = sbind m' f'"
  by (simp add: sbind_def split: sum.splits)

text \<open>A loop over a list whose body may throw: the first exception ends it.\<close>

fun sfold :: "('a \<Rightarrow> 's \<Rightarrow> js_error + 's) \<Rightarrow> 'a list \<Rightarrow> 's \<Rightarrow> js_error + 's" where
  "sfold f [] s = Inr s"
| "sfold f (x # xs) s = sbind (f x s) (sfold f xs)"

lemma sfold_cong [fundef_cong]:
  "xs = ys \<Longrightarrow> s = t \<Longrightarrow> (\<And>x s. x \<in> set ys \<Longrightarrow> f x s = g x s) \<Longrightarrow> sfold f xs s = sfold g ys t"
proof (induction xs arbitrary: ys s t)
  case (Cons x xs)
  have "sfold f xs u = sfold g xs u" for u by (rule Cons.IH) (use Cons.prems in auto)
  then have "sfold f xs = sfold g xs" by (rule ext)
  with Cons.prems show ?case by auto
qed auto

text \<open>\<open>xs.map(f)\<close> with a callback that may throw.\<close>

fun smap :: "('a \<Rightarrow> js_error + 'b) \<Rightarrow> 'a list \<Rightarrow> js_error + 'b list" where
  "smap f [] = Inr []"
| "smap f (x # xs) = sbind (f x) (\<lambda>y. sbind (smap f xs) (\<lambda>ys. Inr (y # ys)))"

lemma smap_cong [fundef_cong]:
  "xs = xs' \<Longrightarrow> (\<And>x. x \<in> set xs' \<Longrightarrow> f x = f' x) \<Longrightarrow> smap f xs = smap f' xs'"
  by (induction xs arbitrary: xs') (auto intro: sbind_cong)

lemma smap_Inr: "(\<And>x. x \<in> set xs \<Longrightarrow> f x = Inr (g x)) \<Longrightarrow> smap f xs = Inr (map g xs)"
  by (induction xs) auto

lemma sfold_append: "sfold f (xs @ ys) s = sbind (sfold f xs s) (sfold f ys)"
  by (induction xs arbitrary: s) (auto simp: sbind_def split: sum.splits)

lemma sfold_invariant:
  assumes "sfold f xs s = Inr t" and "P s"
    and "\<And>x s s'. x \<in> set xs \<Longrightarrow> P s \<Longrightarrow> f x s = Inr s' \<Longrightarrow> P s'"
  shows "P t"
  using assms
proof (induction xs arbitrary: s)
  case Nil
  then show ?case by simp
next
  case (Cons x xs)
  from Cons.prems(1) obtain s' where s': "f x s = Inr s'" "sfold f xs s' = Inr t"
    by (auto simp: sbind_simps)
  have "P s'" using Cons.prems(2,3) s'(1) by (meson list.set_intros(1))
  with Cons.IH [OF s'(2)] Cons.prems(3) show ?case by (meson list.set_intros(2))
qed

lemma fold_invariant_list:
  "P s \<Longrightarrow> (\<And>x s. x \<in> set xs \<Longrightarrow> P s \<Longrightarrow> P (f x s)) \<Longrightarrow> P (fold f xs s)"
  by (induction xs arbitrary: s) auto

lemma distinct_subseq: "subseq xs ys \<Longrightarrow> distinct ys \<Longrightarrow> distinct xs"
  by (auto simp: subseq_conv_nths intro: distinct_nthsI)

subsection \<open>Text\<close>

text \<open>\<open>parts.join(sep)\<close>.\<close>

fun join :: "string \<Rightarrow> string list \<Rightarrow> string" where
  "join sep [] = []"
| "join sep [s] = s"
| "join sep (s # t # ts) = s @ sep @ join sep (t # ts)"

lemma join_Cons: "ts \<noteq> [] \<Longrightarrow> join sep (t # ts) = t @ sep @ join sep ts"
  by (cases ts) auto

subsection \<open>Decimal text\<close>

definition digit_char :: "nat \<Rightarrow> char" where
  "digit_char d = char_of (48 + d)"

fun js_of_nat :: "nat \<Rightarrow> string" where
  "js_of_nat n = (if n < 10 then [digit_char n] else js_of_nat (n div 10) @ [digit_char (n mod 10)])"

declare js_of_nat.simps [simp del]

definition js_of_int :: "int \<Rightarrow> string" where
  "js_of_int i = (if i < 0 then CHR ''-'' # js_of_nat (nat (- i)) else js_of_nat (nat i))"

definition digit_val :: "char \<Rightarrow> nat" where
  "digit_val c = of_char c - 48"

fun nat_of_js :: "string \<Rightarrow> nat" where
  "nat_of_js s = foldl (\<lambda>n c. 10 * n + digit_val c) 0 s"

declare nat_of_js.simps [simp del]

lemma digit_val_digit_char: "d < 10 \<Longrightarrow> digit_val (digit_char d) = d"
  by (simp add: digit_val_def digit_char_def)

lemma nat_of_js_of_nat: "nat_of_js (js_of_nat n) = n"
proof (induction n rule: js_of_nat.induct)
  case (1 n)
  show ?case
  proof (cases "n < 10")
    case True
    then show ?thesis
      by (simp add: js_of_nat.simps [of n] nat_of_js.simps digit_val_digit_char)
  next
    case False
    with 1 have "nat_of_js (js_of_nat (n div 10)) = n div 10" by simp
    then have "foldl (\<lambda>n c. 10 * n + digit_val c) 0 (js_of_nat (n div 10)) = n div 10"
      by (simp add: nat_of_js.simps)
    with False show ?thesis
      by (subst js_of_nat.simps) (simp add: nat_of_js.simps digit_val_digit_char)
  qed
qed

lemma js_of_nat_inject [simp]: "js_of_nat m = js_of_nat n \<longleftrightarrow> m = n"
  by (metis nat_of_js_of_nat)

definition is_digit :: "char \<Rightarrow> bool" where
  "is_digit c \<longleftrightarrow> 48 \<le> (of_char c :: nat) \<and> (of_char c :: nat) \<le> 57"

lemma is_digit_digit_char: "d < 10 \<Longrightarrow> is_digit (digit_char d)"
  by (simp add: is_digit_def digit_char_def)

lemma js_of_nat_digits: "c \<in> set (js_of_nat n) \<Longrightarrow> is_digit c"
proof (induction n rule: js_of_nat.induct)
  case (1 n)
  show ?case
  proof (cases "n < 10")
    case True
    with "1.prems" show ?thesis
      by (subst (asm) js_of_nat.simps) (auto intro: is_digit_digit_char)
  next
    case False
    with 1 show ?thesis
      by (subst (asm) js_of_nat.simps) (auto intro: is_digit_digit_char)
  qed
qed

lemma js_of_nat_nonempty: "js_of_nat n \<noteq> []"
  by (subst js_of_nat.simps) simp

lemma is_digit_minus: "\<not> is_digit (CHR ''-'')"
  by (simp add: is_digit_def)

lemma js_of_nat_no_minus: "js_of_nat n \<noteq> CHR ''-'' # s"
  using js_of_nat_digits [of "CHR ''-''" n] is_digit_minus by (metis list.set_intros(1))

lemma js_of_int_inject [simp]: "js_of_int i = js_of_int j \<longleftrightarrow> i = j"
  using js_of_nat_no_minus js_of_nat_no_minus [symmetric] by (auto simp: js_of_int_def)

end
