(* ===== verification/JsValues.thy ===== *)
theory JsValues
  imports HPrelude
begin

section \<open>JavaScript values: GraphQL data, deep equality, flattening\<close>

text \<open>
  The values that flow through the runtime (\<open>GraphQLValue\<close> of \<^verbatim>\<open>types.ts\<close>), and the two
  utilities every component uses: \<^verbatim>\<open>deepEquals.ts\<close> and \<^verbatim>\<open>flatten.ts\<close>.

  Conventions.
  \<^item> A number is \<open>GNum i\<close> for an integer, or \<open>GDec m n\<close> for the non-integral \<open>m / 10^n\<close> in lowest
    terms (\<open>n > 0\<close>, \<open>m\<close> not divisible by ten). The runtime only copies, compares and prints
    numbers. Negative zero and NaN, which JSON cannot carry, are left out.
  \<^item> A string is a list of code units; every character that the code tests for is ASCII.
  \<^item> \<open>GSym\<close> is the symbol \<open>PendingValue\<close> of a loading state; \<open>GComp\<close> is the function that a component
    field stores (the closure of \<^verbatim>\<open>defaultComponentField\<close>: component key, prop, fragment, arguments,
    parent record).
  \<^item> Objects keep their insertion order. \<open>wf_gval\<close> says that no object has a key twice, which holds
    of every JavaScript object.
\<close>

datatype gval =
    GUndef
  | GNull
  | GBool bool
  | GNum int
  | GDec int nat
  | GStr string
  | GSym
  | GComp string string string "(string \<times> gval) list" string
  | GArr "gval list"
  | GObj "(string \<times> gval) list"

type_synonym gobj = "(string, gval) omap"

primrec truthy :: "gval \<Rightarrow> bool" where
  "truthy GUndef = False"
| "truthy GNull = False"
| "truthy (GBool b) = b"
| "truthy (GNum n) = (n \<noteq> 0)"
| "truthy (GDec m n) = True"
| "truthy (GStr s) = (s \<noteq> [])"
| "truthy GSym = True"
| "truthy (GComp k p f a r) = True"
| "truthy (GArr xs) = True"
| "truthy (GObj ps) = True"

text \<open>\<open>value ?? d\<close> and the property access \<open>value[key]\<close> on plain data.\<close>

definition nullish :: "gval \<Rightarrow> bool" where
  "nullish v \<longleftrightarrow> v = GUndef \<or> v = GNull"

definition or_default :: "gval \<Rightarrow> gval \<Rightarrow> gval" where
  "or_default v d = (if nullish v then d else v)"

fun is_object :: "gval \<Rightarrow> bool" where
  "is_object (GArr xs) = True"
| "is_object (GObj ps) = True"
| "is_object _ = False"

fun is_arr :: "gval \<Rightarrow> bool" where
  "is_arr (GArr xs) = True"
| "is_arr _ = False"

definition prop_of :: "gobj \<Rightarrow> string \<Rightarrow> gval" where
  "prop_of = oget GUndef"

fun gprop :: "gval \<Rightarrow> string \<Rightarrow> gval" where
  "gprop (GObj ps) k = prop_of ps k"
| "gprop _ k = GUndef"

text \<open>The depth of a value: what every recursion below decreases.\<close>

fun gdepth :: "gval \<Rightarrow> nat" where
  "gdepth (GArr xs) = Suc (fold max (map gdepth xs) 0)"
| "gdepth (GObj ps) = Suc (fold max (map (\<lambda>(k, v). gdepth v) ps) 0)"
| "gdepth _ = 0"

lemma fold_max_ge: "x \<in> set xs \<Longrightarrow> x \<le> fold max xs (n::nat)"
proof (induction xs arbitrary: n)
  case (Cons y ys)
  have mono: "n \<le> fold max ys n" for n :: nat
    by (induction ys arbitrary: n) (auto, meson max.bounded_iff)
  show ?case
  proof (cases "x \<in> set ys")
    case True
    then show ?thesis using Cons.IH by simp
  next
    case False
    with Cons.prems have "x = y" by simp
    then show ?thesis using mono [of "max y n"] by simp
  qed
qed simp

lemma gdepth_arr: "x \<in> set xs \<Longrightarrow> gdepth x < gdepth (GArr xs)"
  by (simp add: fold_max_ge less_Suc_eq_le)

lemma gdepth_obj: "(k, v) \<in> set ps \<Longrightarrow> gdepth v < gdepth (GObj ps)"
  by (force simp: less_Suc_eq_le intro: fold_max_ge)

text \<open>Own enumerable and non-enumerable keys of an object, as \<open>Reflect.ownKeys\<close> lists them: an array
  has its indices and \<open>length\<close>.\<close>

definition arr_props :: "gval list \<Rightarrow> gobj" where
  "arr_props xs = map (\<lambda>(i, x). (js_of_nat i, x)) (enumerate 0 xs)
     @ [(''length'', GNum (int (length xs)))]"

fun own_props :: "gval \<Rightarrow> gobj" where
  "own_props (GArr xs) = arr_props xs"
| "own_props (GObj ps) = ps"
| "own_props _ = []"

lemma gdepth_own_props:
  assumes "is_object a" and "(k, v) \<in> set (own_props a)"
  shows "gdepth v < gdepth a"
proof (cases a)
  case (GArr xs)
  with assms(2) consider "v \<in> set xs" | "v = GNum (int (length xs))"
    by (auto simp: arr_props_def enumerate_eq_zip dest: set_zip_rightD)
  then show ?thesis
  proof cases
    case 1
    then show ?thesis using GArr gdepth_arr by simp
  next
    case 2
    then show ?thesis using GArr by simp
  qed
next
  case (GObj ps)
  with assms(2) show ?thesis using gdepth_obj by simp
qed (use assms in auto)

subsection \<open>deepEquals\<close>

text \<open>
  \<^verbatim>\<open>deepEquals.ts\<close>. \<open>Object.is\<close> on two primitives is equality of their models. The \<open>WeakMap\<close> memo
  of the source answers \<open>true\<close> for a pair that is already being compared, which only matters for
  cyclic values; data here is a tree.
\<close>

function deepEquals :: "gval \<Rightarrow> gval \<Rightarrow> bool" where
  "deepEquals a b =
     (if \<not> is_object a \<or> \<not> is_object b then a = b
      else
        (let pa = own_props a; pb = own_props b in
           length pa = length pb \<and>
           list_all (\<lambda>(k, v). case map_of pb k of None \<Rightarrow> False | Some w \<Rightarrow> deepEquals v w) pa))"
  by pat_completeness auto
termination
  by (relation "measure (\<lambda>(a, b). gdepth a)") (auto intro: gdepth_own_props)

declare deepEquals.simps [simp del]

fun wf_gval :: "gval \<Rightarrow> bool" where
  "wf_gval (GArr xs) = list_all wf_gval xs"
| "wf_gval (GObj ps) = (distinct (okeys ps) \<and> list_all (\<lambda>(k, v). wf_gval v) ps)"
| "wf_gval _ = True"

lemma length_not_index: "js_of_nat i \<noteq> ''length''"
proof
  assume "js_of_nat i = ''length''"
  then have "is_digit (CHR ''l'')" using js_of_nat_digits [of "CHR ''l''" i] by simp
  then show False by (simp add: is_digit_def)
qed

lemma okeys_arr_props: "okeys (arr_props xs) = map js_of_nat [0..<length xs] @ [''length'']"
proof -
  have "map fst (map (\<lambda>(i, x). (js_of_nat i, x)) zs) = map js_of_nat (map fst zs)"
    for zs :: "(nat \<times> gval) list"
    by (induction zs) auto
  from this [of "enumerate 0 xs"] show ?thesis by (simp add: arr_props_def)
qed

lemma distinct_arr_props: "distinct (okeys (arr_props xs))"
  by (simp add: okeys_arr_props distinct_map inj_on_def) (metis imageE length_not_index)

lemma distinct_own_props: "wf_gval a \<Longrightarrow> distinct (okeys (own_props a))"
  by (cases a) (simp_all add: distinct_arr_props)

lemma wf_own_props: "wf_gval a \<Longrightarrow> (k, v) \<in> set (own_props a) \<Longrightarrow> wf_gval v"
  by (cases a) (auto simp: arr_props_def enumerate_eq_zip list_all_iff dest: set_zip_rightD)

lemma map_of_distinct: "distinct (okeys m) \<Longrightarrow> (k, v) \<in> set m \<Longrightarrow> map_of m k = Some v"
  by simp

lemma deepEquals_prim: "\<not> is_object a \<or> \<not> is_object b \<Longrightarrow> deepEquals a b \<longleftrightarrow> a = b"
  by (subst deepEquals.simps) simp

lemma deepEquals_object:
  assumes "is_object a" and "is_object b"
  shows "deepEquals a b \<longleftrightarrow> length (own_props a) = length (own_props b) \<and>
    (\<forall>(k, v)\<in>set (own_props a). \<exists>w. map_of (own_props b) k = Some w \<and> deepEquals v w)"
  using assms
  by (subst deepEquals.simps) (auto simp: Let_def list_all_iff split: option.splits)

lemma deepEquals_refl: "wf_gval a \<Longrightarrow> deepEquals a a"
proof (induction "gdepth a" arbitrary: a rule: less_induct)
  case less
  show ?case
  proof (cases "is_object a")
    case True
    have "\<exists>w. map_of (own_props a) k = Some w \<and> deepEquals v w"
      if kv: "(k, v) \<in> set (own_props a)" for k v
    proof -
      have "map_of (own_props a) k = Some v"
        using distinct_own_props [OF less.prems] kv by (rule map_of_distinct)
      moreover have "deepEquals v v"
        using less.hyps [OF gdepth_own_props [OF True kv]] wf_own_props [OF less.prems kv] .
      ultimately show ?thesis by blast
    qed
    with True show ?thesis by (auto simp: deepEquals_object)
  qed (simp add: deepEquals_prim)
qed

text \<open>Two duplicate-free lists of the same length, one inside the other, hold the same elements.\<close>

lemma distinct_same_length_set:
  assumes "distinct xs" and "distinct ys" and "length xs = length ys" and "set xs \<subseteq> set ys"
  shows "set xs = set ys"
  using assms by (metis List.finite_set card_subset_eq distinct_card)

lemma deepEquals_same_keys:
  assumes "is_object a" "is_object b" "wf_gval a" "wf_gval b" "deepEquals a b"
  shows "set (okeys (own_props a)) = set (okeys (own_props b))"
proof (rule distinct_same_length_set)
  show "distinct (okeys (own_props a))" "distinct (okeys (own_props b))"
    using assms distinct_own_props by auto
  show "length (okeys (own_props a)) = length (okeys (own_props b))"
    and "set (okeys (own_props a)) \<subseteq> set (okeys (own_props b))"
    using assms by (force simp: deepEquals_object dest: map_of_SomeD)+
qed

lemma deepEquals_sym:
  assumes "wf_gval a" and "wf_gval b" and "deepEquals a b"
  shows "deepEquals b a"
  using assms
proof (induction "gdepth a" arbitrary: a b rule: less_induct)
  case less
  show ?case
  proof (cases "is_object a \<and> is_object b")
    case False
    with less.prems show ?thesis by (auto simp: deepEquals_prim)
  next
    case True
    then have obj: "is_object a" "is_object b" by auto
    note keys = deepEquals_same_keys [OF obj less.prems]
    have "\<exists>v. map_of (own_props a) k = Some v \<and> deepEquals w v"
      if kw: "(k, w) \<in> set (own_props b)" for k w
    proof -
      have "k \<in> set (okeys (own_props a))" using keys kw by force
      then obtain v where v: "(k, v) \<in> set (own_props a)" by auto
      have kb: "map_of (own_props b) k = Some w"
        using distinct_own_props [OF less.prems(2)] kw by (rule map_of_distinct)
      have "deepEquals v w"
        using less.prems(3) obj v kb by (force simp: deepEquals_object)
      then have "deepEquals w v"
        using less.hyps [OF gdepth_own_props [OF obj(1) v]]
          wf_own_props [OF less.prems(1) v] wf_own_props [OF less.prems(2) kw] by blast
      moreover have "map_of (own_props a) k = Some v"
        using distinct_own_props [OF less.prems(1)] v by (rule map_of_distinct)
      ultimately show ?thesis by blast
    qed
    with less.prems(3) obj show ?thesis by (auto simp: deepEquals_object)
  qed
qed

lemma deepEquals_trans:
  assumes "deepEquals a b" and "deepEquals b c"
  shows "deepEquals a c"
  using assms
proof (induction "gdepth a" arbitrary: a b c rule: less_induct)
  case less
  show ?case
  proof (cases "is_object a \<and> is_object b \<and> is_object c")
    case False
    with less.prems show ?thesis by (auto simp: deepEquals_prim)
  next
    case True
    then have obj: "is_object a" "is_object b" "is_object c" by auto
    have "\<exists>u. map_of (own_props c) k = Some u \<and> deepEquals v u"
      if kv: "(k, v) \<in> set (own_props a)" for k v
    proof -
      obtain w where w: "map_of (own_props b) k = Some w" "deepEquals v w"
        using less.prems(1) obj kv by (auto simp: deepEquals_object)
      obtain u where u: "map_of (own_props c) k = Some u" "deepEquals w u"
        using less.prems(2) obj map_of_SomeD [OF w(1)] by (auto simp: deepEquals_object)
      have "deepEquals v u"
        using less.hyps [OF gdepth_own_props [OF obj(1) kv] w(2) u(2)] .
      with u(1) show ?thesis by blast
    qed
    with less.prems obj show ?thesis by (auto simp: deepEquals_object)
  qed
qed

text \<open>On arrays of primitives (the lists of record ids that the cache compares) it is equality.\<close>

lemma map_of_arr_props:
  "i < length xs \<Longrightarrow> map_of (arr_props xs) (js_of_nat i) = Some (xs ! i)"
proof -
  assume i: "i < length xs"
  have "(js_of_nat i, xs ! i) \<in> set (arr_props xs)"
    using i by (force simp: arr_props_def in_set_enumerate_eq)
  with distinct_arr_props show ?thesis by (rule map_of_distinct)
qed

lemma deepEquals_arr:
  "deepEquals (GArr xs) (GArr ys) \<longleftrightarrow> length xs = length ys \<and> (\<forall>i<length xs. deepEquals (xs ! i) (ys ! i))"
proof -
  have len: "length (arr_props zs) = Suc (length zs)" for zs
    by (simp add: arr_props_def)
  have lenprop: "map_of (arr_props zs) ''length'' = Some (GNum (int (length zs)))" for zs
    by (rule map_of_distinct [OF distinct_arr_props]) (simp add: arr_props_def)
  have mem: "(k, v) \<in> set (arr_props zs) \<longleftrightarrow>
      (\<exists>i<length zs. k = js_of_nat i \<and> v = zs ! i) \<or> k = ''length'' \<and> v = GNum (int (length zs))" for k v zs
    by (force simp: arr_props_def in_set_enumerate_eq)
  show ?thesis (is "_ \<longleftrightarrow> ?R")
  proof
    assume eq: "deepEquals (GArr xs) (GArr ys)"
    then have "length xs = length ys" by (simp add: deepEquals_object len)
    moreover have "deepEquals (xs ! i) (ys ! i)" if "i < length xs" for i
    proof -
      have "(js_of_nat i, xs ! i) \<in> set (arr_props xs)" using that by (auto simp: mem)
      with eq have "\<exists>w. map_of (arr_props ys) (js_of_nat i) = Some w \<and> deepEquals (xs ! i) w"
        by (auto simp: deepEquals_object)
      with that \<open>length xs = length ys\<close> show ?thesis by (simp add: map_of_arr_props)
    qed
    ultimately show ?R by blast
  next
    assume ?R
    then show "deepEquals (GArr xs) (GArr ys)"
      by (auto simp: deepEquals_object len mem lenprop map_of_arr_props deepEquals_prim)
  qed
qed

lemma deepEquals_prim_arr:
  assumes "list_all (\<lambda>x. \<not> is_object x) xs"
  shows "deepEquals (GArr xs) (GArr ys) \<longleftrightarrow> xs = ys"
  using assms by (auto simp: deepEquals_arr list_all_length deepEquals_prim intro!: nth_equalityI)

subsection \<open>flatten\<close>

text \<open>\<^verbatim>\<open>flatten.ts\<close>: falsy elements are ignored, nested arrays are flattened, the rest is kept.\<close>

fun flatten :: "gval list \<Rightarrow> gval list" where
  "flatten [] = []"
| "flatten (GArr xs # es) = flatten xs @ flatten es"
| "flatten (e # es) = (if truthy e then e # flatten es else flatten es)"

lemma flatten_append: "flatten (xs @ ys) = flatten xs @ flatten ys"
  by (induction xs rule: flatten.induct) auto

text \<open>The specification: the leaves of the nested list from left to right, falsy ones dropped.\<close>

function leaves :: "gval \<Rightarrow> gval list" where
  "leaves v = (case v of GArr xs \<Rightarrow> concat (map leaves xs) | _ \<Rightarrow> [v])"
  by pat_completeness auto
termination
  by (relation "measure gdepth") (use gdepth_arr in auto)

declare leaves.simps [simp del]

lemma leaves_simps [simp]:
  "leaves (GArr xs) = concat (map leaves xs)"
  "\<not> is_arr v \<Longrightarrow> leaves v = [v]"
  by (subst leaves.simps; cases v; simp)+

lemma flatten_leaves_list: "flatten xs = filter truthy (concat (map leaves xs))"
  by (induction xs rule: flatten.induct) auto

lemma flatten_leaf: "x \<in> set (flatten xs) \<Longrightarrow> truthy x \<and> \<not> is_arr x"
  by (induction xs rule: flatten.induct) (auto split: if_splits)

lemma flatten_flat: "list_all (\<lambda>x. \<not> is_arr x) xs \<Longrightarrow> flatten xs = filter truthy xs"
  by (induction xs rule: flatten.induct) auto

text \<open>The record ids in a link value: what a walk over \<open>flatten\<close> of a stored link visits.\<close>

fun gstr :: "gval \<Rightarrow> string option" where
  "gstr (GStr s) = Some s"
| "gstr _ = None"

definition link_list :: "gval \<Rightarrow> gval list" where
  "link_list v = (case v of GArr xs \<Rightarrow> xs | _ \<Rightarrow> [v])"

definition link_ids :: "gval \<Rightarrow> string list" where
  "link_ids v = List.map_filter gstr (flatten (link_list v))"

lemma link_ids_simps [simp]:
  "link_ids GUndef = []"
  "link_ids GNull = []"
  "link_ids (GStr s) = (if s = [] then [] else [s])"
  "link_ids (GArr xs) = List.map_filter gstr (flatten xs)"
  by (simp_all add: link_ids_def link_list_def map_filter_simps)

text \<open>
  Deep equality is an equivalence relation on values whose objects have distinct keys.
\<close>

lemma deepEquals_equivalence:
  "equiv {v. wf_gval v} {(a, b). wf_gval a \<and> wf_gval b \<and> deepEquals a b}"
proof (rule equivI)
  show "refl_on {v. wf_gval v} {(a, b). wf_gval a \<and> wf_gval b \<and> deepEquals a b}"
    by (auto simp: refl_on_def deepEquals_refl)
  show "sym {(a, b). wf_gval a \<and> wf_gval b \<and> deepEquals a b}"
    by (auto simp: sym_def intro: deepEquals_sym)
  show "trans {(a, b). wf_gval a \<and> wf_gval b \<and> deepEquals a b}"
    by (auto simp: trans_def intro: deepEquals_trans)
qed auto

end
