(* ===== verification/Keys.thy ===== *)
theory Keys
  imports JsValues "HOL-Library.Char_ord" "HOL-Library.List_Lexorder" "HOL-Library.Multiset"
begin

section \<open>Cache keys: JSON text, evaluateKey, computeKey\<close>

text \<open>
  A field of a record is stored under its \<^emph>\<open>key\<close>: the field name with its arguments. The compiler
  emits a raw key with \<open>$variable\<close> references that \<^verbatim>\<open>evaluateKey\<close> (\<^verbatim>\<open>cache/stuff.ts\<close>) fills in; the
  imperative API computes a key from an argument object with \<^verbatim>\<open>computeKey\<close> (\<^verbatim>\<open>key.ts\<close>).
  \<open>evaluateKey\<close> is a character automaton; \<open>evaluate_segments\<close> proves it equal to the rendering of a
  key's segments, the specification. \<open>computeKey_evaluateKey\<close> proves that both ways give the same key on
  scalar arguments and \<open>computeKey_object_differs\<close> that they differ on an object argument.
\<close>

subsection \<open>JSON.stringify\<close>

definition dquote :: char where
  "dquote = CHR 0x22"

definition hex_digit :: "nat \<Rightarrow> char" where
  "hex_digit d = (if d < 10 then char_of (48 + d) else char_of (87 + d))"

definition json_char :: "char \<Rightarrow> string" where
  "json_char c =
     (if c = dquote then [CHR 0x5C, dquote]
      else if c = CHR 0x5C then [CHR 0x5C, CHR 0x5C]
      else if c = CHR 0x08 then [CHR 0x5C, CHR ''b'']
      else if c = CHR 0x09 then [CHR 0x5C, CHR ''t'']
      else if c = CHR 0x0A then [CHR 0x5C, CHR ''n'']
      else if c = CHR 0x0C then [CHR 0x5C, CHR ''f'']
      else if c = CHR 0x0D then [CHR 0x5C, CHR ''r'']
      else if (of_char c :: nat) < 32 then
        [CHR 0x5C, CHR ''u'', CHR ''0'', CHR ''0'', hex_digit (of_char c div 16), hex_digit (of_char c mod 16)]
      else [c])"

definition json_string :: "string \<Rightarrow> string" where
  "json_string s = [dquote] @ concat (map json_char s) @ [dquote]"

text \<open>Decimal notation of a non-integral number (the notation JavaScript uses from 1e-6 upwards).\<close>

definition js_of_dec :: "int \<Rightarrow> nat \<Rightarrow> string" where
  "js_of_dec m n =
     (let ds = js_of_nat (nat \<bar>m\<bar>);
          padded = replicate (Suc n - length ds) (CHR ''0'') @ ds;
          k = length padded - n
      in (if m < 0 then ''-'' else '''') @ take k padded @ ''.'' @ drop k padded)"

text \<open>\<open>None\<close> is JavaScript's \<open>undefined\<close>: the value has no JSON text.\<close>

function json_stringify :: "gval \<Rightarrow> string option" where
  "json_stringify v =
     (case v of
        GUndef \<Rightarrow> None
      | GNull \<Rightarrow> Some ''null''
      | GBool b \<Rightarrow> Some (if b then ''true'' else ''false'')
      | GNum i \<Rightarrow> Some (js_of_int i)
      | GDec m n \<Rightarrow> Some (js_of_dec m n)
      | GStr s \<Rightarrow> Some (json_string s)
      | GSym \<Rightarrow> None
      | GComp k p f a r \<Rightarrow> None
      | GArr xs \<Rightarrow> Some (''['' @ join '','' (map (\<lambda>x. case json_stringify x of None \<Rightarrow> ''null'' | Some t \<Rightarrow> t) xs) @ '']'')
      | GObj ps \<Rightarrow> Some (''{'' @ join '','' (concat (map (\<lambda>(k, x). case json_stringify x of
            None \<Rightarrow> [] | Some t \<Rightarrow> [json_string k @ '':'' @ t]) ps)) @ ''}''))"
  by pat_completeness auto
termination
  by (relation "measure gdepth") (use gdepth_arr gdepth_obj in auto)

declare json_stringify.simps [simp del]

lemma json_stringify_simps [simp]:
  "json_stringify GUndef = None"
  "json_stringify GNull = Some ''null''"
  "json_stringify (GBool b) = Some (if b then ''true'' else ''false'')"
  "json_stringify (GNum i) = Some (js_of_int i)"
  "json_stringify (GDec m n) = Some (js_of_dec m n)"
  "json_stringify (GStr s) = Some (json_string s)"
  "json_stringify GSym = None"
  "json_stringify (GComp k p f a r) = None"
  by (simp_all add: json_stringify.simps)

subsection \<open>evaluateKey\<close>

definition var_char :: "char \<Rightarrow> bool" where
  "var_char c \<longleftrightarrow> (let n = of_char c :: nat in
     97 \<le> n \<and> n \<le> 122 \<or> 65 \<le> n \<and> n \<le> 90 \<or> n = 95 \<or> 48 \<le> n \<and> n \<le> 57)"

text \<open>\<open>JSON.stringify(value ?? null)\<close> appended to a string.\<close>

definition json_or_null :: "gval \<Rightarrow> string" where
  "json_or_null v = (case json_stringify (or_default v GNull) of None \<Rightarrow> ''undefined'' | Some t \<Rightarrow> t)"

text \<open>The loop over the characters: variable name so far, whether we are in a string, result so far.\<close>

fun eval_key :: "gobj \<Rightarrow> string \<Rightarrow> bool \<Rightarrow> string \<Rightarrow> string \<Rightarrow> string" where
  "eval_key vs varName inString evaluated [] = evaluated"
| "eval_key vs varName inString evaluated (c # cs) =
     (if varName \<noteq> [] \<and> var_char c then eval_key vs (varName @ [c]) inString evaluated cs
      else
        (let evaluated' = (if varName \<noteq> [] then evaluated @ json_or_null (prop_of vs (tl varName)) else evaluated) in
         if c = CHR ''$'' \<and> \<not> inString then eval_key vs ''$'' inString evaluated' cs
         else eval_key vs [] (if c = dquote then \<not> inString else inString) (evaluated' @ [c]) cs))"

definition evaluateKey :: "string \<Rightarrow> gobj \<Rightarrow> string" where
  "evaluateKey key vs = (if CHR ''$'' \<notin> set key then key else eval_key vs [] False [] key)"

text \<open>The specification: a raw key is a sequence of plain text, quoted strings and variables.\<close>

datatype key_seg = Plain string | Quoted string | Var string

fun seg_text :: "key_seg \<Rightarrow> string" where
  "seg_text (Plain s) = s"
| "seg_text (Quoted s) = [dquote] @ s @ [dquote]"
| "seg_text (Var x) = CHR ''$'' # x"

fun seg_render :: "gobj \<Rightarrow> key_seg \<Rightarrow> string" where
  "seg_render vs (Plain s) = s"
| "seg_render vs (Quoted s) = [dquote] @ s @ [dquote]"
| "seg_render vs (Var x) = json_or_null (prop_of vs x)"

definition terminated :: "key_seg list \<Rightarrow> bool" where
  "terminated segs = (case concat (map seg_text segs) of [] \<Rightarrow> False | c # _ \<Rightarrow> \<not> var_char c)"

fun wf_segs :: "key_seg list \<Rightarrow> bool" where
  "wf_segs [] = True"
| "wf_segs (Plain s # segs) = (CHR ''$'' \<notin> set s \<and> dquote \<notin> set s \<and> wf_segs segs)"
| "wf_segs (Quoted s # segs) = (dquote \<notin> set s \<and> wf_segs segs)"
| "wf_segs (Var x # segs) = (list_all var_char x \<and> terminated segs \<and> wf_segs segs)"

lemma not_var_char [simp]: "\<not> var_char (CHR ''$'')" "\<not> var_char dquote"
  by (simp_all add: var_char_def dquote_def)

lemma dquote_dollar [simp]: "dquote \<noteq> CHR ''$''" "CHR ''$'' \<noteq> dquote"
  by (simp_all add: dquote_def)

lemma eval_key_plain:
  "CHR ''$'' \<notin> set s \<Longrightarrow> dquote \<notin> set s \<Longrightarrow>
   eval_key vs [] False ev (s @ cs) = eval_key vs [] False (ev @ s) cs"
  by (induction s arbitrary: ev) auto

lemma eval_key_in_string:
  "dquote \<notin> set s \<Longrightarrow> eval_key vs [] True ev (s @ cs) = eval_key vs [] True (ev @ s) cs"
  by (induction s arbitrary: ev) auto

lemma eval_key_var:
  "v \<noteq> [] \<Longrightarrow> list_all var_char x \<Longrightarrow> eval_key vs v False ev (x @ cs) = eval_key vs (v @ x) False ev cs"
  by (induction x arbitrary: v) auto

lemma eval_key_flush:
  "v \<noteq> [] \<Longrightarrow> \<not> var_char c \<Longrightarrow>
   eval_key vs v False ev (c # cs) = eval_key vs [] False (ev @ json_or_null (prop_of vs (tl v))) (c # cs)"
  by simp

lemma eval_key_segments:
  "wf_segs segs \<Longrightarrow> eval_key vs [] False ev (concat (map seg_text segs)) = ev @ concat (map (seg_render vs) segs)"
proof (induction segs arbitrary: ev rule: wf_segs.induct)
  case (2 s segs)
  then show ?case by (simp add: eval_key_plain del: eval_key.simps)
next
  case (3 s segs)
  have "eval_key vs [] False ev (dquote # s @ dquote # concat (map seg_text segs)) =
      eval_key vs [] True (ev @ [dquote]) (s @ dquote # concat (map seg_text segs))"
    by simp
  also have "\<dots> = eval_key vs [] True (ev @ [dquote] @ s) (dquote # concat (map seg_text segs))"
    using 3 by (simp add: eval_key_in_string)
  also have "\<dots> = eval_key vs [] False (ev @ [dquote] @ s @ [dquote]) (concat (map seg_text segs))"
    by simp
  finally show ?case using 3 by (simp del: eval_key.simps)
next
  case (4 x segs)
  let ?rest = "concat (map seg_text segs)"
  from 4 obtain c cs where rest: "?rest = c # cs" "\<not> var_char c"
    by (auto simp: terminated_def split: list.splits)
  have "eval_key vs [] False ev (CHR ''$'' # x @ ?rest) = eval_key vs ''$'' False ev (x @ ?rest)"
    by simp
  also have "\<dots> = eval_key vs (CHR ''$'' # x) False ev ?rest"
    using 4 by (simp add: eval_key_var del: eval_key.simps)
  also have "\<dots> = eval_key vs [] False (ev @ json_or_null (prop_of vs x)) ?rest"
    unfolding rest(1) using rest(2) by (subst eval_key_flush) simp_all
  finally show ?case using 4 by (simp del: eval_key.simps)
qed simp

lemma evaluate_segments:
  assumes "wf_segs segs"
  shows "evaluateKey (concat (map seg_text segs)) vs = concat (map (seg_render vs) segs)"
proof (cases "CHR ''$'' \<in> set (concat (map seg_text segs))")
  case True
  with eval_key_segments [OF assms, of vs "[]"] show ?thesis
    by (simp add: evaluateKey_def del: eval_key.simps)
next
  case False
  then have "seg_render vs s = seg_text s" if "s \<in> set segs" for s
    using that by (cases s) auto
  then have "map (seg_render vs) segs = map seg_text segs" by simp
  with False show ?thesis unfolding evaluateKey_def by (simp only: if_True not_False_eq_True simp_thms)
qed

subsection \<open>computeKey\<close>

text \<open>
  \<open>text.replace(/"([^"]+)":/g, '$1: ')\<close>: from the left, a quoted non-empty run that a colon
  follows loses its quotes.
\<close>

function unquote_keys :: "string \<Rightarrow> string" where
  "unquote_keys [] = []"
| "unquote_keys (c # cs) =
     (if c = dquote then
        (let body = takeWhile (\<lambda>d. d \<noteq> dquote) cs; rest = dropWhile (\<lambda>d. d \<noteq> dquote) cs in
         if body \<noteq> [] \<and> take 2 rest = [dquote, CHR '':''] then body @ '': '' @ unquote_keys (drop 2 rest)
         else c # unquote_keys cs)
      else c # unquote_keys cs)"
  by pat_completeness auto
termination
proof (relation "measure length", goal_cases)
  case (2 c cs body rest)
  have "length (dropWhile (\<lambda>d. d \<noteq> dquote) cs) \<le> length cs" by (rule length_dropWhile_le)
  with 2 show ?case by simp
qed auto

function stringify :: "gval \<Rightarrow> js_error + string" where
  "stringify v =
     (case v of
        GArr xs \<Rightarrow> sbind (smap stringify xs) (\<lambda>ts. Inr (''['' @ join '', '' ts @ '']''))
      | GObj ps \<Rightarrow> sbind (smap (\<lambda>(k, x). sbind (stringify x) (\<lambda>t. Inr (k @ '': '' @ t))) ps)
          (\<lambda>ts. Inr (''{'' @ join '', '' ts @ ''}''))
      | _ \<Rightarrow> (case json_stringify v of
            None \<Rightarrow> Inl (TypeError ''Cannot read properties of undefined (reading replace)'')
          | Some t \<Rightarrow> Inr (unquote_keys t)))"
  by pat_completeness auto
termination
  by (relation "measure gdepth") (use gdepth_arr gdepth_obj in auto)

declare stringify.simps [simp del]

definition computeKey :: "string \<Rightarrow> gobj \<Rightarrow> js_error + string" where
  "computeKey field args =
     (if args = [] then Inr field
      else sbind (smap (\<lambda>k. sbind (stringify (prop_of args k)) (\<lambda>t. Inr (k @ '': '' @ t))) (sort (okeys args)))
        (\<lambda>ts. Inr (field @ ''('' @ join '', '' ts @ '')'')))"

text \<open>
  The raw key that the compiler emits for a field whose arguments are all variables of the same name,
  in sorted order: the template that \<^verbatim>\<open>computeKey\<close> has to agree with.
\<close>

fun arg_segs :: "string list \<Rightarrow> key_seg list" where
  "arg_segs [] = []"
| "arg_segs [k] = [Plain (k @ '': ''), Var k]"
| "arg_segs (k # l # ks) = [Plain (k @ '': ''), Var k, Plain '', ''] @ arg_segs (l # ks)"

definition field_segs :: "string \<Rightarrow> string list \<Rightarrow> key_seg list" where
  "field_segs field ks = [Plain (field @ ''('')] @ arg_segs ks @ [Plain '')'']"

definition field_template :: "string \<Rightarrow> string list \<Rightarrow> string" where
  "field_template field ks = concat (map seg_text (field_segs field ks))"

text \<open>A scalar whose JSON text both functions print alike: no quote inside a string.\<close>

definition plain_scalar :: "gval \<Rightarrow> bool" where
  "plain_scalar v = (case v of
      GNull \<Rightarrow> True | GBool b \<Rightarrow> True | GNum i \<Rightarrow> True
    | GStr s \<Rightarrow> list_all (\<lambda>c. c \<noteq> dquote) s
    | _ \<Rightarrow> False)"

definition name_ok :: "string \<Rightarrow> bool" where
  "name_ok s \<longleftrightarrow> list_all var_char s"

lemma name_ok_chars: "name_ok s \<Longrightarrow> CHR ''$'' \<notin> set s \<and> dquote \<notin> set s"
  by (auto simp: name_ok_def list_all_iff)

lemma terminated_Plain [simp]: "c \<noteq> [] \<Longrightarrow> terminated (Plain c # segs) \<longleftrightarrow> \<not> var_char (hd c)"
  by (cases c) (simp_all add: terminated_def)

lemma wf_arg_segs:
  "list_all name_ok ks \<Longrightarrow> wf_segs rest \<Longrightarrow> terminated rest \<Longrightarrow> wf_segs (arg_segs ks @ rest)"
proof (induction ks rule: arg_segs.induct)
  case (2 k)
  then show ?case using name_ok_chars by (auto simp: dquote_def name_ok_def)
next
  case (3 k l ks)
  then show ?case using name_ok_chars by (auto simp: dquote_def name_ok_def var_char_def)
qed simp

lemma render_arg_segs:
  "concat (map (seg_render vs) (arg_segs ks)) =
   join '', '' (map (\<lambda>k. k @ '': '' @ json_or_null (prop_of vs k)) ks)"
  by (induction ks rule: arg_segs.induct) simp_all

lemma unquote_no_quote: "dquote \<notin> set s \<Longrightarrow> unquote_keys s = s"
  by (induction s rule: unquote_keys.induct) (auto simp: Let_def)

lemma unquote_last_quote: "dquote \<notin> set s \<Longrightarrow> unquote_keys (s @ [dquote]) = s @ [dquote]"
  by (induction s) (auto simp: Let_def)

lemma unquote_quoted:
  assumes "dquote \<notin> set s"
  shows "unquote_keys ([dquote] @ s @ [dquote]) = [dquote] @ s @ [dquote]"
proof -
  have "dropWhile (\<lambda>d. d \<noteq> dquote) (s @ [dquote]) = [dquote]"
    using assms by (subst dropWhile_append3) auto
  then show ?thesis using assms by (simp add: Let_def unquote_last_quote)
qed

lemma hex_digit_no_quote: "d < 16 \<Longrightarrow> hex_digit d \<noteq> dquote"
  by (auto simp: hex_digit_def dquote_def dest!: arg_cong [where f = "of_char :: char \<Rightarrow> nat"])

lemma json_char_no_quote: "c \<noteq> dquote \<Longrightarrow> dquote \<notin> set (json_char c)"
proof -
  assume c: "c \<noteq> dquote"
  have "dquote \<noteq> hex_digit (of_char c mod 16)"
    using hex_digit_no_quote [of "of_char c mod 16"] by auto
  moreover have "dquote \<noteq> hex_digit (of_char c div 16)" if "(of_char c :: nat) < 32"
  proof -
    have "(of_char c :: nat) div 16 < 16" using that by (simp add: div_less_iff_less_mult)
    from hex_digit_no_quote [OF this] show ?thesis by simp
  qed
  ultimately show ?thesis using c unfolding json_char_def by (auto simp: dquote_def)
qed

lemma js_of_int_no_quote: "dquote \<notin> set (js_of_int i)"
proof -
  have "\<not> is_digit dquote" by (simp add: is_digit_def dquote_def)
  then show ?thesis using js_of_nat_digits by (auto simp: js_of_int_def dquote_def)
qed

lemma stringify_scalar: "plain_scalar v \<Longrightarrow> stringify v = Inr (json_or_null v)"
proof (cases v)
  case (GStr s)
  assume "plain_scalar v"
  with GStr have "dquote \<notin> set (concat (map json_char s))"
    using json_char_no_quote by (auto simp: plain_scalar_def list_all_iff)
  from unquote_quoted [OF this] GStr show ?thesis
    by (simp add: stringify.simps json_or_null_def or_default_def nullish_def json_string_def)
next
  case (GNum i)
  then show ?thesis
    by (simp add: stringify.simps json_or_null_def or_default_def nullish_def unquote_no_quote js_of_int_no_quote)
next
  case (GBool b)
  then show ?thesis
    by (simp add: stringify.simps json_or_null_def or_default_def nullish_def unquote_no_quote dquote_def)
next
  case GNull
  then show ?thesis
    by (simp add: stringify.simps json_or_null_def or_default_def nullish_def unquote_no_quote dquote_def)
qed (auto simp: plain_scalar_def)

text \<open>
  C34. For named arguments with plain scalar values, the key that the imperative interface computes is
  the key that the cache evaluates for a field with those arguments.
\<close>

lemma computeKey_evaluateKey:
  assumes "args \<noteq> []" and "name_ok field" and "list_all name_ok (okeys args)"
    and "\<forall>k\<in>set (okeys args). plain_scalar (prop_of args k)"
  shows "computeKey field args = Inr (evaluateKey (field_template field (sort (okeys args))) args)"
proof -
  let ?ks = "sort (okeys args)"
  have names: "list_all name_ok ?ks" using assms(3) by (simp add: list_all_iff)
  have "wf_segs (field_segs field ?ks)"
    unfolding field_segs_def using wf_arg_segs [OF names, of "[Plain '')'']"] name_ok_chars [OF assms(2)]
    by (simp add: dquote_def var_char_def)
  then have "evaluateKey (field_template field ?ks) args = concat (map (seg_render args) (field_segs field ?ks))"
    unfolding field_template_def by (rule evaluate_segments)
  then have "evaluateKey (field_template field ?ks) args =
      field @ ''('' @ join '', '' (map (\<lambda>k. k @ '': '' @ json_or_null (prop_of args k)) ?ks) @ '')''"
    by (simp add: field_segs_def render_arg_segs)
  moreover have "smap (\<lambda>k. sbind (stringify (prop_of args k)) (\<lambda>t. Inr (k @ '': '' @ t))) ?ks =
      Inr (map (\<lambda>k. k @ '': '' @ json_or_null (prop_of args k)) ?ks)"
    by (intro smap_Inr) (use assms(4) in \<open>auto simp: stringify_scalar\<close>)
  ultimately show ?thesis using assms(1) by (simp add: computeKey_def)
qed

text \<open>The order in which the caller writes the arguments does not matter.\<close>

lemma computeKey_order:
  assumes "distinct (okeys args)" and "mset args = mset args'"
  shows "computeKey field args = computeKey field args'"
proof -
  have keys: "sort (okeys args) = sort (okeys args')"
    using assms(2) by (metis mset_map properties_for_sort sorted_sort mset_sort)
  have d': "distinct (okeys args')"
    using assms by (metis mset_eq_imp_distinct_iff mset_map)
  have "set args = set args'" using assms(2) by (rule mset_eq_setD)
  then have "map_of args = map_of args'" using assms(1) d' by (simp add: map_of_inject_set)
  then have "prop_of args = prop_of args'"
    by (auto simp: prop_of_def oget_def)
  moreover have "args = [] \<longleftrightarrow> args' = []" using assms(2) by auto
  ultimately show ?thesis by (simp add: computeKey_def keys)
qed

lemma computeKey_evaluateKey_witness:
  "computeKey ''friends'' [(''first'', GNum 10), (''after'', GStr ''x'')]
     = Inr (evaluateKey (field_template ''friends'' (sort [''first'', ''after''])) [(''first'', GNum 10), (''after'', GStr ''x'')])"
  using computeKey_evaluateKey [of "[(''first'', GNum 10), (''after'', GStr ''x'')]" "''friends''"]
  by (simp add: name_ok_def var_char_def plain_scalar_def prop_of_def oget_def dquote_def)

lemma computeKey_order_witness:
  "computeKey ''friends'' [(''first'', GNum 10), (''after'', GStr ''x'')]
     = computeKey ''friends'' [(''after'', GStr ''x''), (''first'', GNum 10)]"
  by (rule computeKey_order) simp_all

lemma computeKey_object_differs:
  "computeKey ''friends'' [(''where'', GObj [(''name'', GStr ''a'')])]
     \<noteq> Inr (evaluateKey (field_template ''friends'' [''where'']) [(''where'', GObj [(''name'', GStr ''a'')])])"
  by code_simp

end
