(* ===== verification/Documents.thy ===== *)
theory Documents
  imports Keys
begin

section \<open>Compiled documents: selections, argument values, configuration\<close>

text \<open>
  The artifact data that the runtime walks (\<^verbatim>\<open>runtime/types.ts\<close>): argument values, list filters, mutation
  operations, \<^verbatim>\<open>SubscriptionSelection\<close> and \<^verbatim>\<open>SubscriptionSpec\<close>; the evaluation of argument values and
  filters against variables (\<^verbatim>\<open>cache/index.ts\<close>, \<^verbatim>\<open>cache/subscription.ts\<close>); the choice of a selection's
  fields for a concrete type with its memo table (\<^verbatim>\<open>selection.ts\<close>); record ids and key fields
  (\<^verbatim>\<open>config.ts\<close>, \<^verbatim>\<open>CacheInternal.id\<close>).

  An optional property is an \<open>option\<close>; an absent optional flag differs from an explicit \<open>false\<close> only
  when loading selections are merged, so flags are \<open>bool option\<close> and \<open>flag\<close> reads them.
\<close>

subsection \<open>Argument values\<close>

datatype value_node =
    StringValue string
  | BooleanValue bool
  | EnumValue string
  | FloatValue string
  | IntValue string
  | NullValue
  | Variable string
  | ListValue "value_node list"
  | ObjectValue "(string \<times> value_node) list"

type_synonym value_map = "(string, value_node) omap"

text \<open>
  \<open>parseInt(text, 10)\<close> and \<open>parseFloat(text)\<close> on the text of a GraphQL literal (an optional minus,
  digits, a fraction, an exponent). The value is exact; rounding to a double is not modelled.
\<close>

fun split_sign :: "string \<Rightarrow> int \<times> string" where
  "split_sign [] = (1, [])"
| "split_sign (c # cs) = (if c = CHR ''-'' then (- 1, cs) else if c = CHR ''+'' then (1, cs) else (1, c # cs))"

definition parse_int :: "string \<Rightarrow> int" where
  "parse_int s = (case split_sign s of (sg, ds) \<Rightarrow> sg * int (nat_of_js (takeWhile is_digit ds)))"

fun dec_norm :: "int \<Rightarrow> nat \<Rightarrow> gval" where
  "dec_norm m 0 = GNum m"
| "dec_norm m (Suc n) = (if m mod 10 = 0 then dec_norm (m div 10) n else GDec m (Suc n))"

definition scale_dec :: "int \<Rightarrow> nat \<Rightarrow> int \<Rightarrow> gval" where
  "scale_dec m n e =
     (if 0 \<le> e then (if n \<le> nat e then GNum (m * 10 ^ (nat e - n)) else dec_norm m (n - nat e))
      else dec_norm m (n + nat (- e)))"

definition parse_float :: "string \<Rightarrow> gval" where
  "parse_float s =
     (case split_sign s of (sg, t) \<Rightarrow>
       (let whole = takeWhile is_digit t; rest = dropWhile is_digit t;
            frac = (case rest of [] \<Rightarrow> [] | c # cs \<Rightarrow> if c = CHR ''.'' then takeWhile is_digit cs else []);
            after = (case rest of [] \<Rightarrow> [] | c # cs \<Rightarrow> if c = CHR ''.'' then dropWhile is_digit cs else c # cs);
            e = (case after of [] \<Rightarrow> 0 | c # cs \<Rightarrow> if c = CHR ''e'' \<or> c = CHR ''E'' then parse_int cs else 0)
        in scale_dec (sg * int (nat_of_js (whole @ frac))) (length frac) e))"

fun variableValue :: "value_node \<Rightarrow> gobj \<Rightarrow> gval" where
  "variableValue (StringValue s) args = GStr s"
| "variableValue (BooleanValue b) args = GBool b"
| "variableValue (EnumValue s) args = GStr s"
| "variableValue (FloatValue s) args = parse_float s"
| "variableValue (IntValue s) args = GNum (parse_int s)"
| "variableValue NullValue args = GNull"
| "variableValue (Variable x) args = prop_of args x"
| "variableValue (ListValue vs) args = GArr (map (\<lambda>v. variableValue v args) vs)"
| "variableValue (ObjectValue fs) args =
     GObj (fold (\<lambda>(k, v). oset k v) (map (\<lambda>(k, v). (k, variableValue v args)) fs) [])"

definition evaluateVariables :: "value_map \<Rightarrow> gobj \<Rightarrow> gobj" where
  "evaluateVariables variables args =
     fold (\<lambda>(k, v). oset k v) (map (\<lambda>(k, v). (k, variableValue v args)) variables) []"

subsection \<open>List filters and conditions\<close>

datatype list_filter =
    FLit string gval   \<comment> \<open>kind and value\<close>
  | FVariable string
  | FObject "(string \<times> list_filter) list"
  | FList "list_filter list"

fun filterValue :: "list_filter \<Rightarrow> gobj \<Rightarrow> gval" where
  "filterValue (FVariable x) variables = prop_of variables x"
| "filterValue (FObject fs) variables =
     GObj (fold (\<lambda>(k, v). oset k v) (map (\<lambda>(k, f). (k, filterValue f variables)) fs) [])"
| "filterValue (FList fs) variables = GArr (map (\<lambda>f. filterValue f variables) fs)"
| "filterValue (FLit kind v) variables = v"

record list_when =
  w_must :: "gobj option"
  w_must_not :: "gobj option"

record op_when =
  ow_must :: "(string, list_filter) omap option"
  ow_must_not :: "(string, list_filter) omap option"

definition resolve_filters :: "(string, list_filter) omap \<Rightarrow> gobj \<Rightarrow> gobj" where
  "resolve_filters conditions variables =
     fold (\<lambda>(k, v). oset k v) (map (\<lambda>(k, f). (k, filterValue f variables)) conditions) []"

definition resolveWhen :: "op_when option \<Rightarrow> gobj \<Rightarrow> list_when option" where
  "resolveWhen wn variables =
     (case wn of None \<Rightarrow> None
      | Some w \<Rightarrow> Some \<lparr>w_must = map_option (\<lambda>c. resolve_filters c variables) (ow_must w),
                       w_must_not = map_option (\<lambda>c. resolve_filters c variables) (ow_must_not w)\<rparr>)"

subsection \<open>Selections\<close>

datatype op_action = OpInsert | OpRemove | OpDelete | OpToggle | OpUpsert
datatype position = First | Last

record mutation_operation =
  mo_action :: op_action
  mo_list :: "string option"
  mo_type :: "string option"
  mo_parentID :: "value_node option"
  mo_listID :: "value_node option"
  mo_position :: "position option"
  mo_target_all :: bool
  mo_when :: "op_when option"

record list_info =
  li_name :: string
  li_connection :: bool
  li_type :: string
  li_includeListID :: "bool option"

datatype loading_kind = LContinue | LValue

record loading_spec =
  ls_kind :: loading_kind
  ls_list :: "(nat \<times> nat) option"   \<comment> \<open>depth and count\<close>

record component_info =
  co_prop :: string
  co_key :: string
  co_fragment :: string
  co_variables :: "value_map option"

record fragment_info =
  fr_arguments :: value_map
  fr_loading :: "bool option"

record field_info =
  fi_type :: string
  fi_keyRaw :: string
  fi_nullable :: "bool option"
  fi_operations :: "mutation_operation list option"
  fi_list :: "list_info option"
  fi_loading :: "loading_spec option"
  fi_directives :: "(string \<times> value_map) list option"
  fi_updates :: "string list option"
  fi_visible :: "bool option"
  fi_filters :: "(string, list_filter) omap option"
  fi_abstract :: "bool option"
  fi_abstractHasRequired :: "bool option"
  fi_component :: "component_info option"
  fi_optimisticKey :: "bool option"

text \<open>
  \<open>Selection loadingTypes fragments fields abstractFields\<close>, and \<open>Field info selection\<close>. The abstract
  part holds the fields of each concrete or abstract type, and the map from type names to them.
\<close>

datatype selection =
  Selection
    (s_loadingTypes: "string list option")
    (s_fragments: "(string \<times> fragment_info) list option")
    (s_fields: "(string \<times> field) list option")
    (s_abstract: "((string \<times> (string \<times> field) list) list \<times> (string \<times> string) list) option")
and field = Field (f_info: field_info) (f_selection: "selection option")

type_synonym field_map = "(string, field) omap"

definition flag :: "bool option \<Rightarrow> bool" where
  "flag b = (b = Some True)"

abbreviation f_type :: "field \<Rightarrow> string" where "f_type f \<equiv> fi_type (f_info f)"
abbreviation f_keyRaw :: "field \<Rightarrow> string" where "f_keyRaw f \<equiv> fi_keyRaw (f_info f)"
abbreviation f_visible :: "field \<Rightarrow> bool" where "f_visible f \<equiv> flag (fi_visible (f_info f))"

text \<open>The documents that the cache talks to; \<open>onMessage\<close> is a function, known by its identity.\<close>

datatype artifact_kind = HoudiniQuery | HoudiniSubscription | HoudiniMutation | HoudiniFragment

record subscription_spec =
  sp_rootType :: string
  sp_kind :: "artifact_kind option"
  sp_selection :: selection
  sp_onMessage :: nat
  sp_parentID :: "string option"
  sp_variables :: "gobj option"   \<comment> \<open>what \<open>variables()\<close> returns\<close>

datatype cache_message = Update gval | Refetch "gval option"

subsection \<open>Which fields of a selection apply to a type\<close>

text \<open>
  \<open>deepMerge\<close> of \<^verbatim>\<open>selection.ts\<close> at the types of an artifact: plain values and arrays of the later
  object win, absent ones leave the earlier, objects merge key by key.
\<close>

definition later :: "'a option \<Rightarrow> 'a option \<Rightarrow> 'a option" where
  "later old new = (case new of None \<Rightarrow> old | Some v \<Rightarrow> Some v)"

definition merge_opt :: "('a \<Rightarrow> 'a \<Rightarrow> 'a) \<Rightarrow> 'a option \<Rightarrow> 'a option \<Rightarrow> 'a option" where
  "merge_opt f old new =
     (case new of None \<Rightarrow> old | Some n \<Rightarrow> (case old of None \<Rightarrow> Some n | Some p \<Rightarrow> Some (f p n)))"

definition merge_list_info :: "list_info \<Rightarrow> list_info \<Rightarrow> list_info" where
  "merge_list_info a b = b\<lparr>li_includeListID := later (li_includeListID a) (li_includeListID b)\<rparr>"

definition merge_loading :: "loading_spec \<Rightarrow> loading_spec \<Rightarrow> loading_spec" where
  "merge_loading a b = b\<lparr>ls_list := later (ls_list a) (ls_list b)\<rparr>"

definition merge_map :: "('v \<Rightarrow> 'v \<Rightarrow> 'v) \<Rightarrow> ('k, 'v) omap \<Rightarrow> ('k, 'v) omap \<Rightarrow> ('k, 'v) omap" where
  "merge_map f a b = fold (\<lambda>(k, v) m. oset k (case map_of m k of None \<Rightarrow> v | Some u \<Rightarrow> f u v) m) b a"

fun merge_filter :: "list_filter \<Rightarrow> list_filter \<Rightarrow> list_filter" where
  "merge_filter (FObject a) (FObject b) =
     FObject (fold (\<lambda>(k, v). oset k v)
       (map (\<lambda>(k, v). (k, case map_of a k of None \<Rightarrow> v | Some u \<Rightarrow> merge_filter u v)) b) a)"
| "merge_filter a b = b"

definition merge_component :: "component_info \<Rightarrow> component_info \<Rightarrow> component_info" where
  "merge_component a b = b\<lparr>co_variables := merge_opt (merge_map (\<lambda>u v. v)) (co_variables a) (co_variables b)\<rparr>"

definition merge_fragment :: "fragment_info \<Rightarrow> fragment_info \<Rightarrow> fragment_info" where
  "merge_fragment a b =
     \<lparr>fr_arguments = merge_map (\<lambda>u v. v) (fr_arguments a) (fr_arguments b),
      fr_loading = later (fr_loading a) (fr_loading b)\<rparr>"

definition merge_info :: "field_info \<Rightarrow> field_info \<Rightarrow> field_info" where
  "merge_info a b =
     \<lparr>fi_type = fi_type b,
      fi_keyRaw = fi_keyRaw b,
      fi_nullable = later (fi_nullable a) (fi_nullable b),
      fi_operations = later (fi_operations a) (fi_operations b),
      fi_list = merge_opt merge_list_info (fi_list a) (fi_list b),
      fi_loading = merge_opt merge_loading (fi_loading a) (fi_loading b),
      fi_directives = later (fi_directives a) (fi_directives b),
      fi_updates = later (fi_updates a) (fi_updates b),
      fi_visible = later (fi_visible a) (fi_visible b),
      fi_filters = merge_opt (merge_map merge_filter) (fi_filters a) (fi_filters b),
      fi_abstract = later (fi_abstract a) (fi_abstract b),
      fi_abstractHasRequired = later (fi_abstractHasRequired a) (fi_abstractHasRequired b),
      fi_component = merge_opt merge_component (fi_component a) (fi_component b),
      fi_optimisticKey = later (fi_optimisticKey a) (fi_optimisticKey b)\<rparr>"

fun merge_field :: "field \<Rightarrow> field \<Rightarrow> field"
  and merge_fields :: "field_map \<Rightarrow> field_map \<Rightarrow> field_map"
  and merge_types :: "(string, field_map) omap \<Rightarrow> (string, field_map) omap \<Rightarrow> (string, field_map) omap"
  and merge_selection :: "selection \<Rightarrow> selection \<Rightarrow> selection" where
  "merge_field (Field ia sa) (Field ib sb) =
     Field (merge_info ia ib)
       (case sb of None \<Rightarrow> sa | Some b \<Rightarrow> (case sa of None \<Rightarrow> Some b | Some a \<Rightarrow> Some (merge_selection a b)))"
| "merge_fields a [] = a"
| "merge_fields a ((k, v) # b) =
     merge_fields (oset k (case map_of a k of None \<Rightarrow> v | Some u \<Rightarrow> merge_field u v) a) b"
| "merge_types a [] = a"
| "merge_types a ((k, v) # b) =
     merge_types (oset k (case map_of a k of None \<Rightarrow> v | Some u \<Rightarrow> merge_fields u v) a) b"
| "merge_selection (Selection la ra fa aa) (Selection lb rb fb ab) =
     Selection (later la lb)
       (merge_opt (merge_map merge_fragment) ra rb)
       (case fb of None \<Rightarrow> fa | Some b \<Rightarrow> (case fa of None \<Rightarrow> Some b | Some a \<Rightarrow> Some (merge_fields a b)))
       (case ab of None \<Rightarrow> aa
        | Some (tb, mb) \<Rightarrow> (case aa of None \<Rightarrow> Some (tb, mb)
            | Some (ta, ma) \<Rightarrow> Some (merge_types ta tb, merge_map (\<lambda>u v. v) ma mb)))"

definition deepMerge :: "field_map option list \<Rightarrow> field_map" where
  "deepMerge objects = fold (\<lambda>obj m. case obj of None \<Rightarrow> m | Some b \<Rightarrow> merge_fields m b) objects []"

text \<open>
  \<open>_getFieldsForType\<close>. The type name is the empty string when it is missing or null. A type that
  \<open>typeMap\<close> sends to a name without fields, which the compiler does not emit, reads as no fields.
\<close>

definition fields_for_type :: "selection \<Rightarrow> string \<Rightarrow> bool \<Rightarrow> field_map" where
  "fields_for_type s tn loading =
     (if loading then
        (case s_loadingTypes s of
           Some (t # ts) \<Rightarrow> deepMerge (map (\<lambda>ty. case s_abstract s of
               None \<Rightarrow> None | Some (fs, tm) \<Rightarrow> map_of fs ty) (t # ts))
         | _ \<Rightarrow> (case s_fields s of None \<Rightarrow> [] | Some fs \<Rightarrow> fs))
      else
        (let target = (case s_fields s of None \<Rightarrow> [] | Some fs \<Rightarrow> fs) in
         case s_abstract s of
           None \<Rightarrow> target
         | Some (fs, tm) \<Rightarrow>
             (if tn = [] then target
              else if oget [] tm tn \<noteq> [] then oget [] fs (oget [] tm tn)
              else (case map_of fs tn of Some g \<Rightarrow> g | None \<Rightarrow> target))))"

text \<open>\<open>getFieldsForType\<close>: the same behind a memo table, a map from the selection and a text key.\<close>

type_synonym memo = "(selection, (string, field_map) omap) omap"

definition memo_key :: "string \<Rightarrow> bool \<Rightarrow> string" where
  "memo_key tn loading = tn @ '':'' @ (if loading then ''1'' else ''0'')"

definition getFieldsForType :: "memo \<Rightarrow> selection \<Rightarrow> string \<Rightarrow> bool \<Rightarrow> field_map \<times> memo" where
  "getFieldsForType memo s tn loading =
     (let key = memo_key tn loading; inner = oget [] memo s in
      case map_of inner key of
        Some cached \<Rightarrow> (cached, memo)
      | None \<Rightarrow> (let result = fields_for_type s tn loading in (result, oset s (oset key result inner) memo)))"

definition memo_ok :: "memo \<Rightarrow> bool" where
  "memo_ok memo \<longleftrightarrow> (\<forall>s tn loading r. eget memo s (memo_key tn loading) = Some r \<longrightarrow> r = fields_for_type s tn loading)"

lemma memo_key_inject [simp]: "memo_key tn l = memo_key tn' l' \<longleftrightarrow> tn = tn' \<and> l = l'"
  by (auto simp: memo_key_def split: if_splits)

lemma getFieldsForType_eset:
  "getFieldsForType memo s tn loading =
     (case eget memo s (memo_key tn loading) of
        Some cached \<Rightarrow> (cached, memo)
      | None \<Rightarrow> (fields_for_type s tn loading, eset s (memo_key tn loading) (fields_for_type s tn loading) memo))"
  by (auto simp: getFieldsForType_def eget_def eset_def oget_def Let_def split: option.splits)

text \<open>
  Looking fields up with the memo table gives the same fields as computing them, and keeps the
  memo table right.
\<close>

lemma getFieldsForType_correct:
  assumes "memo_ok memo" and "getFieldsForType memo s tn loading = (r, memo')"
  shows "r = fields_for_type s tn loading \<and> memo_ok memo'"
  using assms by (auto simp: memo_ok_def getFieldsForType_eset omap_simps split: option.splits if_splits)

text \<open>The type name that a stored \<open>__typename\<close> value gives.\<close>

fun tn_of :: "gval \<Rightarrow> string" where
  "tn_of (GStr t) = t"
| "tn_of _ = []"

subsection \<open>Depth of a selection\<close>

text \<open>The nesting of a selection: what every walk over it decreases.\<close>

fun sel_depth :: "selection \<Rightarrow> nat"
  and field_depth :: "field \<Rightarrow> nat"
  and fields_depth :: "field_map \<Rightarrow> nat"
  and types_depth :: "(string, field_map) omap \<Rightarrow> nat" where
  "sel_depth (Selection l r fs ab) =
     max (case fs of None \<Rightarrow> 0 | Some m \<Rightarrow> fields_depth m)
         (case ab of None \<Rightarrow> 0 | Some (ts, tm) \<Rightarrow> types_depth ts)"
| "field_depth (Field i so) = (case so of None \<Rightarrow> 0 | Some s \<Rightarrow> Suc (sel_depth s))"
| "fields_depth [] = 0"
| "fields_depth ((k, f) # m) = max (field_depth f) (fields_depth m)"
| "types_depth [] = 0"
| "types_depth ((k, m) # ts) = max (fields_depth m) (types_depth ts)"

lemma field_depth_le: "(k, f) \<in> set m \<Longrightarrow> field_depth f \<le> fields_depth m"
  by (induction m) (auto simp: le_max_iff_disj)

lemma types_depth_le: "(k, m) \<in> set ts \<Longrightarrow> fields_depth m \<le> types_depth ts"
  by (induction ts) (auto simp: le_max_iff_disj)

lemma fields_depth_oset: "fields_depth (oset k f m) \<le> max (field_depth f) (fields_depth m)"
  by (induction m) (auto simp: le_max_iff_disj)

lemma types_depth_oset: "types_depth (oset k m ts) \<le> max (fields_depth m) (types_depth ts)"
  by (induction ts) (auto simp: le_max_iff_disj)

lemma merge_depth:
  "field_depth (merge_field f g) \<le> max (field_depth f) (field_depth g)"
  "fields_depth (merge_fields a b) \<le> max (fields_depth a) (fields_depth b)"
  "types_depth (merge_types ta tb) \<le> max (types_depth ta) (types_depth tb)"
  "sel_depth (merge_selection s t) \<le> max (sel_depth s) (sel_depth t)"
proof (induction f g and a b and ta tb and s t rule: merge_field_merge_fields_merge_types_merge_selection.induct)
  case (3 a k v b)
  let ?v = "case map_of a k of None \<Rightarrow> v | Some u \<Rightarrow> merge_field u v"
  have "field_depth ?v \<le> max (fields_depth a) (field_depth v)"
    using 3(1) field_depth_le by (fastforce split: option.splits dest: map_of_SomeD)
  with fields_depth_oset [of k ?v a] 3(2) show ?case by simp
next
  case (5 a k v b)
  let ?v = "case map_of a k of None \<Rightarrow> v | Some u \<Rightarrow> merge_fields u v"
  have "fields_depth ?v \<le> max (types_depth a) (fields_depth v)"
    using 5(1) types_depth_le by (fastforce split: option.splits dest: map_of_SomeD)
  with types_depth_oset [of k ?v a] 5(2) show ?case by simp
next
  case (6 la ra fa aa lb rb fb ab)
  have fs: "fields_depth (merge_fields a b) \<le> max (fields_depth a) (fields_depth b)"
    if "fb = Some b" "fa = Some a" for a b using 6(1) that by simp
  have ts: "types_depth (merge_types ta tb) \<le> max (types_depth ta) (types_depth tb)"
    if "ab = Some (tb, mb)" "aa = Some (ta, ma)" for ta tb ma mb using 6(2) that by simp
  let ?F = "\<lambda>m. case m of None \<Rightarrow> 0 | Some m \<Rightarrow> fields_depth m"
  let ?T = "\<lambda>m. case m of None \<Rightarrow> 0 | Some (ts, tm) \<Rightarrow> types_depth ts"
  let ?f = "case fb of None \<Rightarrow> fa | Some b \<Rightarrow> (case fa of None \<Rightarrow> Some b | Some a \<Rightarrow> Some (merge_fields a b))"
  let ?t = "case ab of None \<Rightarrow> aa | Some (tb, mb) \<Rightarrow> (case aa of None \<Rightarrow> Some (tb, mb)
    | Some (ta, ma) \<Rightarrow> Some (merge_types ta tb, merge_map (\<lambda>u v. v) ma mb))"
  have "?F ?f \<le> max (?F fa) (?F fb)" using fs by (cases fa; cases fb) simp_all
  moreover have "?T ?t \<le> max (?T aa) (?T ab)" using ts by (cases aa; cases ab) (auto split: prod.splits)
  ultimately have "max (?F ?f) (?T ?t) \<le> max (max (?F fa) (?T aa)) (max (?F fb) (?T ab))" by linarith
  then show ?case by (simp only: merge_selection.simps sel_depth.simps)
qed (auto split: option.splits)

lemma deepMerge_depth:
  assumes "\<And>m. Some m \<in> set objs \<Longrightarrow> fields_depth m \<le> n"
  shows "fields_depth (deepMerge objs) \<le> n"
  unfolding deepMerge_def
proof (rule fold_invariant_list [where P = "\<lambda>m. fields_depth m \<le> n"])
  fix obj s assume "obj \<in> set objs" and "fields_depth s \<le> n"
  show "fields_depth (case obj of None \<Rightarrow> s | Some b \<Rightarrow> merge_fields s b) \<le> n"
  proof (cases obj)
    case (Some b)
    with assms [of b] \<open>obj \<in> set objs\<close> have "fields_depth b \<le> n" by simp
    with \<open>fields_depth s \<le> n\<close> have "fields_depth (merge_fields s b) \<le> n"
      by (intro order_trans [OF merge_depth(2)]) simp
    with Some show ?thesis by simp
  next
    case None
    with \<open>fields_depth s \<le> n\<close> show ?thesis by simp
  qed
qed simp

lemma fields_for_type_depth: "fields_depth (fields_for_type s tn loading) \<le> sel_depth s"
proof (cases s)
  case (Selection l r fs ab)
  have ty: "fields_depth m \<le> types_depth ts" if "map_of ts k = Some m" for ts k m
    using that types_depth_le by (blast dest: map_of_SomeD)
  show ?thesis
  proof (cases "loading \<and> (\<exists>t ts. l = Some (t # ts))")
    case True
    then obtain t ts where l: "l = Some (t # ts)" and loading by blast
    have "fields_depth (deepMerge (map (\<lambda>ty. case ab of None \<Rightarrow> None | Some (fs, tm) \<Rightarrow> map_of fs ty) (t # ts))) \<le> sel_depth s"
      by (rule deepMerge_depth) (use Selection in \<open>auto split: option.splits simp: le_max_iff_disj dest!: sym [of "Some _"] ty\<close>)
    with l \<open>loading\<close> Selection show ?thesis by (simp add: fields_for_type_def)
  next
    case False
    with Selection show ?thesis
      by (auto simp: fields_for_type_def Let_def oget_def le_max_iff_disj split: option.splits list.splits dest: ty)
  qed
qed

lemma fields_for_type_field:
  assumes "(k, f) \<in> set (fields_for_type s tn loading)"
  shows "field_depth f \<le> sel_depth s"
  using field_depth_le [OF assms] fields_for_type_depth by (rule order_trans)

lemma sub_selection_depth: "f_selection f = Some s \<Longrightarrow> sel_depth s < field_depth f"
  by (cases f) simp

subsection \<open>Configuration and record ids\<close>

text \<open>
  The part of the configuration that the cache reads. \<open>resolve\<close> and the scalar functions are user code.
\<close>

record type_config =
  tc_keys :: "string list option"
  tc_resolve :: "(gval \<Rightarrow> gobj) option"

record config =
  cf_defaultKeys :: "string list option"
  cf_types :: "(string, type_config) omap"
  cf_cacheBufferSize :: "int option"
  cf_defaultLifetime :: "int option"
  cf_unmarshal :: "(string, gval \<Rightarrow> gval) omap"

definition empty_config :: config where
  "empty_config = \<lparr>cf_defaultKeys = None, cf_types = [], cf_cacheBufferSize = None,
     cf_defaultLifetime = None, cf_unmarshal = []\<rparr>"

definition defaultConfigValues :: "config \<Rightarrow> config" where
  "defaultConfigValues file = file\<lparr>
     cf_defaultKeys := Some (case cf_defaultKeys file of None \<Rightarrow> [''id''] | Some ks \<Rightarrow> ks),
     cf_types := fold (\<lambda>(t, c). oset t c) (cf_types file)
       [(''Node'', \<lparr>tc_keys = Some [''id''], tc_resolve = Some (\<lambda>node. [(''id'', gprop node ''id'')])\<rparr>)]\<rparr>"

definition keyFieldsForType :: "config \<Rightarrow> string \<Rightarrow> string list" where
  "keyFieldsForType configFile ty =
     (let withDefault = defaultConfigValues configFile in
      case Option.bind (map_of (cf_types withDefault) ty) tc_keys of
        Some ks \<Rightarrow> ks
      | None \<Rightarrow> (case cf_defaultKeys withDefault of Some ks \<Rightarrow> ks | None \<Rightarrow> []))"

definition entityRefetchVariables :: "config \<Rightarrow> string \<Rightarrow> gval \<Rightarrow> gobj" where
  "entityRefetchVariables configFile targetType state =
     (if targetType = [] \<or> targetType = ''Query'' \<or> \<not> truthy state then []
      else
        (let config = defaultConfigValues configFile in
         case Option.bind (map_of (cf_types config) targetType) tc_resolve of
           Some f \<Rightarrow> f state
         | None \<Rightarrow> fold (\<lambda>k. oset k (gprop state k)) (keyFieldsForType config targetType) []))"

text \<open>Template-literal conversion. A symbol would throw there; a function prints its source text.\<close>

function js_string :: "gval \<Rightarrow> string" where
  "js_string v =
     (case v of
        GUndef \<Rightarrow> ''undefined''
      | GNull \<Rightarrow> ''null''
      | GBool b \<Rightarrow> (if b then ''true'' else ''false'')
      | GNum i \<Rightarrow> js_of_int i
      | GDec m n \<Rightarrow> js_of_dec m n
      | GStr s \<Rightarrow> s
      | GSym \<Rightarrow> ''Symbol(houdini_loading)''
      | GComp k p f a r \<Rightarrow> ''function''
      | GArr xs \<Rightarrow> join '','' (map (\<lambda>x. if nullish x then [] else js_string x) xs)
      | GObj ps \<Rightarrow> ''[object Object]'')"
  by pat_completeness auto
termination
  by (relation "measure gdepth") (use gdepth_arr in auto)

declare js_string.simps [simp del]

lemma js_string_simps [simp]:
  "js_string (GStr s) = s"
  "js_string (GNum i) = js_of_int i"
  "js_string GUndef = ''undefined''"
  by (simp_all add: js_string.simps)

definition computeID :: "config \<Rightarrow> string \<Rightarrow> gval \<Rightarrow> string" where
  "computeID configFile ty data =
     (let ident = concat (map (\<lambda>f. js_string (gprop data f) @ ''__'') (keyFieldsForType configFile ty))
      in take (length ident - 2) ident)"

text \<open>
  \<open>CacheInternal.id\<close>: the key fields of an object, or a ready id, joined with the type. It is never
  called on \<open>null\<close>. \<open>None\<close> is the source's \<open>null\<close>.
\<close>

definition cache_id :: "config \<Rightarrow> string \<Rightarrow> gval \<Rightarrow> string option" where
  "cache_id configFile ty data =
     (let ident = (if is_object data then computeID configFile ty data else if truthy data then js_string data else [])
      in if ident = [] then None else if ty = [] then Some ident else Some (ty @ '':'' @ ident))"

definition isEmbedded :: "config \<Rightarrow> string \<Rightarrow> gval \<Rightarrow> bool" where
  "isEmbedded configFile linkedType v =
     (let idFields = keyFieldsForType configFile linkedType in
      idFields = [] \<or> filter (\<lambda>f. gprop v f = GUndef) idFields \<noteq> [])"

text \<open>The id is the key values joined by two underscores.\<close>

lemma computeID_join:
  "computeID cfg ty data = join ''__'' (map (\<lambda>f. js_string (gprop data f)) (keyFieldsForType cfg ty))"
proof -
  have "take (length (concat (map (\<lambda>s. s @ ''__'') ss)) - 2) (concat (map (\<lambda>s. s @ ''__'') ss)) = join ''__'' ss"
    for ss :: "string list"
  proof (induction ss)
    case (Cons s ss)
    show ?case
    proof (cases ss)
      case (Cons t ts)
      have "2 \<le> length (concat (map (\<lambda>s. s @ ''__'') ss))" by (simp add: Cons)
      with Cons.IH show ?thesis by (simp add: Cons join_Cons)
    qed simp
  qed simp
  from this [of "map (\<lambda>f. js_string (gprop data f)) (keyFieldsForType cfg ty)"]
  show ?thesis by (simp add: computeID_def Let_def comp_def)
qed

lemma cache_id_single_key:
  assumes "keyFieldsForType cfg ty = [k]" and "ty \<noteq> []"
    and "gprop a k = GStr x" and "gprop b k = GStr y" and "is_object a" and "is_object b"
    and "cache_id cfg ty a = Some i" and "cache_id cfg ty b = Some i"
  shows "x = y"
  using assms by (auto simp: cache_id_def computeID_join Let_def split: if_splits)

lemma keyFieldsForType_default: "keyFieldsForType empty_config ty = [''id'']"
  by (simp add: keyFieldsForType_def defaultConfigValues_def empty_config_def)

lemma getFieldsForType_correct_witness:
  "[] = fields_for_type (Selection None None (Some []) None) ''User'' False
     \<and> memo_ok [(Selection None None (Some []) None, [(memo_key ''User'' False, [])])]"
  by (rule getFieldsForType_correct [of "[]"]) (simp add: memo_ok_def, code_simp)

end
