(* ===== verification/Storage.thy ===== *)
theory Storage
  imports Documents
begin

section \<open>The layered record store\<close>

text \<open>
  \<^verbatim>\<open>runtime/cache/storage.ts\<close>: \<open>Layer\<close> and \<open>InMemoryStorage\<close>, every operation.

  A layer holds the values, links, list operations and deletions of one write. The store is a list of
  layers, oldest first; a read walks it from the newest. Optimistic layers belong to a pending
  mutation and are either cleared or merged down.

  \<^item> The source keeps \<open>fields\<close> and \<open>links\<close> as two-level objects; both are \<open>emap\<close>s.
  \<^item> A link value is \<open>GStr id\<close>, \<open>GNull\<close> or an array of those.
  \<^item> \<open>fields\<close> of an operation entry is \<open>None\<close> when the property was never set, which the type in the
    source excludes but \<open>delete\<close> and the undo of a delete produce: reading a list operation there is
    a \<open>TypeError\<close>.
  \<^item> Property enumeration is in insertion order; JavaScript moves integer-like keys to the front,
    which no operation here depends on.
  \<^item> Layers are objects shared by reference only with the code that created them; ids identify them.
\<close>

subsection \<open>Layers\<close>

datatype op_location = LocStart | LocEnd

datatype list_op =
    InsertOp (op_loc: op_location) (op_id: string)
  | RemoveOp (op_id: string)

datatype operation = ListOp list_op | DeleteOp string

record op_entry =
  oe_deleted :: bool
  oe_undo :: "string list option"
  oe_fields :: "(string, list_op list) omap option"

definition empty_entry :: op_entry where
  "empty_entry = \<lparr>oe_deleted = False, oe_undo = None, oe_fields = None\<rparr>"

record layer =
  lid :: nat
  optimistic :: bool
  lfields :: "(string, string, gval) emap"
  llinks :: "(string, string, gval) emap"
  operations :: "(string, op_entry) omap"
  deletedIDs :: "string list"

definition new_layer :: "nat \<Rightarrow> bool \<Rightarrow> layer" where
  "new_layer i opt = \<lparr>lid = i, optimistic = opt, lfields = [], llinks = [], operations = [], deletedIDs = []\<rparr>"

datatype kind = KLink | KScalar | KUnknown

definition or_undef :: "gval option \<Rightarrow> gval" where
  "or_undef v = (case v of None \<Rightarrow> GUndef | Some x \<Rightarrow> x)"

definition layer_get :: "layer \<Rightarrow> string \<Rightarrow> string \<Rightarrow> gval \<times> kind" where
  "layer_get l i f =
     (if or_undef (eget (llinks l) i f) \<noteq> GUndef then (or_undef (eget (llinks l) i f), KLink)
      else (or_undef (eget (lfields l) i f), KScalar))"

text \<open>\<open>None\<close> is \<open>undefined\<close>.\<close>

definition getOperations :: "layer \<Rightarrow> string \<Rightarrow> string \<Rightarrow> operation list option" where
  "getOperations l i f =
     (case map_of (operations l) i of
        None \<Rightarrow> None
      | Some e \<Rightarrow> if oe_deleted e then Some [DeleteOp i]
          else (case oe_fields e of None \<Rightarrow> None
                | Some fs \<Rightarrow> map_option (map ListOp) (map_of fs f)))"

definition layer_writeField :: "string \<Rightarrow> string \<Rightarrow> gval \<Rightarrow> layer \<Rightarrow> layer" where
  "layer_writeField i f v l = l\<lparr>lfields := eset i f v (lfields l)\<rparr>"

text \<open>\<open>this.operations[id]?.fields[field]\<close>, which throws when the entry has no \<open>fields\<close>.\<close>

definition field_ops :: "layer \<Rightarrow> string \<Rightarrow> string \<Rightarrow> js_error + list_op list option" where
  "field_ops l i f =
     (case map_of (operations l) i of
        None \<Rightarrow> Inr None
      | Some e \<Rightarrow> (case oe_fields e of
            None \<Rightarrow> Inl (TypeError ''operations[id].fields is undefined'')
          | Some fs \<Rightarrow> Inr (map_of fs f)))"

definition is_deleted :: "layer \<Rightarrow> string \<Rightarrow> bool" where
  "is_deleted l v \<longleftrightarrow>
     (case map_of (operations l) v of None \<Rightarrow> False | Some e \<Rightarrow> oe_deleted e) \<or> v \<in> set (deletedIDs l)"

text \<open>The body of \<open>writeLink\<close>'s loop for one linked id: undo its deletion or its removal from the list.\<close>

definition undo_removal :: "string \<Rightarrow> string \<Rightarrow> string \<Rightarrow> layer \<Rightarrow> js_error + layer" where
  "undo_removal i f v l =
     sbind (field_ops l i f) (\<lambda>fieldOperations.
       if is_deleted l v then
         (let undone = (case map_of (operations l) i of
                          None \<Rightarrow> [] | Some e \<Rightarrow> (case oe_undo e of None \<Rightarrow> [] | Some u \<Rightarrow> u))
          in Inr (l\<lparr>operations := oset v
                   ((oget empty_entry (operations l) v)\<lparr>oe_undo := Some (undone @ [f])\<rparr>) (operations l)\<rparr>))
       else
         (case (fieldOperations, map_of (operations l) i) of
            (Some (op # ops), Some e) \<Rightarrow>
              Inr (l\<lparr>operations := oset i (e\<lparr>oe_fields :=
                map_option (oset f (filter (\<lambda>p. p \<noteq> RemoveOp v) (op # ops))) (oe_fields e)\<rparr>) (operations l)\<rparr>)
          | _ \<Rightarrow> Inr l))"

definition layer_writeLink :: "string \<Rightarrow> string \<Rightarrow> gval \<Rightarrow> layer \<Rightarrow> js_error + layer" where
  "layer_writeLink i f v l =
     sbind (sfold (undo_removal i f) (link_ids v) l) (\<lambda>l'. Inr (l'\<lparr>llinks := eset i f v (llinks l')\<rparr>))"

definition isDisplayLayer :: "layer \<Rightarrow> nat list \<Rightarrow> bool" where
  "isDisplayLayer l displayLayers \<longleftrightarrow>
     displayLayers = [] \<or> lid l \<in> set displayLayers \<or> fold max displayLayers 0 < lid l"

definition layer_clear :: "layer \<Rightarrow> layer" where
  "layer_clear l = l\<lparr>llinks := [], lfields := [], operations := [], deletedIDs := []\<rparr>"


text \<open>\<open>delete m[id][field]\<close> on a missing record throws, and the source swallows that: \<open>edel\<close>.\<close>

definition drop_undefined :: "string \<Rightarrow> (string \<times> gval) list \<Rightarrow> layer \<Rightarrow> layer" where
  "drop_undefined i entries l =
     fold (\<lambda>(f, v) l. if v = GUndef then l\<lparr>lfields := edel i f (lfields l), llinks := edel i f (llinks l)\<rparr> else l)
       entries l"

definition drop_empty_record :: "string \<Rightarrow> layer \<Rightarrow> layer" where
  "drop_empty_record i l =
     (let l1 = (if oget [] (lfields l) i = [] then l\<lparr>lfields := odel i (lfields l)\<rparr> else l)
      in if oget [] (llinks l1) i = [] then l1\<lparr>llinks := odel i (llinks l1)\<rparr> else l1)"

definition removeUndefinedFields :: "layer \<Rightarrow> layer" where
  "removeUndefinedFields l =
     fold (\<lambda>(i, r) l. drop_empty_record i (drop_undefined i r l)) (lfields l) l"

definition layer_delete :: "string \<Rightarrow> layer \<Rightarrow> layer" where
  "layer_delete i l =
     l\<lparr>operations := oset i ((oget empty_entry (operations l) i)\<lparr>oe_deleted := True, oe_undo := Some []\<rparr>) (operations l),
       deletedIDs := sadd i (deletedIDs l)\<rparr>"

definition layer_deleteField :: "string \<Rightarrow> string \<Rightarrow> layer \<Rightarrow> layer" where
  "layer_deleteField i f l = l\<lparr>lfields := eset i f GUndef (lfields l)\<rparr>"

definition addFieldOperation :: "string \<Rightarrow> string \<Rightarrow> list_op \<Rightarrow> layer \<Rightarrow> js_error + layer" where
  "addFieldOperation i f op l =
     sbind (field_ops l i f) (\<lambda>before.
       let e = oget empty_entry (operations l) i;
           fields = (case oe_fields e of None \<Rightarrow> [] | Some fs \<Rightarrow> fs);
           ops = (case before of None \<Rightarrow> [] | Some ops \<Rightarrow> ops)
       in Inr (l\<lparr>operations := oset i (e\<lparr>oe_fields := Some (oset f (ops @ [op]) fields)\<rparr>) (operations l)\<rparr>))"

definition layer_insert :: "string \<Rightarrow> string \<Rightarrow> op_location \<Rightarrow> string \<Rightarrow> layer \<Rightarrow> js_error + layer" where
  "layer_insert i f loc target l = addFieldOperation i f (InsertOp loc target) l"

definition layer_remove :: "string \<Rightarrow> string \<Rightarrow> string \<Rightarrow> layer \<Rightarrow> js_error + layer" where
  "layer_remove i f target l = addFieldOperation i f (RemoveOp target) l"

subsection \<open>Merging one layer into another\<close>

text \<open>
  The operations on one field of both layers, newest first, are compacted: for each id the inserts
  minus the removes are counted, and of the newest operations of the winning kind that many are kept.
\<close>

definition is_insert :: "list_op \<Rightarrow> bool" where
  "is_insert op = (case op of InsertOp _ _ \<Rightarrow> True | RemoveOp _ \<Rightarrow> False)"

definition inserts_of :: "string \<Rightarrow> list_op list \<Rightarrow> nat" where
  "inserts_of t ops = length (filter (\<lambda>op. is_insert op \<and> op_id op = t) ops)"

definition removes_of :: "string \<Rightarrow> list_op list \<Rightarrow> nat" where
  "removes_of t ops = length (filter (\<lambda>op. \<not> is_insert op \<and> op_id op = t) ops)"

definition net_of :: "list_op list \<Rightarrow> string \<Rightarrow> int" where
  "net_of ops t = int (inserts_of t ops) - int (removes_of t ops)"

fun keep_net :: "(string \<Rightarrow> int) \<Rightarrow> (string, nat) omap \<Rightarrow> (string, nat) omap \<Rightarrow> list_op list \<Rightarrow> list_op list" where
  "keep_net net keptInserts keptRemoves [] = []"
| "keep_net net keptInserts keptRemoves (InsertOp loc t # ops) =
     (if net t \<le> 0 \<or> net t \<le> int (oget 0 keptInserts t) then keep_net net keptInserts keptRemoves ops
      else InsertOp loc t # keep_net net (oset t (Suc (oget 0 keptInserts t)) keptInserts) keptRemoves ops)"
| "keep_net net keptInserts keptRemoves (RemoveOp t # ops) =
     (if 0 \<le> net t \<or> - net t \<le> int (oget 0 keptRemoves t) then keep_net net keptInserts keptRemoves ops
      else RemoveOp t # keep_net net keptInserts (oset t (Suc (oget 0 keptRemoves t)) keptRemoves) ops)"

definition compact :: "list_op list \<Rightarrow> list_op list" where
  "compact ops = keep_net (net_of ops) [] [] ops"

definition merge_op_fields :: "(string, list_op list) omap \<Rightarrow> (string, list_op list) omap \<Rightarrow> (string, list_op list) omap" where
  "merge_op_fields newer older =
     fold (\<lambda>(f, ops) fields. oset f (oget [] fields f @ ops) fields) (newer @ older) []"

definition entry_fields :: "op_entry option \<Rightarrow> (string, list_op list) omap" where
  "entry_fields e = (case Option.bind e oe_fields of None \<Rightarrow> [] | Some fs \<Rightarrow> fs)"

definition merge_operations_of :: "string \<Rightarrow> op_entry \<Rightarrow> layer \<Rightarrow> layer" where
  "merge_operations_of i ops this =
     (let fields = map (\<lambda>(f, ops). (f, compact ops))
            (merge_op_fields (entry_fields (Some ops)) (entry_fields (map_of (operations this) i)));
          this1 = (if fields = [] then this
            else this\<lparr>operations := oset i ((oget empty_entry (operations this) i)\<lparr>oe_fields := Some fields\<rparr>) (operations this)\<rparr>)
      in if oe_deleted ops then this1\<lparr>lfields := odel i (lfields this1), llinks := odel i (llinks this1)\<rparr> else this1)"

definition entries_of :: "('k, 'f, 'v) emap \<Rightarrow> ('k \<times> 'f \<times> 'v) list" where
  "entries_of m = concat (map (\<lambda>(i, r). map (\<lambda>(f, v). (i, f, v)) r) m)"

definition writeLayer :: "layer \<Rightarrow> layer \<Rightarrow> js_error + layer" where
  "writeLayer layer this =
     (if lid layer = lid this then Inr this
      else
        (let this1 = fold (\<lambda>(i, ops). merge_operations_of i ops) (operations layer) this;
             this2 = fold (\<lambda>(i, f, v). layer_writeField i f v) (entries_of (lfields layer)) this1
         in sbind (sfold (\<lambda>(i, f, v). layer_writeLink i f v) (entries_of (llinks layer)) this2) (\<lambda>this3.
              Inr (this3\<lparr>deletedIDs := fold sadd (deletedIDs layer) (deletedIDs this3)\<rparr>))))"

subsection \<open>The store\<close>

record storage =
  sdata :: "layer list"   \<comment> \<open>oldest first\<close>
  idCount :: nat
  rank :: nat
  idMaps :: "(string, string) omap"
  typenames :: "(string, gval) omap"

definition new_storage :: storage where
  "new_storage = \<lparr>sdata = [], idCount = 1, rank = 0, idMaps = [], typenames = []\<rparr>"

definition nextRank :: "storage \<Rightarrow> nat \<times> storage" where
  "nextRank st = (rank st, st\<lparr>rank := Suc (rank st)\<rparr>)"

definition registerIDMapping :: "string \<Rightarrow> string \<Rightarrow> storage \<Rightarrow> storage" where
  "registerIDMapping frm to st = st\<lparr>idMaps := oset to frm (oset frm to (idMaps st))\<rparr>"

definition createLayer :: "bool \<Rightarrow> storage \<Rightarrow> layer \<times> storage" where
  "createLayer opt st =
     (let l = new_layer (idCount st) opt in (l, st\<lparr>idCount := Suc (idCount st), sdata := sdata st @ [l]\<rparr>))"

text \<open>\<open>topLayer\<close>: the getter makes sure that the newest layer is not optimistic.\<close>

definition ensure_top :: "storage \<Rightarrow> storage" where
  "ensure_top st =
     (let st1 = (if sdata st = [] then snd (createLayer False st) else st)
      in if optimistic (last (sdata st1)) then snd (createLayer False st1) else st1)"

definition topLayer :: "storage \<Rightarrow> layer" where
  "topLayer st = last (sdata (ensure_top st))"


text \<open>An operation on one layer of the store, given by its id; ids are unique.\<close>

definition on_layer :: "nat \<Rightarrow> (layer \<Rightarrow> layer) \<Rightarrow> storage \<Rightarrow> storage" where
  "on_layer i f st = st\<lparr>sdata := map (\<lambda>l. if lid l = i then f l else l) (sdata st)\<rparr>"

definition on_layer_err :: "nat \<Rightarrow> (layer \<Rightarrow> js_error + layer) \<Rightarrow> storage \<Rightarrow> js_error + storage" where
  "on_layer_err i f st =
     sbind (smap (\<lambda>l. if lid l = i then f l else Inr l) (sdata st)) (\<lambda>ls. Inr (st\<lparr>sdata := ls\<rparr>))"

definition on_top :: "(layer \<Rightarrow> layer) \<Rightarrow> storage \<Rightarrow> storage" where
  "on_top f st =
     (let st1 = ensure_top st in st1\<lparr>sdata := butlast (sdata st1) @ [f (last (sdata st1))]\<rparr>)"

definition on_top_err :: "(layer \<Rightarrow> js_error + layer) \<Rightarrow> storage \<Rightarrow> js_error + storage" where
  "on_top_err f st =
     (let st1 = ensure_top st
      in sbind (f (last (sdata st1))) (\<lambda>l. Inr (st1\<lparr>sdata := butlast (sdata st1) @ [l]\<rparr>)))"

definition storage_insert :: "string \<Rightarrow> string \<Rightarrow> op_location \<Rightarrow> string \<Rightarrow> storage \<Rightarrow> js_error + storage" where
  "storage_insert i f loc target = on_top_err (layer_insert i f loc target)"

text \<open>\<open>remove\<close> and \<open>delete\<close> take the layer to write to, the top layer by default.\<close>

definition storage_remove :: "string \<Rightarrow> string \<Rightarrow> string \<Rightarrow> nat option \<Rightarrow> storage \<Rightarrow> js_error + storage" where
  "storage_remove i f target layer st =
     (case layer of None \<Rightarrow> on_top_err (layer_remove i f target) st
      | Some n \<Rightarrow> on_layer_err n (layer_remove i f target) st)"

definition storage_delete :: "string \<Rightarrow> nat option \<Rightarrow> storage \<Rightarrow> storage" where
  "storage_delete i layer st =
     (case layer of None \<Rightarrow> on_top (layer_delete i) st | Some n \<Rightarrow> on_layer n (layer_delete i) st)"

definition storage_deleteField :: "string \<Rightarrow> string \<Rightarrow> storage \<Rightarrow> storage" where
  "storage_deleteField i f = on_top (layer_deleteField i f)"

definition removeEmbeddedRecord :: "string \<Rightarrow> storage \<Rightarrow> storage" where
  "removeEmbeddedRecord i st =
     st\<lparr>sdata := map (\<lambda>l. if optimistic l then l
                         else l\<lparr>lfields := odel i (lfields l), llinks := odel i (llinks l)\<rparr>) (sdata st),
        typenames := odel i (typenames st)\<rparr>"

definition getLayer :: "nat \<Rightarrow> storage \<Rightarrow> js_error + layer" where
  "getLayer n st =
     (case find (\<lambda>l. lid l = n) (sdata st) of
        Some l \<Rightarrow> Inr l
      | None \<Rightarrow> Inl (Thrown (''Could not find layer with id: '' @ js_of_nat n)))"

definition storage_writeLink :: "string \<Rightarrow> string \<Rightarrow> gval \<Rightarrow> storage \<Rightarrow> js_error + storage" where
  "storage_writeLink i f v = on_top_err (layer_writeLink i f v)"

definition storage_writeField :: "string \<Rightarrow> string \<Rightarrow> gval \<Rightarrow> storage \<Rightarrow> storage" where
  "storage_writeField i f v = on_top (layer_writeField i f v)"

subsection \<open>Reading\<close>

record read_result =
  rr_value :: gval
  rr_kind :: kind
  rr_layers :: "nat list"

definition no_read :: read_result where
  "no_read = \<lparr>rr_value = GUndef, rr_kind = KUnknown, rr_layers = []\<rparr>"

text \<open>What a read collects while it walks down the layers.\<close>

record read_acc =
  ra_start :: "string list"
  ra_end :: "string list"
  ra_remove :: "string list"
  ra_layers :: "nat list"

definition no_acc :: read_acc where
  "no_acc = \<lparr>ra_start = [], ra_end = [], ra_remove = [], ra_layers = []\<rparr>"

text \<open>The ids that the layer's deletions filter out of a list read at \<open>field\<close>.\<close>

definition undone_in :: "layer \<Rightarrow> string \<Rightarrow> string \<Rightarrow> bool" where
  "undone_in l f v =
     (case Option.bind (map_of (operations l) v) oe_undo of None \<Rightarrow> False | Some u \<Rightarrow> f \<in> set u)"

definition collect_deleted :: "(string, string) omap \<Rightarrow> layer \<Rightarrow> string \<Rightarrow> string list \<Rightarrow> string list" where
  "collect_deleted ids l f =
     fold (\<lambda>v s. if undone_in l f v then s
                 else if oget [] ids v \<noteq> [] then sadd (oget [] ids v) (sadd v s) else sadd v s) (deletedIDs l)"

text \<open>The list operations of one layer; \<open>None\<close> when the record is deleted there.\<close>

fun collect_ops :: "operation list \<Rightarrow> read_acc \<Rightarrow> read_acc option" where
  "collect_ops [] a = Some a"
| "collect_ops (ListOp (RemoveOp t) # ops) a = collect_ops ops (a\<lparr>ra_remove := sadd t (ra_remove a)\<rparr>)"
| "collect_ops (ListOp (InsertOp LocEnd t) # ops) a = collect_ops ops (a\<lparr>ra_end := t # ra_end a\<rparr>)"
| "collect_ops (ListOp (InsertOp LocStart t) # ops) a = collect_ops ops (a\<lparr>ra_start := ra_start a @ [t]\<rparr>)"
| "collect_ops (DeleteOp t # ops) a = None"

definition apply_acc :: "read_acc \<Rightarrow> gval list \<Rightarrow> gval list" where
  "apply_acc a vs =
     filter (\<lambda>v. case gstr v of None \<Rightarrow> True | Some t \<Rightarrow> t \<notin> set (ra_remove a))
       (map GStr (ra_start a) @ vs @ map GStr (ra_end a))"

text \<open>
  The two nested loops of \<open>get\<close>, flattened over the pairs of layer and record id, newest layer first.
  The second result is the id at which the default value is written, if it is.
\<close>

fun get_loop :: "(string, string) omap \<Rightarrow> string \<Rightarrow> gval \<Rightarrow> (layer \<times> string) list \<Rightarrow> read_acc
    \<Rightarrow> read_result \<times> string option" where
  "get_loop ids f d [] a = (no_read, None)"
| "get_loop ids f d ((l, i) # ps) a =
     (let (stored, knd) = layer_get l i f;
          ops = (case getOperations l i f of None \<Rightarrow> [] | Some ops \<Rightarrow> ops);
          a1 = a\<lparr>ra_remove := collect_deleted ids l f (ra_remove a)\<rparr>;
          fill = (stored = GUndef \<and> truthy d);
          wrote = (if fill then Some i else None);
          v = (if fill then d else stored)
      in if v = GUndef \<and> ops = [] then
           get_loop ids f d ps (if deletedIDs l = [] then a1 else a1\<lparr>ra_layers := ra_layers a1 @ [lid l]\<rparr>)
         else if v \<noteq> GUndef \<and> \<not> is_arr v then
           (\<lparr>rr_value = v, rr_kind = knd, rr_layers = [lid l]\<rparr>, wrote)
         else
           (case collect_ops ops (a1\<lparr>ra_layers := ra_layers a1 @ [lid l]\<rparr>) of
              None \<Rightarrow> (no_read, wrote)
            | Some a2 \<Rightarrow>
                (case v of
                   GArr vs \<Rightarrow>
                     (if ra_remove a2 = [] \<and> ra_start a2 = [] \<and> ra_end a2 = [] then
                        (\<lparr>rr_value = v, rr_kind = KLink, rr_layers = ra_layers a2\<rparr>, wrote)
                      else (\<lparr>rr_value = GArr (apply_acc a2 vs), rr_kind = knd, rr_layers = ra_layers a2\<rparr>, wrote))
                 | _ \<Rightarrow> get_loop ids f d ps a2)))"

definition recordIDs :: "storage \<Rightarrow> string \<Rightarrow> string list" where
  "recordIDs st i = (let m = oget [] (idMaps st) i in if m = [] then [i] else [m, i])"

definition read_pairs :: "storage \<Rightarrow> string \<Rightarrow> (layer \<times> string) list" where
  "read_pairs st i = concat (map (\<lambda>l. map (Pair l) (recordIDs st i)) (rev (sdata st)))"

definition storage_get_default :: "string \<Rightarrow> string \<Rightarrow> gval \<Rightarrow> storage \<Rightarrow> read_result \<times> storage" where
  "storage_get_default i f d st =
     (let (r, wrote) = get_loop (idMaps st) f d (read_pairs st i) no_acc
      in (r, case wrote of None \<Rightarrow> st | Some w \<Rightarrow> storage_writeField w f d st))"

text \<open>\<open>get\<close> without a default value writes nothing.\<close>

definition storage_get :: "storage \<Rightarrow> string \<Rightarrow> string \<Rightarrow> read_result" where
  "storage_get st i f = fst (get_loop (idMaps st) f GUndef (read_pairs st i) no_acc)"

abbreviation read_value :: "storage \<Rightarrow> string \<Rightarrow> string \<Rightarrow> gval" where
  "read_value st i f \<equiv> rr_value (storage_get st i f)"

text \<open>\<open>getTypename\<close>: the table of type names, filled on demand.\<close>

definition getTypename :: "string \<Rightarrow> storage \<Rightarrow> gval \<times> storage" where
  "getTypename i st =
     (case map_of (typenames st) i of
        Some t \<Rightarrow> (t, st)
      | None \<Rightarrow> (let t = read_value st i ''__typename''
          in (t, if t = GUndef then st else st\<lparr>typenames := oset i t (typenames st)\<rparr>)))"

subsection \<open>Resolving a layer\<close>

text \<open>
  \<open>resolveLayer\<close>: the layer is no longer optimistic; the run of non-optimistic layers around it is
  merged into the first of the run.
\<close>

fun index_of :: "nat \<Rightarrow> layer list \<Rightarrow> nat option" where
  "index_of n [] = None"
| "index_of n (l # ls) = (if lid l = n then Some 0 else map_option Suc (index_of n ls))"

definition merge_run :: "layer list \<Rightarrow> nat \<Rightarrow> js_error + layer list" where
  "merge_run ls start =
     (let run = takeWhile (\<lambda>l. \<not> optimistic l) (drop start ls)
      in sbind (sfold writeLayer run (ls ! start)) (\<lambda>base.
           Inr (take start ls @ [base] @ drop (start + length run) ls)))"

definition resolveLayer :: "nat \<Rightarrow> storage \<Rightarrow> js_error + storage" where
  "resolveLayer n st =
     (case index_of n (sdata st) of
        None \<Rightarrow> Inl (Thrown (''could not find layer with id: '' @ js_of_nat n))
      | Some idx \<Rightarrow>
          (let ls = (sdata st)[idx := (sdata st ! idx)\<lparr>optimistic := False\<rparr>];
               start0 = idx - 1;
               start = (if optimistic (ls ! start0) then Suc start0 else start0)
           in sbind (merge_run ls start) (\<lambda>ls'.
                Inr (st\<lparr>sdata := ls', idMaps := (if length ls' = 1 then [] else idMaps st)\<rparr>))))"

subsection \<open>Snapshots\<close>

text \<open>
  \<open>serialize\<close> is the JSON text of a record of \<open>rank\<close>, \<open>fields\<close> and \<open>links\<close> of the top layer, without the
  functions; \<open>hydrate\<close> takes such a record, parsed. \<open>json_value\<close> is what a value becomes on the way
  through JSON: undefined, symbols and functions are dropped from objects and turn into null in arrays.
\<close>

record snapshot =
  sn_rank :: nat
  sn_fields :: "(string, string, gval) emap"
  sn_links :: "(string, string, gval) emap"

fun is_function :: "gval \<Rightarrow> bool" where
  "is_function (GComp k p f a r) = True"
| "is_function _ = False"

fun json_value :: "gval \<Rightarrow> gval" where
  "json_value (GArr xs) = GArr (map (\<lambda>x. if json_value x = GUndef then GNull else json_value x) xs)"
| "json_value (GObj ps) = GObj (filter (\<lambda>(k, v). v \<noteq> GUndef) (map (\<lambda>(k, v). (k, json_value v)) ps))"
| "json_value GSym = GUndef"
| "json_value (GComp k p f a r) = GUndef"
| "json_value v = v"

definition json_record :: "(string, gval) omap \<Rightarrow> (string, gval) omap" where
  "json_record r = filter (\<lambda>(f, v). v \<noteq> GUndef) (map (\<lambda>(f, v). (f, json_value v)) r)"

definition serialize :: "storage \<Rightarrow> snapshot \<times> storage" where
  "serialize st =
     (let st1 = ensure_top st; top = last (sdata st1)
      in (\<lparr>sn_rank = rank st1,
           sn_fields = map (\<lambda>(i, r). (i, json_record (filter (\<lambda>(f, v). \<not> is_function v) r))) (lfields top),
           sn_links = map (\<lambda>(i, r). (i, json_record r)) (llinks top)\<rparr>, st1))"

text \<open>The result is the id of the layer that was written to.\<close>

definition hydrate :: "snapshot option \<Rightarrow> nat option \<Rightarrow> storage \<Rightarrow> nat option \<times> storage" where
  "hydrate args layer st =
     (case args of
        None \<Rightarrow> (None, st)
      | Some a \<Rightarrow>
          (let st1 = st\<lparr>rank := sn_rank a\<rparr>;
               (n, st2) = (case layer of Some n \<Rightarrow> (n, st1) | None \<Rightarrow> (let (l, s) = createLayer True st1 in (lid l, s)))
           in (Some n, on_layer n (\<lambda>l. l\<lparr>lfields := sn_fields a, llinks := sn_links a\<rparr>) st2)))"

definition storage_reset :: "storage \<Rightarrow> storage" where
  "storage_reset st = st\<lparr>sdata := [], typenames := []\<rparr>"

end
