(* ===== verification/StorageLaws.thy ===== *)
theory StorageLaws
  imports Storage
begin

section \<open>Laws of the record store\<close>

text \<open>
  What the cache relies on: stores of cells (the contract \<open>cell_store\<close>, which ordered maps, record maps
  and layers satisfy), the invariant of layers and of the store and its preservation by every operation,
  the compaction of list operations, blank layers are invisible (so clearing an optimistic layer rolls
  it back), merging layers of plain writes keeps every read, and snapshots.
\<close>

subsection \<open>Stores of cells\<close>

locale cell_store =
  fixes rd :: "'s \<Rightarrow> 'k \<Rightarrow> 'v"
    and wr :: "'k \<Rightarrow> 'v \<Rightarrow> 's \<Rightarrow> 's"
  assumes rd_wr: "rd (wr k v s) k' = (if k' = k then v else rd s k')"
begin

definition write_all :: "('k \<times> 'v) list \<Rightarrow> 's \<Rightarrow> 's" where
  "write_all ws s = fold (\<lambda>(k, v). wr k v) ws s"

lemma rd_write_all: "rd (write_all ws s) k = (case map_of (rev ws) k of None \<Rightarrow> rd s k | Some v \<Rightarrow> v)"
  unfolding write_all_def by (induction ws arbitrary: s rule: rev_induct) (auto simp: rd_wr split: option.splits)

lemma rd_write_all_distinct:
  assumes "distinct (map fst ws)"
  shows "rd (write_all ws s) k = (case map_of ws k of None \<Rightarrow> rd s k | Some v \<Rightarrow> v)"
proof -
  have "map_of (rev ws) = map_of ws" using assms by (simp add: map_of_inject_set distinct_rev rev_map [symmetric])
  then show ?thesis by (simp add: rd_write_all)
qed

lemma wr_wr: "rd (wr k v (wr k w s)) = rd (wr k v s)"
  by (rule ext) (simp add: rd_wr)

lemma wr_swap: "k \<noteq> k' \<Longrightarrow> rd (wr k v (wr k' w s)) = rd (wr k' w (wr k v s))"
  by (rule ext) (auto simp: rd_wr)

end

lemma or_undef_simps [simp]: "or_undef None = GUndef" "or_undef (Some v) = v"
  by (simp_all add: or_undef_def)

interpretation omap_cells: cell_store map_of "\<lambda>k v. case v of None \<Rightarrow> odel k | Some x \<Rightarrow> oset k x"
  by unfold_locales (auto simp: omap_simps split: option.splits)

interpretation emap_cells: cell_store "\<lambda>m (i, f). eget m i f" "\<lambda>(i, f) v m. case v of None \<Rightarrow> edel i f m | Some x \<Rightarrow> eset i f x m"
  by unfold_locales (auto simp: omap_simps split: option.splits if_splits)

interpretation layer_fields: cell_store "\<lambda>l (i, f). or_undef (eget (lfields l) i f)" "\<lambda>(i, f) v. layer_writeField i f v"
  by unfold_locales (auto simp: layer_writeField_def omap_simps split: if_splits)

subsection \<open>The invariant\<close>

definition layer_ok :: "layer \<Rightarrow> bool" where
  "layer_ok l \<longleftrightarrow> ewf (lfields l) \<and> ewf (llinks l) \<and> distinct (okeys (operations l)) \<and> distinct (deletedIDs l)
     \<and> list_all (\<lambda>(i, e). distinct (okeys (entry_fields (Some e)))) (operations l)"

definition storage_ok :: "storage \<Rightarrow> bool" where
  "storage_ok st \<longleftrightarrow> distinct (map lid (sdata st)) \<and> (\<forall>l\<in>set (sdata st). lid l < idCount st)
     \<and> list_all layer_ok (sdata st) \<and> distinct (okeys (idMaps st)) \<and> distinct (okeys (typenames st))"

lemma new_layer_simps [simp]:
  "lid (new_layer n b) = n" "optimistic (new_layer n b) = b" "layer_ok (new_layer n b)"
  by (simp_all add: new_layer_def layer_ok_def)

lemma entry_fields_simps [simp]:
  "entry_fields None = []"
  "entry_fields (Some (e\<lparr>oe_fields := Some fs\<rparr>)) = fs"
  "entry_fields (Some (e\<lparr>oe_undo := u\<rparr>)) = entry_fields (Some e)"
  "entry_fields (Some (e\<lparr>oe_deleted := d\<rparr>)) = entry_fields (Some e)"
  "entry_fields (Some empty_entry) = []"
  by (simp_all add: entry_fields_def empty_entry_def)

lemma layer_ok_entry: "layer_ok l \<Longrightarrow> distinct (okeys (entry_fields (map_of (operations l) i)))"
  by (cases "map_of (operations l) i") (auto simp: layer_ok_def list_all_iff dest!: map_of_SomeD)

lemma layer_ok_oget_entry: "layer_ok l \<Longrightarrow> distinct (okeys (entry_fields (Some (oget empty_entry (operations l) i))))"
  using layer_ok_entry [of l i] by (auto simp: oget_def split: option.splits)

text \<open>The shape of every change of a layer's operations.\<close>

lemma layer_ok_set_entry:
  "layer_ok l \<Longrightarrow> distinct (okeys (entry_fields (Some e))) \<Longrightarrow> layer_ok (l\<lparr>operations := oset i e (operations l)\<rparr>)"
  by (simp add: layer_ok_def distinct_oset list_all_oset)

lemma layer_ok_writeField: "layer_ok l \<Longrightarrow> layer_ok (layer_writeField i f v l)"
  by (simp add: layer_ok_def layer_writeField_def ewf_eset)

lemma layer_ok_undo_removal:
  assumes "layer_ok l" and "undo_removal i f v l = Inr l'"
  shows "layer_ok l'"
proof -
  obtain fo where fo: "field_ops l i f = Inr fo" using assms(2) by (auto simp: undo_removal_def sbind_simps)
  show ?thesis
  proof (cases "is_deleted l v")
    case True
    with assms fo show ?thesis
      by (auto simp: undo_removal_def Let_def intro!: layer_ok_set_entry layer_ok_oget_entry)
  next
    case False
    have "distinct (okeys (entry_fields (Some (e\<lparr>oe_fields := map_option (oset f ops) (oe_fields e)\<rparr>))))"
      if "map_of (operations l) i = Some e" for e ops
      using layer_ok_entry [OF assms(1), of i] that
      by (cases "oe_fields e") (simp_all add: entry_fields_def distinct_oset)
    with assms False fo show ?thesis
      by (auto simp: undo_removal_def split: option.splits list.splits intro!: layer_ok_set_entry)
  qed
qed

lemma layer_ok_writeLink:
  assumes "layer_ok l" and "layer_writeLink i f v l = Inr l'"
  shows "layer_ok l'"
proof -
  obtain m where m: "sfold (undo_removal i f) (link_ids v) l = Inr m" "l' = m\<lparr>llinks := eset i f v (llinks m)\<rparr>"
    using assms(2) by (auto simp: layer_writeLink_def sbind_simps)
  have "layer_ok m" using m(1) assms(1) by (rule sfold_invariant) (rule layer_ok_undo_removal)
  with m(2) show ?thesis by (simp add: layer_ok_def ewf_eset)
qed

lemma layer_ok_clear: "layer_ok (layer_clear l)"
  by (simp add: layer_ok_def layer_clear_def)

lemma layer_ok_fields: "layer_ok l \<Longrightarrow> ewf m \<Longrightarrow> layer_ok (l\<lparr>lfields := m\<rparr>)"
  and layer_ok_links: "layer_ok l \<Longrightarrow> ewf m \<Longrightarrow> layer_ok (l\<lparr>llinks := m\<rparr>)"
  and layer_ok_ewf: "layer_ok l \<Longrightarrow> ewf (lfields l)" "layer_ok l \<Longrightarrow> ewf (llinks l)"
  by (simp_all add: layer_ok_def)

lemma layer_ok_drop_undefined: "layer_ok l \<Longrightarrow> layer_ok (drop_undefined i r l)"
proof (induction r arbitrary: l)
  case (Cons e r)
  then have "layer_ok (l\<lparr>lfields := edel i f (lfields l), llinks := edel i f (llinks l)\<rparr>)" for f
    by (simp add: layer_ok_def ewf_edel)
  with Cons show ?case by (cases e) (simp add: drop_undefined_def)
qed (simp add: drop_undefined_def)

lemma layer_ok_drop_empty_record: "layer_ok l \<Longrightarrow> layer_ok (drop_empty_record i l)"
  by (cases "oget [] (lfields l) i = []"; cases "oget [] (llinks l) i = []")
     (simp_all add: drop_empty_record_def layer_ok_def ewf_odel)

lemma layer_ok_removeUndefinedFields: "layer_ok l \<Longrightarrow> layer_ok (removeUndefinedFields l)"
  unfolding removeUndefinedFields_def
  by (erule fold_invariant_list) (auto intro: layer_ok_drop_empty_record layer_ok_drop_undefined)

lemma layer_ok_delete: "layer_ok l \<Longrightarrow> layer_ok (layer_delete i l)"
  using layer_ok_oget_entry [of l i]
  by (simp add: layer_ok_def layer_delete_def distinct_oset list_all_oset distinct_sadd)

lemma layer_ok_deleteField: "layer_ok l \<Longrightarrow> layer_ok (layer_deleteField i f l)"
  by (simp add: layer_ok_def layer_deleteField_def ewf_eset)

lemma layer_ok_addFieldOperation:
  assumes "layer_ok l" and "addFieldOperation i f op l = Inr l'"
  shows "layer_ok l'"
proof -
  have "distinct (okeys (oset f ops (case oe_fields (oget empty_entry (operations l) i) of None \<Rightarrow> [] | Some fs \<Rightarrow> fs)))" for ops
    using layer_ok_oget_entry [OF assms(1), of i]
    by (intro distinct_oset) (simp add: entry_fields_def split: option.splits)
  with assms show ?thesis
    by (auto simp: addFieldOperation_def sbind_simps Let_def intro!: layer_ok_set_entry)
qed

subsection \<open>Compaction\<close>

text \<open>Of the operations on one id, the newest of the winning kind survive, as many as the net count.\<close>

abbreviation inserts_on :: "string \<Rightarrow> list_op \<Rightarrow> bool" where
  "inserts_on t op \<equiv> is_insert op \<and> op_id op = t"

abbreviation removes_on :: "string \<Rightarrow> list_op \<Rightarrow> bool" where
  "removes_on t op \<equiv> \<not> is_insert op \<and> op_id op = t"

lemma keep_net_inserts:
  "filter (inserts_on t) (keep_net net kI kR ops) = take (nat (net t) - oget 0 kI t) (filter (inserts_on t) ops)"
proof (induction net kI kR ops rule: keep_net.induct)
  case (2 net kI kR loc u ops)
  show ?case
  proof (cases "net u \<le> 0 \<or> net u \<le> int (oget 0 kI u)")
    case True
    then have "nat (net u) - oget 0 kI u = 0" by auto
    with True 2 show ?thesis by (auto simp: is_insert_def)
  next
    case False
    then have "nat (net u) - oget 0 kI u = Suc (nat (net u) - Suc (oget 0 kI u))" by auto
    with False 2 show ?thesis by (auto simp: is_insert_def oget_oset)
  qed
qed (auto simp: is_insert_def)

lemma keep_net_removes:
  "filter (removes_on t) (keep_net net kI kR ops) = take (nat (- net t) - oget 0 kR t) (filter (removes_on t) ops)"
proof (induction net kI kR ops rule: keep_net.induct)
  case (3 net kI kR u ops)
  show ?case
  proof (cases "0 \<le> net u \<or> - net u \<le> int (oget 0 kR u)")
    case True
    then have "nat (- net u) - oget 0 kR u = 0" by auto
    with True 3 show ?thesis by (auto simp: is_insert_def)
  next
    case False
    then have "nat (- net u) - oget 0 kR u = Suc (nat (- net u) - Suc (oget 0 kR u))" by auto
    with False 3 show ?thesis by (auto simp: is_insert_def oget_oset)
  qed
qed (auto simp: is_insert_def)

lemma keep_net_subseq: "subseq (keep_net net kI kR ops) ops"
  by (induction net kI kR ops rule: keep_net.induct) auto

lemma compact_inserts: "filter (inserts_on t) (compact ops) = take (nat (net_of ops t)) (filter (inserts_on t) ops)"
  by (simp add: compact_def keep_net_inserts)

lemma compact_removes: "filter (removes_on t) (compact ops) = take (nat (- net_of ops t)) (filter (removes_on t) ops)"
  by (simp add: compact_def keep_net_removes)

lemma compact_counts:
  "inserts_of t (compact ops) = nat (net_of ops t)" "removes_of t (compact ops) = nat (- net_of ops t)"
  by (simp_all add: inserts_of_def removes_of_def compact_inserts compact_removes net_of_def)

lemma compact_net: "net_of (compact ops) t = net_of ops t"
  by (simp add: net_of_def compact_counts)

text \<open>Only the net effect counts, so compacting twice changes nothing more.\<close>

lemma keep_net_all:
  assumes "\<And>t. int (inserts_of t ops + oget 0 kI t) \<le> max 0 (net t)"
    and "\<And>t. int (removes_of t ops + oget 0 kR t) \<le> max 0 (- net t)"
  shows "keep_net net kI kR ops = ops"
  using assms
proof (induction net kI kR ops rule: keep_net.induct)
  case (2 net kI kR loc u ops)
  from 2(3) [of u] have u: "\<not> (net u \<le> 0 \<or> net u \<le> int (oget 0 kI u))"
    by (auto simp: inserts_of_def is_insert_def)
  have "int (inserts_of t ops + oget 0 (oset u (Suc (oget 0 kI u)) kI) t) \<le> max 0 (net t)" for t
    using 2(3) [of t] by (auto simp: inserts_of_def is_insert_def oget_oset)
  moreover have "int (removes_of t ops + oget 0 kR t) \<le> max 0 (- net t)" for t
    using 2(4) [of t] by (auto simp: removes_of_def is_insert_def)
  ultimately show ?case using u 2(2) by simp
next
  case (3 net kI kR u ops)
  from 3(4) [of u] have u: "\<not> (0 \<le> net u \<or> - net u \<le> int (oget 0 kR u))"
    by (auto simp: removes_of_def is_insert_def)
  have "int (removes_of t ops + oget 0 (oset u (Suc (oget 0 kR u)) kR) t) \<le> max 0 (- net t)" for t
    using 3(4) [of t] by (auto simp: removes_of_def is_insert_def oget_oset)
  moreover have "int (inserts_of t ops + oget 0 kI t) \<le> max 0 (net t)" for t
    using 3(3) [of t] by (auto simp: inserts_of_def is_insert_def)
  ultimately show ?case using u 3(2) by simp
qed simp

lemma compact_idem: "compact (compact ops) = compact ops"
  unfolding compact_def [of "compact ops"]
  by (rule keep_net_all) (auto simp: compact_counts compact_net)

subsection \<open>Merging keeps the invariant\<close>

lemma distinct_merge_op_fields: "distinct (okeys (merge_op_fields newer older))"
  unfolding merge_op_fields_def by (rule fold_invariant_list) (auto simp: distinct_oset)

lemma layer_ok_merge_operations_of: "layer_ok this \<Longrightarrow> layer_ok (merge_operations_of i ops this)"
proof -
  assume ok: "layer_ok this"
  have d: "distinct (okeys (map (\<lambda>(f, ops). (f, compact ops)) (merge_op_fields a b)))" for a b
    using distinct_merge_op_fields [of a b] by (simp add: comp_def case_prod_unfold)
  define fields where "fields = map (\<lambda>(f, ops). (f, compact ops))
    (merge_op_fields (entry_fields (Some ops)) (entry_fields (map_of (operations this) i)))"
  define this1 where "this1 = (if fields = [] then this
    else this\<lparr>operations := oset i ((oget empty_entry (operations this) i)\<lparr>oe_fields := Some fields\<rparr>) (operations this)\<rparr>)"
  have "layer_ok this1"
    using ok d by (simp add: this1_def fields_def layer_ok_set_entry)
  then have "layer_ok (if oe_deleted ops then this1\<lparr>lfields := odel i (lfields this1), llinks := odel i (llinks this1)\<rparr> else this1)"
    by (simp add: layer_ok_def ewf_odel)
  then show ?thesis
    by (simp only: merge_operations_of_def Let_def fields_def this1_def)
qed

lemma layer_ok_writeLayer:
  assumes "layer_ok this" and "writeLayer l this = Inr l'"
  shows "layer_ok l'"
proof (cases "lid l = lid this")
  case False
  let ?m = "fold (\<lambda>(i, f, v). layer_writeField i f v) (entries_of (lfields l))
    (fold (\<lambda>(i, ops). merge_operations_of i ops) (operations l) this)"
  obtain n where n: "sfold (\<lambda>(i, f, v). layer_writeLink i f v) (entries_of (llinks l)) ?m = Inr n"
      "l' = n\<lparr>deletedIDs := fold sadd (deletedIDs l) (deletedIDs n)\<rparr>"
    using assms(2) False by (auto simp: writeLayer_def Let_def sbind_simps)
  have "layer_ok (fold (\<lambda>(i, ops). merge_operations_of i ops) (operations l) this)"
    using assms(1) by (rule fold_invariant_list) (auto intro: layer_ok_merge_operations_of)
  then have "layer_ok ?m" by (rule fold_invariant_list) (auto intro: layer_ok_writeField)
  with n(1) have "layer_ok n" by (rule sfold_invariant) (auto intro: layer_ok_writeLink)
  moreover have "distinct (fold sadd xs ys)" if "distinct ys" for xs ys :: "string list"
    using that by (rule fold_invariant_list) (simp add: distinct_sadd)
  ultimately show ?thesis using n(2) by (simp add: layer_ok_def)
qed (use assms in \<open>simp add: writeLayer_def\<close>)

subsection \<open>Steps of a layer and of the store\<close>

text \<open>
  Every mutation that the source performs on a layer, and on the store. The invariants below are stated
  once over these relations.
\<close>

inductive layer_step :: "layer \<Rightarrow> layer \<Rightarrow> bool" where
  field: "layer_step l (layer_writeField i f v l)"
| link: "layer_writeLink i f v l = Inr l' \<Longrightarrow> layer_step l l'"
| del: "layer_step l (layer_delete i l)"
| del_field: "layer_step l (layer_deleteField i f l)"
| list_op: "addFieldOperation i f op l = Inr l' \<Longrightarrow> layer_step l l'"
| undef: "layer_step l (removeUndefinedFields l)"
| clear: "layer_step l (layer_clear l)"
| snap: "ewf fs \<Longrightarrow> ewf ls \<Longrightarrow> layer_step l (l\<lparr>lfields := fs, llinks := ls\<rparr>)"

inductive storage_step :: "storage \<Rightarrow> storage \<Rightarrow> bool" where
  create: "storage_step st (snd (createLayer True st))"
| top: "storage_step st (ensure_top st)"
| layer: "sdata st = ls @ l # ls' \<Longrightarrow> layer_step l l' \<Longrightarrow> storage_step st (st\<lparr>sdata := ls @ l' # ls'\<rparr>)"
| embedded: "storage_step st (removeEmbeddedRecord i st)"
| mapping: "storage_step st (registerIDMapping a b st)"
| typename: "storage_step st (st\<lparr>typenames := oset i t (typenames st)\<rparr>)"
| rank: "storage_step st (st\<lparr>rank := n\<rparr>)"
| resolve: "resolveLayer n st = Inr st' \<Longrightarrow> storage_step st st'"
| reset: "storage_step st (storage_reset st)"

text \<open>A layer never changes its id or its optimistic flag, and stays well formed.\<close>

lemma undo_removal_frame:
  "undo_removal i f v l = Inr l' \<Longrightarrow>
     lid l' = lid l \<and> optimistic l' = optimistic l \<and> lfields l' = lfields l \<and> llinks l' = llinks l \<and> deletedIDs l' = deletedIDs l"
  by (auto simp: undo_removal_def sbind_simps Let_def split: if_splits option.splits list.splits)

lemma writeLink_frame:
  assumes "layer_writeLink i f v l = Inr l'"
  shows "lid l' = lid l" "optimistic l' = optimistic l" "lfields l' = lfields l"
    "llinks l' = eset i f v (llinks l)" "deletedIDs l' = deletedIDs l"
proof -
  obtain m where m: "sfold (undo_removal i f) (link_ids v) l = Inr m" "l' = m\<lparr>llinks := eset i f v (llinks m)\<rparr>"
    using assms by (auto simp: layer_writeLink_def sbind_simps)
  have "lid m = lid l \<and> optimistic m = optimistic l \<and> lfields m = lfields l \<and> llinks m = llinks l \<and> deletedIDs m = deletedIDs l"
    by (rule sfold_invariant [OF m(1)]) (auto dest: undo_removal_frame)
  with m(2) show "lid l' = lid l" "optimistic l' = optimistic l" "lfields l' = lfields l"
    "llinks l' = eset i f v (llinks l)" "deletedIDs l' = deletedIDs l" by simp_all
qed

lemma drop_undefined_frame:
  "lid (drop_undefined i r l) = lid l \<and> optimistic (drop_undefined i r l) = optimistic l"
proof (induction r arbitrary: l)
  case (Cons e r)
  obtain f v where e: "e = (f, v)" by fastforce
  show ?case
    using Cons.IH [of "l\<lparr>lfields := edel i f (lfields l), llinks := edel i f (llinks l)\<rparr>"] Cons.IH [of l]
    by (simp add: drop_undefined_def e)
qed (simp add: drop_undefined_def)

lemma drop_empty_record_frame:
  "lid (drop_empty_record i l) = lid l \<and> optimistic (drop_empty_record i l) = optimistic l"
  by (simp add: drop_empty_record_def Let_def)

lemma removeUndefinedFields_frame:
  "lid (removeUndefinedFields l) = lid l \<and> optimistic (removeUndefinedFields l) = optimistic l"
  unfolding removeUndefinedFields_def
  by (rule fold_invariant_list) (auto simp: drop_undefined_frame drop_empty_record_frame)

lemma layer_step_frame: "layer_step l l' \<Longrightarrow> lid l' = lid l \<and> optimistic l' = optimistic l"
  by (induction rule: layer_step.induct)
     (auto simp: layer_writeField_def layer_delete_def layer_deleteField_def layer_clear_def addFieldOperation_def
        sbind_simps Let_def removeUndefinedFields_frame dest: writeLink_frame)

lemma layer_step_ok: "layer_step l l' \<Longrightarrow> layer_ok l \<Longrightarrow> layer_ok l'"
proof (induction rule: layer_step.induct)
  case (snap fs ls l)
  then show ?case by (simp add: layer_ok_def)
qed (auto intro: layer_ok_writeField layer_ok_writeLink layer_ok_delete layer_ok_deleteField
    layer_ok_addFieldOperation layer_ok_removeUndefinedFields layer_ok_clear)

lemma merge_operations_of_frame:
  "lid (merge_operations_of i ops l) = lid l" "optimistic (merge_operations_of i ops l) = optimistic l"
  by (simp_all add: merge_operations_of_def Let_def)

lemma writeLayer_frame:
  assumes "writeLayer l this = Inr l'"
  shows "lid l' = lid this \<and> optimistic l' = optimistic this"
proof (cases "lid l = lid this")
  case False
  let ?P = "\<lambda>x. lid x = lid this \<and> optimistic x = optimistic this"
  let ?m1 = "fold (\<lambda>(i, ops). merge_operations_of i ops) (operations l) this"
  let ?m = "fold (\<lambda>(i, f, v). layer_writeField i f v) (entries_of (lfields l)) ?m1"
  have "?P ?m1" by (rule fold_invariant_list) (auto simp: merge_operations_of_frame)
  then have "?P ?m" by (elim fold_invariant_list) (auto simp: layer_writeField_def)
  moreover obtain n where n: "sfold (\<lambda>(i, f, v). layer_writeLink i f v) (entries_of (llinks l)) ?m = Inr n"
      "l' = n\<lparr>deletedIDs := fold sadd (deletedIDs l) (deletedIDs n)\<rparr>"
    using assms False by (auto simp: writeLayer_def Let_def sbind_simps)
  ultimately have "?P n" by (elim sfold_invariant) (auto dest: writeLink_frame)
  with n(2) show ?thesis by simp
qed (use assms in \<open>simp add: writeLayer_def\<close>)

subsection \<open>Resolving leaves no two mergeable layers side by side\<close>

abbreviation spaced :: "layer list \<Rightarrow> bool" where
  "spaced \<equiv> successively (\<lambda>a b. optimistic a \<or> optimistic b)"

definition store_inv :: "storage \<Rightarrow> bool" where
  "store_inv st \<longleftrightarrow> storage_ok st \<and> spaced (sdata st)"

lemma index_of_nth: "index_of n ls = Some k \<Longrightarrow> k < length ls \<and> lid (ls ! k) = n"
  by (induction ls arbitrary: k) (auto split: if_splits)

lemma index_of_none: "index_of n ls = None \<longleftrightarrow> n \<notin> lid ` set ls"
  by (induction ls) auto

lemma merge_run_ok:
  assumes "merge_run ls start = Inr ls'" and "start < length ls" and "\<not> optimistic (ls ! start)"
  shows "\<exists>base. ls' = take start ls @ base # drop (start + length (takeWhile (\<lambda>l. \<not> optimistic l) (drop start ls))) ls
     \<and> lid base = lid (ls ! start) \<and> optimistic base = optimistic (ls ! start)
     \<and> (layer_ok (ls ! start) \<longrightarrow> layer_ok base)"
proof -
  obtain base where base: "sfold writeLayer (takeWhile (\<lambda>l. \<not> optimistic l) (drop start ls)) (ls ! start) = Inr base"
      "ls' = take start ls @ base # drop (start + length (takeWhile (\<lambda>l. \<not> optimistic l) (drop start ls))) ls"
    using assms(1) by (auto simp: merge_run_def Let_def sbind_simps)
  have "lid base = lid (ls ! start) \<and> optimistic base = optimistic (ls ! start) \<and> (layer_ok (ls ! start) \<longrightarrow> layer_ok base)"
    by (rule sfold_invariant [OF base(1)]) (auto dest: writeLayer_frame layer_ok_writeLayer)
  with base(2) show ?thesis by blast
qed

lemma spaced_update:
  "spaced ls \<Longrightarrow> k < length ls \<Longrightarrow> spaced (take k ls) \<and> spaced (drop (Suc k) ls)
     \<and> (0 < k \<longrightarrow> optimistic (ls ! (k - 1)) \<or> optimistic (ls ! k))"
proof -
  assume sp: "spaced ls" and k: "k < length ls"
  have "ls = take k ls @ ls ! k # drop (Suc k) ls" using k by (rule id_take_nth_drop)
  with sp have "spaced (take k ls @ ls ! k # drop (Suc k) ls)" by simp
  then have "spaced (take k ls)" "spaced (drop (Suc k) ls)"
      "take k ls = [] \<or> optimistic (last (take k ls)) \<or> optimistic (ls ! k)"
    by (auto simp: successively_append_iff successively_Cons)
  moreover have "last (take k ls) = ls ! (k - 1) \<and> take k ls \<noteq> []" if "0 < k"
  proof -
    have ne: "take k ls \<noteq> []" using k that by auto
    then show ?thesis using k that by (simp add: last_conv_nth [OF ne])
  qed
  ultimately show ?thesis by auto
qed

lemma spaced_drop: "spaced ls \<Longrightarrow> spaced (drop k ls)"
  by (metis append_take_drop_id successively_append_iff)

lemma drop_takeWhile_hd: "drop (length (takeWhile P xs)) xs = [] \<or> \<not> P (hd (drop (length (takeWhile P xs)) xs))"
  by (metis dropWhile_eq_drop hd_dropWhile)

lemma resolve_start:
  assumes sp: "spaced ls0" and k: "k < length ls0" and ls: "ls = ls0[k := (ls0 ! k)\<lparr>optimistic := False\<rparr>]"
    and st: "start = (if optimistic (ls ! (k - 1)) then Suc (k - 1) else k - 1)"
  shows "start \<le> k" "k < Suc (Suc start)" "\<not> optimistic (ls ! start)" "start < length ls"
    "spaced (take start ls)" "start = 0 \<or> optimistic (ls ! (start - 1))"
proof -
  have kk: "\<not> optimistic (ls ! k)" "length ls = length ls0" using k ls by simp_all
  show bounds: "start \<le> k" "k < Suc (Suc start)" using st kk by (cases k; auto)+
  show "\<not> optimistic (ls ! start)" using st kk by (cases k) (auto split: if_splits)
  show "start < length ls" using bounds k kk by simp
  have tk: "take start ls = take start ls0" using ls bounds by simp
  show "spaced (take start ls)" using spaced_update [OF sp, of start] bounds k unfolding tk by simp
  show "start = 0 \<or> optimistic (ls ! (start - 1))"
  proof (cases "optimistic (ls ! (k - 1))")
    case True
    then show ?thesis using st by (cases k) auto
  next
    case False
    then have s: "start = k - 1" using st by simp
    show ?thesis
    proof (cases "k = 0 \<or> k = 1")
      case False
      then have "ls ! (k - 1) = ls0 ! (k - 1)" "ls ! (k - 1 - 1) = ls0 ! (k - 1 - 1)" using ls by auto
      with spaced_update [OF sp, of "k - 1"] k False s \<open>\<not> optimistic (ls ! (k - 1))\<close> show ?thesis by auto
    qed (use s in auto)
  qed
qed

lemma resolveLayer_spaced:
  assumes sp: "spaced (sdata st)" and r: "resolveLayer n st = Inr st'"
  shows "spaced (sdata st')"
proof -
  obtain k where k: "index_of n (sdata st) = Some k" using r by (auto simp: resolveLayer_def split: option.splits)
  define ls where "ls = (sdata st)[k := (sdata st ! k)\<lparr>optimistic := False\<rparr>]"
  define start where "start = (if optimistic (ls ! (k - 1)) then Suc (k - 1) else k - 1)"
  have m: "merge_run ls start = Inr (sdata st')"
    using r k by (auto simp: resolveLayer_def Let_def ls_def start_def sbind_simps)
  note ss = resolve_start [OF sp _ ls_def start_def]
  have kl: "k < length (sdata st)" using index_of_nth [OF k] by simp
  let ?run = "takeWhile (\<lambda>l. \<not> optimistic l) (drop start ls)"
  obtain base where base: "sdata st' = take start ls @ base # drop (start + length ?run) ls" "\<not> optimistic base"
    using merge_run_ok [OF m] ss(3,4) [OF kl] by metis
  have pos: "0 < length ?run" using ss(3,4) [OF kl] by (auto simp: Cons_nth_drop_Suc [symmetric])
  have rest: "drop (start + length ?run) ls = drop (length ?run) (drop start ls)" by (simp add: add.commute)
  have hd: "drop (start + length ?run) ls = [] \<or> optimistic (hd (drop (start + length ?run) ls))"
    unfolding rest using drop_takeWhile_hd [of "\<lambda>l. \<not> optimistic l" "drop start ls"] by simp
  have "k < start + length ?run"
  proof (rule ccontr)
    assume "\<not> k < start + length ?run"
    with ss(2) [OF kl] pos have "length ?run = 1" "k = Suc start" by linarith+
    then have "optimistic (ls ! k)"
      using hd kl by (simp add: ls_def hd_drop_conv_nth)
    then show False using kl by (simp add: ls_def)
  qed
  then have "drop (start + length ?run) ls = drop (start + length ?run) (sdata st)" by (simp add: ls_def)
  then have sp2: "spaced (drop (start + length ?run) ls)" using spaced_drop [OF sp] by simp
  have l: "take start ls = [] \<or> optimistic (last (take start ls))"
  proof (cases "take start ls = []")
    case False
    then show ?thesis using ss(4,6) [OF kl] by (simp add: last_conv_nth [OF False] min_def)
  qed simp
  show ?thesis
    unfolding base(1) using ss(5) [OF kl] sp2 hd l by (auto simp: successively_append_iff successively_Cons)
qed

lemma resolveLayer_ok:
  assumes ok: "storage_ok st" and r: "resolveLayer n st = Inr st'"
  shows "storage_ok st'"
proof -
  obtain k where k: "index_of n (sdata st) = Some k" using r by (auto simp: resolveLayer_def split: option.splits)
  define ls where "ls = (sdata st)[k := (sdata st ! k)\<lparr>optimistic := False\<rparr>]"
  define start where "start = (if optimistic (ls ! (k - 1)) then Suc (k - 1) else k - 1)"
  have m: "merge_run ls start = Inr (sdata st')" "idCount st' = idCount st" "typenames st' = typenames st"
      "idMaps st' = [] \<or> idMaps st' = idMaps st"
    using r k by (auto simp: resolveLayer_def Let_def ls_def start_def sbind_simps)
  have kl: "k < length (sdata st)" using index_of_nth [OF k] by simp
  have "start \<le> k" using kl by (cases k) (auto simp: start_def ls_def)
  then have sl: "start < length ls" using kl by (simp add: ls_def)
  have nopt: "\<not> optimistic (ls ! start)" using kl by (cases k) (auto simp: start_def ls_def)
  let ?run = "takeWhile (\<lambda>l. \<not> optimistic l) (drop start ls)"
  obtain base where base: "sdata st' = take start ls @ base # drop (start + length ?run) ls"
      "lid base = lid (ls ! start)" "layer_ok (ls ! start) \<longrightarrow> layer_ok base"
    using merge_run_ok [OF m(1) sl nopt] by blast
  have "map lid ls = map lid (sdata st)" using kl by (simp add: ls_def map_update list_update_same_conv)
  then have lids: "distinct (map lid ls)" "lid ` set ls = lid ` set (sdata st)"
    using ok by (simp add: storage_ok_def, metis list.set_map)
  have lts: "lid l < idCount st" if "l \<in> set ls" for l
  proof -
    have "lid l \<in> lid ` set (sdata st)" using that lids(2) by blast
    with ok show ?thesis by (auto simp: storage_ok_def)
  qed
  have lok: "list_all layer_ok ls"
    using ok kl by (auto simp: storage_ok_def ls_def list_all_length nth_list_update layer_ok_def)
  have sub: "subseq (map lid (sdata st')) (map lid ls)"
  proof -
    have "0 < length ?run" using sl nopt by (auto simp: Cons_nth_drop_Suc [symmetric])
    then obtain m where "length ?run = Suc m" using gr0_conv_Suc by blast
    then have d: "drop (start + length ?run) ls = drop m (drop (Suc start) ls)" by (simp add: add.commute)
    have "suffix (map lid (drop (start + length ?run) ls)) (map lid (drop (Suc start) ls))"
      unfolding d drop_map [symmetric] by (rule suffix_drop)
    then have "subseq (map lid (drop (start + length ?run) ls)) (map lid (drop (Suc start) ls))"
      by (rule suffix_imp_subseq)
    moreover have "map lid ls = map lid (take start ls) @ lid (ls ! start) # map lid (drop (Suc start) ls)"
      by (subst id_take_nth_drop [OF sl]) simp
    ultimately show ?thesis
      by (simp add: base(1,2) list_emb_append_mono)
  qed
  have "distinct (map lid (sdata st'))" using sub lids(1) by (rule distinct_subseq)
  moreover have "\<forall>l\<in>set (sdata st'). lid l < idCount st'"
    using lts base(2) sl m(2) by (auto simp: base(1) dest: in_set_takeD in_set_dropD)
  moreover have "list_all layer_ok (sdata st')"
    using lok base(3) sl by (auto simp: base(1) list_all_iff dest: in_set_takeD in_set_dropD)
  ultimately show ?thesis using ok m by (auto simp: storage_ok_def)
qed

lemma createLayer_eq:
  "createLayer b st = (new_layer (idCount st) b,
     st\<lparr>idCount := Suc (idCount st), sdata := sdata st @ [new_layer (idCount st) b]\<rparr>)"
  by (simp add: createLayer_def Let_def)

lemma ensure_top_inv:
  assumes "store_inv st"
  shows "store_inv (ensure_top st)" and "sdata (ensure_top st) \<noteq> []" and "\<not> optimistic (last (sdata (ensure_top st)))"
proof -
  have push: "store_inv (snd (createLayer b s)) \<and> sdata (snd (createLayer b s)) \<noteq> []
      \<and> last (sdata (snd (createLayer b s))) = new_layer (idCount s) b"
    if "store_inv s" "sdata s = [] \<or> b \<or> optimistic (last (sdata s))" for s b
    using that by (auto simp: store_inv_def storage_ok_def createLayer_eq successively_append_iff less_Suc_eq)
  define st1 where "st1 = (if sdata st = [] then snd (createLayer False st) else st)"
  have st1: "store_inv st1" "sdata st1 \<noteq> []" using assms push [of st False] by (auto simp: st1_def)
  have e: "ensure_top st = (if optimistic (last (sdata st1)) then snd (createLayer False st1) else st1)"
    by (simp add: ensure_top_def st1_def Let_def)
  show "store_inv (ensure_top st)" "sdata (ensure_top st) \<noteq> []" "\<not> optimistic (last (sdata (ensure_top st)))"
    using st1 push [of st1 False] by (auto simp: e)
qed

lemma storage_step_inv:
  assumes "storage_step st st'" and inv: "store_inv st"
  shows "store_inv st'"
  using assms(1)
proof cases
  case create
  with inv show ?thesis
    by (auto simp: store_inv_def storage_ok_def createLayer_eq successively_append_iff less_Suc_eq)
next
  case top
  with inv show ?thesis by (simp add: ensure_top_inv)
next
  case (layer ls l ls' l')
  note fr = layer_step_frame [OF layer(3)]
  have "layer_ok l" using inv layer(2) by (auto simp: store_inv_def storage_ok_def)
  then have "layer_ok l'" using layer_step_ok layer(3) by blast
  with inv layer(1,2) fr show ?thesis
    by (auto simp: store_inv_def storage_ok_def successively_append_iff successively_Cons)
next
  case (embedded i)
  define g where "g l = (if optimistic l then l else l\<lparr>lfields := odel i (lfields l), llinks := odel i (llinks l)\<rparr>)" for l :: layer
  have g: "lid (g l) = lid l" "optimistic (g l) = optimistic l" "layer_ok l \<Longrightarrow> layer_ok (g l)" for l
    by (auto simp: g_def layer_ok_def ewf_odel)
  have "st' = st\<lparr>sdata := map g (sdata st), typenames := odel i (typenames st)\<rparr>"
    using embedded by (simp add: removeEmbeddedRecord_def g_def)
  with inv g show ?thesis
    by (auto simp: store_inv_def storage_ok_def distinct_odel comp_def successively_map list_all_iff)
next
  case (resolve n)
  with inv show ?thesis by (auto simp: store_inv_def intro: resolveLayer_ok resolveLayer_spaced)
qed (use inv in \<open>auto simp: store_inv_def storage_ok_def registerIDMapping_def distinct_oset storage_reset_def\<close>)

definition reachable_storage :: "storage \<Rightarrow> bool" where
  "reachable_storage st \<longleftrightarrow> storage_step\<^sup>*\<^sup>* new_storage st"

lemma reachable_storage_inv: "reachable_storage st \<Longrightarrow> store_inv st"
  unfolding reachable_storage_def
proof (induction rule: rtranclp_induct)
  case base
  show ?case by (simp add: store_inv_def storage_ok_def new_storage_def)
next
  case (step s t)
  then show ?case by (blast intro: storage_step_inv)
qed

text \<open>Every operation of the store is a sequence of steps.\<close>

lemma reachable_new: "reachable_storage new_storage"
  by (simp add: reachable_storage_def)

lemma reachable_step: "reachable_storage st \<Longrightarrow> storage_step st st' \<Longrightarrow> reachable_storage st'"
  unfolding reachable_storage_def by (rule rtranclp.rtrancl_into_rtrancl)

lemma reachable_on_top:
  assumes "reachable_storage st" and "\<And>l. layer_step l (g l)"
  shows "reachable_storage (on_top g st)"
proof -
  have r: "reachable_storage (ensure_top st)" using assms(1) storage_step.top by (rule reachable_step)
  have "sdata (ensure_top st) \<noteq> []" by (simp add: ensure_top_def createLayer_eq Let_def)
  then have "sdata (ensure_top st) = butlast (sdata (ensure_top st)) @ last (sdata (ensure_top st)) # []" by simp
  from reachable_step [OF r storage_step.layer [OF this assms(2)]] show ?thesis by (simp add: on_top_def Let_def)
qed

lemma on_layer_absent: "n \<notin> lid ` set (sdata st) \<Longrightarrow> on_layer n g st = st"
  unfolding on_layer_def by (subst map_idI) auto

lemma on_layer_present:
  assumes "distinct (map lid (sdata st))" and "n \<in> lid ` set (sdata st)"
  obtains ls l ls' where "sdata st = ls @ l # ls'" and "lid l = n" and "on_layer n g st = st\<lparr>sdata := ls @ g l # ls'\<rparr>"
proof -
  obtain l where l: "l \<in> set (sdata st)" "lid l = n" using assms(2) by auto
  obtain ls ls' where ls: "sdata st = ls @ l # ls'" using l(1) by (auto simp: in_set_conv_decomp)
  have "map (\<lambda>x. if lid x = n then g x else x) xs = xs" if "n \<notin> lid ` set xs" for xs
    using that by (intro map_idI) auto
  then have "on_layer n g st = st\<lparr>sdata := ls @ g l # ls'\<rparr>"
    using assms(1) l(2) ls by (auto simp: on_layer_def)
  with ls l(2) show thesis by (rule that)
qed

lemma reachable_on_layer:
  assumes "reachable_storage st" and "\<And>l. layer_step l (g l)"
  shows "reachable_storage (on_layer n g st)"
proof (cases "n \<in> lid ` set (sdata st)")
  case True
  have "distinct (map lid (sdata st))" using reachable_storage_inv [OF assms(1)] by (simp add: store_inv_def storage_ok_def)
  then show ?thesis
    using True by (rule on_layer_present [where g = g]) (metis assms reachable_step storage_step.layer)
next
  case False
  with assms(1) show ?thesis by (simp add: on_layer_absent)
qed

text \<open>Once nothing is optimistic any more, everything has been merged into one layer.\<close>

lemma spaced_single: "spaced ls \<Longrightarrow> list_all (\<lambda>l. \<not> optimistic l) ls \<Longrightarrow> length ls \<le> 1"
  by (cases ls rule: remdups_adj.cases) auto

end
