(* ===== verification/StorageReads.thy ===== *)
theory StorageReads
  imports StorageLaws
begin

section \<open>What reads of the record store return\<close>

text \<open>
  Reading after writing, the frame of a write, deletion, rollback of an optimistic layer, merging of plain
  layers, snapshots; and the executions in which the layer operations throw or lose information.
\<close>

subsection \<open>One step of a read\<close>

lemma get_loop_skip:
  assumes "fst (layer_get l i f) = GUndef" and "getOperations l i f = None \<or> getOperations l i f = Some []" and "deletedIDs l = []"
  shows "get_loop ids f GUndef ((l, i) # ps) a = get_loop ids f GUndef ps a"
  using assms by (cases "layer_get l i f") (auto simp: collect_deleted_def)

lemma get_loop_scalar:
  assumes "layer_get l i f = (v, k)" and "v \<noteq> GUndef" and "\<not> is_arr v"
  shows "get_loop ids f d ((l, i) # ps) a = (\<lparr>rr_value = v, rr_kind = k, rr_layers = [lid l]\<rparr>, None)"
  using assms by (simp add: Let_def)

lemma get_loop_array:
  assumes "layer_get l i f = (GArr vs, k)" and "getOperations l i f = None \<or> getOperations l i f = Some []"
    and "deletedIDs l = []" and "ra_start a = []" and "ra_end a = []" and "ra_remove a = []"
  shows "get_loop ids f d ((l, i) # ps) a = (\<lparr>rr_value = GArr vs, rr_kind = KLink, rr_layers = ra_layers a @ [lid l]\<rparr>, None)"
  using assms by (auto simp: Let_def collect_deleted_def)

subsection \<open>Blank layers are invisible\<close>

definition blank :: "layer \<Rightarrow> bool" where
  "blank l \<longleftrightarrow> lfields l = [] \<and> llinks l = [] \<and> operations l = [] \<and> deletedIDs l = []"

lemma blank_new [simp]: "blank (new_layer n b)"
  by (simp add: blank_def new_layer_def)

lemma blank_clear [simp]: "blank (layer_clear l)"
  by (simp add: blank_def layer_clear_def)

lemma get_loop_blank:
  "get_loop ids f GUndef (filter (\<lambda>(l, i). \<not> blank l) ps) a = get_loop ids f GUndef ps a"
proof (induction ps arbitrary: a)
  case (Cons p ps)
  obtain l i where p: "p = (l, i)" by fastforce
  show ?case
  proof (cases "blank l")
    case True
    then have "fst (layer_get l i f) = GUndef" "getOperations l i f = None" "deletedIDs l = []"
      by (simp_all add: blank_def layer_get_def getOperations_def)
    then have "get_loop ids f GUndef ((l, i) # ps) a = get_loop ids f GUndef ps a"
      by (simp add: get_loop_skip del: get_loop.simps)
    with True p Cons.IH show ?thesis by (simp del: get_loop.simps)
  next
    case False
    then show ?thesis by (simp add: p Cons.IH Let_def split: prod.split option.split gval.split)
  qed
qed simp

lemma read_pairs_filter:
  "filter (\<lambda>(l, i). \<not> blank l) (read_pairs st i)
     = concat (map (\<lambda>l. map (Pair l) (recordIDs st i)) (rev (filter (\<lambda>l. \<not> blank l) (sdata st))))"
proof -
  have "filter (\<lambda>(l, i). \<not> blank l) (concat (map (\<lambda>l. map (Pair l) ids) ls))
      = concat (map (\<lambda>l. map (Pair l) ids) (filter (\<lambda>l. \<not> blank l) ls))" for ids and ls :: "layer list"
    by (induction ls) (auto simp: filter_map comp_def)
  then show ?thesis by (simp add: read_pairs_def rev_filter)
qed

lemma storage_get_blank:
  assumes "filter (\<lambda>l. \<not> blank l) (sdata st) = filter (\<lambda>l. \<not> blank l) (sdata st')" and "idMaps st = idMaps st'"
  shows "storage_get st i f = storage_get st' i f"
proof -
  have "recordIDs st i = recordIDs st' i" using assms(2) by (simp add: recordIDs_def)
  then have "filter (\<lambda>(l, i). \<not> blank l) (read_pairs st i) = filter (\<lambda>(l, i). \<not> blank l) (read_pairs st' i)"
    using assms(1) by (simp add: read_pairs_filter)
  then show ?thesis unfolding storage_get_def by (metis assms(2) get_loop_blank)
qed

lemma ensure_top_reads: "storage_get (ensure_top st) i f = storage_get st i f"
  by (rule storage_get_blank) (simp_all add: ensure_top_def createLayer_eq Let_def)

lemma on_layer_clear_reads:
  "storage_get (on_layer n layer_clear st) i f
     = storage_get (st\<lparr>sdata := filter (\<lambda>l. lid l \<noteq> n) (sdata st)\<rparr>) i f"
proof (rule storage_get_blank)
  have "filter (\<lambda>l. \<not> blank l) (map (\<lambda>l. if lid l = n then layer_clear l else l) ls)
      = filter (\<lambda>l. \<not> blank l) (filter (\<lambda>l. lid l \<noteq> n) ls)" for ls
    by (induction ls) auto
  then show "filter (\<lambda>l. \<not> blank l) (sdata (on_layer n layer_clear st))
      = filter (\<lambda>l. \<not> blank l) (sdata (st\<lparr>sdata := filter (\<lambda>l. lid l \<noteq> n) (sdata st)\<rparr>))"
    by (simp add: on_layer_def)
qed (simp add: on_layer_def)

lemma smap_other_layers:
  assumes "smap (\<lambda>l. if lid l = n then g l else Inr l) ls = Inr ls'"
    and "\<And>x y. g x = Inr y \<Longrightarrow> lid y = lid x"
  shows "filter (\<lambda>l. lid l \<noteq> n) ls' = filter (\<lambda>l. lid l \<noteq> n) ls"
  using assms(1)
proof (induction ls arbitrary: ls')
  case (Cons l ls)
  from Cons.prems obtain y ys where y: "(if lid l = n then g l else Inr l) = Inr y" and ys: "smap (\<lambda>l. if lid l = n then g l else Inr l) ls = Inr ys"
    and "ls' = y # ys" by (auto simp: sbind_simps)
  moreover have "lid y = lid l \<and> (lid l \<noteq> n \<longrightarrow> y = l)" using y assms(2) by (auto split: if_splits)
  ultimately show ?case using Cons.IH [OF ys] by auto
qed simp

lemma rollback_reads:
  assumes "storage_ok st" and "createLayer True st = (l, st1)" and "on_layer_err (lid l) g st1 = Inr st2"
    and "\<And>x y. g x = Inr y \<Longrightarrow> lid y = lid x"
  shows "storage_get (on_layer (lid l) layer_clear st2) i f = storage_get st i f"
proof -
  have l: "lid l = idCount st" "sdata st1 = sdata st @ [l]" "idMaps st1 = idMaps st"
    using assms(2) by (auto simp: createLayer_eq)
  have st2: "smap (\<lambda>x. if lid x = lid l then g x else Inr x) (sdata st1) = Inr (sdata st2)" "idMaps st2 = idMaps st1"
    using assms(3) by (auto simp: on_layer_err_def sbind_simps)
  have "filter (\<lambda>x. lid x \<noteq> lid l) (sdata st2) = filter (\<lambda>x. lid x \<noteq> lid l) (sdata st1)"
    using smap_other_layers [OF st2(1) assms(4)] by blast
  also have "\<dots> = filter (\<lambda>x. lid x \<noteq> lid l) (sdata st)" using l by simp
  also have "\<dots> = sdata st"
    using assms(1) l(1) by (auto simp: storage_ok_def filter_id_conv)
  finally have "filter (\<lambda>x. lid x \<noteq> lid l) (sdata st2) = sdata st" .
  then show ?thesis
    unfolding on_layer_clear_reads by (intro storage_get_blank) (simp_all add: st2 l)
qed

subsection \<open>Reading after writing\<close>

lemma on_top_sdata: "sdata (on_top g st) = butlast (sdata (ensure_top st)) @ [g (last (sdata (ensure_top st)))]"
  and on_top_idMaps: "idMaps (on_top g st) = idMaps st"
  by (simp_all add: on_top_def Let_def ensure_top_def createLayer_eq)

lemma ensure_top_ne: "sdata (ensure_top st) \<noteq> []"
  by (simp add: ensure_top_def createLayer_eq Let_def)

lemma read_pairs_top:
  assumes "sdata st = ls @ [l]" and "oget [] (idMaps st) i = []"
  shows "read_pairs st i = (l, i) # read_pairs (st\<lparr>sdata := ls\<rparr>) i"
  using assms by (simp add: read_pairs_def recordIDs_def)

text \<open>
  A scalar that was written is what a read returns, from the top layer alone.
\<close>

lemma read_written_field:
  assumes "v \<noteq> GUndef" and "\<not> is_arr v" and "oget [] (idMaps st) i = []"
    and "eget (llinks (topLayer st)) i f = None"
  shows "storage_get (storage_writeField i f v st) i f
     = \<lparr>rr_value = v, rr_kind = KScalar, rr_layers = [lid (topLayer st)]\<rparr>"
proof -
  let ?l = "layer_writeField i f v (topLayer st)"
  have "read_pairs (storage_writeField i f v st) i
      = (?l, i) # read_pairs ((storage_writeField i f v st)\<lparr>sdata := butlast (sdata (ensure_top st))\<rparr>) i"
    by (rule read_pairs_top) (simp_all add: storage_writeField_def on_top_sdata on_top_idMaps topLayer_def assms)
  moreover have "layer_get ?l i f = (v, KScalar)"
    using assms(4) by (simp add: layer_get_def layer_writeField_def omap_simps)
  ultimately show ?thesis
    using assms(1,2) by (simp add: storage_get_def get_loop_scalar layer_writeField_def del: get_loop.simps)
qed

lemma read_written_link:
  assumes "storage_writeLink i f v st = Inr st'" and "v \<noteq> GUndef" and "\<not> is_arr v" and "oget [] (idMaps st) i = []"
  shows "storage_get st' i f = \<lparr>rr_value = v, rr_kind = KLink, rr_layers = [lid (topLayer st)]\<rparr>"
proof -
  obtain l where l: "layer_writeLink i f v (topLayer st) = Inr l"
      "st' = (ensure_top st)\<lparr>sdata := butlast (sdata (ensure_top st)) @ [l]\<rparr>"
    using assms(1) by (auto simp: storage_writeLink_def on_top_err_def Let_def sbind_simps topLayer_def)
  have ids: "idMaps (ensure_top st) = idMaps st" by (simp add: ensure_top_def createLayer_eq Let_def)
  have "read_pairs st' i = (l, i) # read_pairs (st'\<lparr>sdata := butlast (sdata (ensure_top st))\<rparr>) i"
    by (rule read_pairs_top) (simp_all add: l(2) ids assms(4))
  moreover have "layer_get l i f = (v, KLink)"
    using writeLink_frame [OF l(1)] assms(2) by (simp add: layer_get_def omap_simps)
  ultimately show ?thesis
    using assms(2,3) writeLink_frame [OF l(1)] by (simp add: storage_get_def get_loop_scalar del: get_loop.simps)
qed

subsection \<open>Deleting a record\<close>

lemma collect_deleted_mono: "set s \<subseteq> set (collect_deleted ids l f s)"
  unfolding collect_deleted_def
  by (rule fold_invariant_list [where P = "\<lambda>t. set s \<subseteq> set t"]) auto

lemma collect_deleted_mem:
  assumes "t \<in> set (deletedIDs l)" and "\<not> undone_in l f t"
  shows "t \<in> set (collect_deleted ids l f s)"
proof -
  have "t \<in> set xs \<Longrightarrow> t \<in> set (fold (\<lambda>v s. if undone_in l f v then s
      else if oget [] ids v \<noteq> [] then sadd (oget [] ids v) (sadd v s) else sadd v s) xs s)" for xs s
  proof (induction xs arbitrary: s rule: rev_induct)
    case (snoc x xs)
    then show ?case using assms(2) by auto
  qed simp
  with assms(1) show ?thesis by (simp add: collect_deleted_def)
qed

lemma collect_ops_remove: "collect_ops ops a = Some b \<Longrightarrow> set (ra_remove a) \<subseteq> set (ra_remove b)"
  by (induction ops a rule: collect_ops.induct) auto

lemma apply_acc_removed: "t \<in> set (ra_remove a) \<Longrightarrow> GStr t \<notin> set (apply_acc a vs)"
  by (auto simp: apply_acc_def)

lemma get_loop_removed_step:
  assumes t: "t \<in> set (collect_deleted ids l f (ra_remove a))"
    and ps: "\<And>b. t \<in> set (ra_remove b) \<Longrightarrow> rr_value (fst (get_loop ids f GUndef ps b)) = GArr vs \<Longrightarrow> GStr t \<notin> set vs"
    and r: "rr_value (fst (get_loop ids f GUndef ((l, i) # ps) a)) = GArr vs"
  shows "GStr t \<notin> set vs"
proof -
  obtain v k where v: "layer_get l i f = (v, k)" by fastforce
  define ops where "ops = (case getOperations l i f of None \<Rightarrow> [] | Some ops \<Rightarrow> ops)"
  define a1 where "a1 = a\<lparr>ra_remove := collect_deleted ids l f (ra_remove a)\<rparr>"
  have a1: "t \<in> set (ra_remove a1)" using t by (simp add: a1_def)
  note unfold = get_loop.simps Let_def v prod.case ops_def [symmetric] a1_def [symmetric]
  consider (skip) "v = GUndef" "ops = []" | (scalar) "v \<noteq> GUndef" "\<not> is_arr v"
    | (ops) "v = GUndef" "ops \<noteq> []" | (arr) ws where "v = GArr ws" by (cases v) auto
  then show ?thesis
  proof cases
    case skip
    then show ?thesis using r a1 ps [of a1] ps [of "a1\<lparr>ra_layers := ra_layers a1 @ [lid l]\<rparr>"]
      unfolding unfold by (auto split: if_splits)
  next
    case scalar
    then show ?thesis using r unfolding unfold by auto
  next
    case ops
    show ?thesis
    proof (cases "collect_ops ops (a1\<lparr>ra_layers := ra_layers a1 @ [lid l]\<rparr>)")
      case None
      then show ?thesis using r ops unfolding unfold by (simp add: no_read_def)
    next
      case (Some b)
      have "t \<in> set (ra_remove b)" using collect_ops_remove [OF Some] a1 by auto
      then show ?thesis using r ops Some ps [of b] unfolding unfold by simp
    qed
  next
    case arr
    show ?thesis
    proof (cases "collect_ops ops (a1\<lparr>ra_layers := ra_layers a1 @ [lid l]\<rparr>)")
      case None
      then show ?thesis using r arr unfolding unfold by (simp add: no_read_def)
    next
      case (Some b)
      have "t \<in> set (ra_remove b)" using collect_ops_remove [OF Some] a1 by auto
      then show ?thesis using r arr Some apply_acc_removed [of t b ws] unfolding unfold by (auto split: if_splits)
    qed
  qed
qed

lemma get_loop_removed:
  "t \<in> set (ra_remove a) \<Longrightarrow> rr_value (fst (get_loop ids f GUndef ps a)) = GArr vs \<Longrightarrow> GStr t \<notin> set vs"
proof (induction ps arbitrary: a)
  case (Cons p ps)
  obtain l i where p: "p = (l, i)" by fastforce
  show ?case
    by (rule get_loop_removed_step [OF _ Cons.IH])
       (use Cons.prems p collect_deleted_mono in blast)+
qed (simp add: no_read_def)

lemma read_pairs_Cons: "sdata st = ls @ [l] \<Longrightarrow> \<exists>i' ps. read_pairs st i = (l, i') # ps"
  by (auto simp: read_pairs_def recordIDs_def Let_def)

lemma deleted_not_listed:
  assumes "rr_value (storage_get (storage_delete t None st) i f) = GArr vs"
  shows "GStr t \<notin> set vs"
proof -
  let ?l = "layer_delete t (topLayer st)"
  obtain i' ps where ps: "read_pairs (storage_delete t None st) i = (?l, i') # ps"
    using read_pairs_Cons [of "storage_delete t None st" "butlast (sdata (ensure_top st))" ?l i]
    by (auto simp: storage_delete_def on_top_sdata topLayer_def)
  have "\<not> undone_in ?l f t" by (simp add: undone_in_def layer_delete_def map_of_oset)
  then have "t \<in> set (collect_deleted (idMaps (storage_delete t None st)) ?l f (ra_remove no_acc))"
    by (intro collect_deleted_mem) (simp_all add: layer_delete_def)
  with assms show ?thesis
    unfolding storage_get_def ps by (intro get_loop_removed_step [OF _ get_loop_removed])
qed


subsection \<open>Merging plain layers\<close>

text \<open>
  A plain layer holds writes only. \<open>typed K l\<close>: \<open>K\<close> says which fields are links, as the schema does.
\<close>

definition plain :: "layer \<Rightarrow> bool" where
  "plain l \<longleftrightarrow> operations l = [] \<and> deletedIDs l = []
     \<and> (\<forall>i f. eget (lfields l) i f \<noteq> Some GUndef \<and> eget (llinks l) i f \<noteq> Some GUndef)"

definition typed :: "(string \<Rightarrow> string \<Rightarrow> bool) \<Rightarrow> layer \<Rightarrow> bool" where
  "typed K l \<longleftrightarrow> (\<forall>i f. (eget (lfields l) i f \<noteq> None \<longrightarrow> \<not> K i f) \<and> (eget (llinks l) i f \<noteq> None \<longrightarrow> K i f))"

definition cell :: "(string \<Rightarrow> string \<Rightarrow> bool) \<Rightarrow> layer \<Rightarrow> string \<Rightarrow> string \<Rightarrow> gval option" where
  "cell K l i f = (if K i f then eget (llinks l) i f else eget (lfields l) i f)"

lemma layer_get_typed: "typed K l \<Longrightarrow> fst (layer_get l i f) = or_undef (cell K l i f)"
  by (cases "eget (llinks l) i f"; cases "eget (lfields l) i f")
     (auto simp: typed_def cell_def layer_get_def)

definition emerge :: "(string, string, gval) emap \<Rightarrow> (string, string, gval) emap \<Rightarrow> (string, string, gval) emap" where
  "emerge new old = fold (\<lambda>(i, f, v). eset i f v) (entries_of new) old"

lemma entries_of_Cons: "entries_of ((k, r) # m) = map (\<lambda>(f, v). (k, f, v)) r @ entries_of m"
  by (simp add: entries_of_def)

lemma entries_lookup:
  assumes "distinct (okeys m)"
  shows "map_of (map (\<lambda>(i, f, v). ((i, f), Some v)) (entries_of m)) (k, g) = map_option Some (eget m k g)"
  using assms
proof (induction m)
  case (Cons e m)
  obtain i r where e: "e = (i, r)" by fastforce
  have in_m: "map_of (map (\<lambda>(i, f, v). ((i, f), Some v)) (entries_of m)) (i, g) = None"
    using Cons.prems by (force simp: e entries_of_def map_of_eq_None_iff)
  have row: "map_of (map ((\<lambda>(i, f, v). ((i, f), Some v)) \<circ> (\<lambda>(f, v). (i, f, v))) r) (k, g)
      = (if k = i then map_option Some (map_of r g) else None)"
    by (induction r) auto
  show ?case
  proof (cases "k = i")
    case True
    then show ?thesis
      using in_m row by (auto simp: e entries_of_Cons map_add_def eget_def split: option.splits)
  next
    case False
    then show ?thesis
      using Cons row by (auto simp: e entries_of_Cons map_add_def eget_def split: option.splits)
  qed
qed (simp add: entries_of_def)

lemma entries_distinct: "ewf m \<Longrightarrow> distinct (map fst (map (\<lambda>(i, f, v). ((i, f), Some v)) (entries_of m)))"
proof (induction m)
  case (Cons e m)
  obtain i r where e: "e = (i, r)" by fastforce
  have "set (map fst (map (\<lambda>(i, f, v). ((i, f), Some v)) (entries_of m))) \<subseteq> set (okeys m) \<times> UNIV"
    by (force simp: entries_of_def)
  moreover have "distinct (map (\<lambda>(f, v). (i, f)) r)"
    using Cons.prems by (simp add: e ewf_def distinct_map inj_on_def case_prod_unfold)
  ultimately show ?case using Cons
    by (auto simp: e entries_of_Cons ewf_def comp_def case_prod_unfold)
qed (simp add: entries_of_def)

lemma eget_emerge:
  assumes "ewf new"
  shows "eget (emerge new old) i f = (case eget new i f of None \<Rightarrow> eget old i f | Some v \<Rightarrow> Some v)"
proof -
  let ?ws = "map (\<lambda>(i, f, v). ((i, f), Some v)) (entries_of new)"
  have "emerge new old = emap_cells.write_all ?ws old"
    unfolding emerge_def emap_cells.write_all_def fold_map by (rule fold_cong) auto
  then have "eget (emerge new old) i f = (case map_of ?ws (i, f) of None \<Rightarrow> eget old i f | Some v \<Rightarrow> v)"
    using emap_cells.rd_write_all_distinct [OF entries_distinct [OF assms], of old "(i, f)"] by (simp split: option.splits)
  then show ?thesis
    using entries_lookup [of new i f] assms by (simp add: ewf_def split: option.splits)
qed

text \<open>Without operations and deletions a link is just written, so a merge is two folds of writes.\<close>

lemma undo_removal_plain: "operations l = [] \<Longrightarrow> deletedIDs l = [] \<Longrightarrow> undo_removal i f v l = Inr l"
  by (simp add: undo_removal_def field_ops_def is_deleted_def)

lemma writeLink_plain:
  assumes "operations l = []" and "deletedIDs l = []"
  shows "layer_writeLink i f v l = Inr (l\<lparr>llinks := eset i f v (llinks l)\<rparr>)"
proof -
  have "sfold (undo_removal i f) ids l = Inr l" for ids
    by (induction ids) (simp_all add: undo_removal_plain assms)
  then show ?thesis by (simp add: layer_writeLink_def)
qed

lemma writeLinks_plain:
  assumes "operations l = []" and "deletedIDs l = []"
  shows "sfold (\<lambda>(i, f, v). layer_writeLink i f v) es l
     = Inr (l\<lparr>llinks := fold (\<lambda>(i, f, v). eset i f v) es (llinks l)\<rparr>)"
  using assms
proof (induction es arbitrary: l)
  case (Cons e es)
  obtain i f v where "e = (i, f, v)" by (cases e) auto
  with Cons show ?case by (simp add: writeLink_plain)
qed simp

lemma writeFields_fold:
  "fold (\<lambda>(i, f, v). layer_writeField i f v) es l = l\<lparr>lfields := fold (\<lambda>(i, f, v). eset i f v) es (lfields l)\<rparr>"
  by (induction es arbitrary: l) (auto simp: layer_writeField_def)

lemma writeLayer_plain:
  assumes "plain l" and "plain this" and "lid l \<noteq> lid this"
  shows "writeLayer l this = Inr (this\<lparr>lfields := emerge (lfields l) (lfields this), llinks := emerge (llinks l) (llinks this)\<rparr>)"
  using assms by (simp add: writeLayer_def plain_def writeFields_fold writeLinks_plain emerge_def)

lemma merged_plain:
  assumes "plain l" "plain this" "layer_ok l" "typed K l" "typed K this"
    and m: "m = this\<lparr>lfields := emerge (lfields l) (lfields this), llinks := emerge (llinks l) (llinks this)\<rparr>"
  shows "plain m \<and> typed K m \<and> cell K m i f = (case cell K l i f of None \<Rightarrow> cell K this i f | Some v \<Rightarrow> Some v)"
proof -
  have ef: "eget (lfields m) i f = (case eget (lfields l) i f of None \<Rightarrow> eget (lfields this) i f | Some v \<Rightarrow> Some v)"
    and el: "eget (llinks m) i f = (case eget (llinks l) i f of None \<Rightarrow> eget (llinks this) i f | Some v \<Rightarrow> Some v)" for i f
    using m layer_ok_ewf [OF assms(3)] by (simp_all add: eget_emerge)
  have "plain m"
    using assms(1,2) m unfolding plain_def ef el by (simp split: option.split) blast
  moreover have "(eget (lfields m) i f \<noteq> None \<longrightarrow> \<not> K i f) \<and> (eget (llinks m) i f \<noteq> None \<longrightarrow> K i f)" for i f
    using assms(4,5) [unfolded typed_def, THEN spec, THEN spec, of i f]
    by (cases "eget (lfields l) i f"; cases "eget (llinks l) i f") (simp_all add: ef el)
  then have "typed K m" by (simp add: typed_def)
  moreover have "cell K m i f = (case cell K l i f of None \<Rightarrow> cell K this i f | Some v \<Rightarrow> Some v)"
    by (simp add: cell_def ef el split: option.split)
  ultimately show ?thesis by blast
qed

fun stacked :: "(string \<Rightarrow> string \<Rightarrow> bool) \<Rightarrow> layer list \<Rightarrow> string \<Rightarrow> string \<Rightarrow> gval option" where
  "stacked K [] i f = None"
| "stacked K (l # ls) i f = (case cell K l i f of None \<Rightarrow> stacked K ls i f | Some v \<Rightarrow> Some v)"

lemma stacked_append:
  "stacked K (xs @ ys) i f = (case stacked K xs i f of None \<Rightarrow> stacked K ys i f | Some v \<Rightarrow> Some v)"
  by (induction xs) (auto split: option.splits)

abbreviation clean_layer :: "(string \<Rightarrow> string \<Rightarrow> bool) \<Rightarrow> layer \<Rightarrow> bool" where
  "clean_layer K l \<equiv> plain l \<and> typed K l \<and> layer_ok l"

lemma cell_defined: "plain l \<Longrightarrow> cell K l i f \<noteq> Some GUndef"
  by (simp add: plain_def cell_def)

text \<open>A read of plain layers is the newest cell.\<close>

lemma get_loop_plain:
  assumes "list_all (clean_layer K) ls" and "ra_start a = []" "ra_end a = []" "ra_remove a = []"
  shows "rr_value (fst (get_loop ids f GUndef (map (\<lambda>l. (l, i)) ls) a)) = or_undef (stacked K ls i f)"
  using assms
proof (induction ls arbitrary: a)
  case (Cons l ls)
  have ops: "getOperations l i f = None" "deletedIDs l = []"
    using Cons.prems by (auto simp: plain_def getOperations_def)
  have val: "fst (layer_get l i f) = or_undef (cell K l i f)"
    using Cons.prems by (intro layer_get_typed) simp
  obtain v k where vk: "layer_get l i f = (v, k)" by fastforce
  show ?case
  proof (cases "cell K l i f")
    case None
    with ops val Cons show ?thesis by (simp add: get_loop_skip del: get_loop.simps)
  next
    case (Some w)
    then have w: "layer_get l i f = (w, k)" "w \<noteq> GUndef"
      using val vk cell_defined [of l K i f] Cons.prems by auto
    show ?thesis
    proof (cases w)
      case (GArr vs)
      then show ?thesis
        using get_loop_array [of l i f vs k a ids GUndef] w ops Cons.prems Some by (simp del: get_loop.simps)
    qed (use get_loop_scalar [OF w] Some in \<open>simp_all del: get_loop.simps\<close>)
  qed
qed (simp add: no_read_def)

lemma storage_get_plain:
  assumes "list_all (clean_layer K) (sdata st)" and "oget [] (idMaps st) i = []"
  shows "rr_value (storage_get st i f) = or_undef (stacked K (rev (sdata st)) i f)"
proof -
  have "read_pairs st i = map (\<lambda>l. (l, i)) (rev (sdata st))"
    using assms(2) by (simp add: read_pairs_def recordIDs_def concat_map_singleton)
  then show ?thesis
    using assms(1) by (simp add: storage_get_def get_loop_plain no_acc_def list.pred_set)
qed

lemma sfold_writeLayer_plain:
  assumes "list_all (clean_layer K) run" and "clean_layer K base" and "lid base \<notin> lid ` set run"
  shows "\<exists>m. sfold writeLayer run base = Inr m \<and> clean_layer K m \<and> lid m = lid base
     \<and> (\<forall>i f. cell K m i f = stacked K (rev (base # run)) i f)"
  using assms
proof (induction run arbitrary: base)
  case (Cons l run)
  let ?m = "base\<lparr>lfields := emerge (lfields l) (lfields base), llinks := emerge (llinks l) (llinks base)\<rparr>"
  have w: "writeLayer l base = Inr ?m" using Cons.prems by (intro writeLayer_plain) auto
  have "plain ?m" "typed K ?m" and c: "cell K ?m i f = (case cell K l i f of None \<Rightarrow> cell K base i f | Some v \<Rightarrow> Some v)" for i f
    using merged_plain [of l base K ?m] Cons.prems by auto
  moreover have "layer_ok ?m" using layer_ok_writeLayer [OF _ w] Cons.prems by simp
  ultimately obtain m where m: "sfold writeLayer run ?m = Inr m" "clean_layer K m" "lid m = lid base"
      "\<forall>i f. cell K m i f = stacked K (rev (?m # run)) i f"
    using Cons.IH [of ?m] Cons.prems by auto
  have "stacked K (rev (?m # run)) i f = stacked K (rev (base # l # run)) i f" for i f
    by (simp add: stacked_append c split: option.split)
  with w m show ?case by (intro exI [of _ m]) simp
qed (auto split: option.split)

lemma optimistic_cell: "cell K (l\<lparr>optimistic := b\<rparr>) i f = cell K l i f"
  by (simp add: cell_def)

lemma stacked_optimistic: "stacked K (rev (ls[k := (ls ! k)\<lparr>optimistic := b\<rparr>])) i f = stacked K (rev ls) i f"
proof (cases "k < length ls")
  case True
  then have "ls = take k ls @ ls ! k # drop (Suc k) ls" by (rule id_take_nth_drop)
  then show ?thesis
    using upd_conv_take_nth_drop [OF True]
    by (metis (no_types, lifting) optimistic_cell rev.simps(2) rev_append stacked.simps stacked_append)
qed (simp add: list_update_beyond)

lemma resolve_plain:
  assumes ok: "storage_ok st" and clean: "list_all (clean_layer K) (sdata st)" and n: "n \<in> lid ` set (sdata st)"
  shows "\<exists>st'. resolveLayer n st = Inr st' \<and> list_all (clean_layer K) (sdata st')
     \<and> (\<forall>i f. stacked K (rev (sdata st')) i f = stacked K (rev (sdata st)) i f)
     \<and> (idMaps st' = [] \<or> idMaps st' = idMaps st)"
proof -
  obtain k where k: "index_of n (sdata st) = Some k" using n index_of_none [of n "sdata st"] by (cases "index_of n (sdata st)") auto
  have kl: "k < length (sdata st)" using index_of_nth [OF k] by simp
  define ls where "ls = (sdata st)[k := (sdata st ! k)\<lparr>optimistic := False\<rparr>]"
  define start where "start = (if optimistic (ls ! (k - 1)) then Suc (k - 1) else k - 1)"
  have "start \<le> k" using kl by (cases k) (auto simp: start_def ls_def)
  then have sl: "start < length ls" using kl by (simp add: ls_def)
  have nopt: "\<not> optimistic (ls ! start)" using kl by (cases k) (auto simp: start_def ls_def)
  have lids: "distinct (map lid ls)"
    using ok kl by (simp add: storage_ok_def ls_def map_update list_update_same_conv [THEN iffD2])
  have cls: "list_all (clean_layer K) ls"
    using clean kl by (auto simp: ls_def list_all_length nth_list_update plain_def typed_def layer_ok_def)
  obtain run where run: "takeWhile (\<lambda>l. \<not> optimistic l) (drop start ls) = ls ! start # run"
    using sl nopt by (simp add: Cons_nth_drop_Suc [symmetric])
  let ?rest = "drop (Suc (start + length run)) ls"
  have split: "ls = take start ls @ (ls ! start # run) @ ?rest"
    using takeWhile_dropWhile_id [of "\<lambda>l. \<not> optimistic l" "drop start ls"]
    by (metis add_Suc_right append_take_drop_id drop_drop dropWhile_eq_drop length_Cons run add.commute)
  have "list_all (clean_layer K) (take start ls @ (ls ! start # run) @ ?rest)" using cls split by simp
  then have parts: "list_all (clean_layer K) (take start ls)" "clean_layer K (ls ! start)" "list_all (clean_layer K) run" "list_all (clean_layer K) ?rest"
    by simp_all
  have "distinct (map lid (take start ls @ (ls ! start # run) @ ?rest))" using lids split by simp
  then have fresh: "lid (ls ! start) \<notin> lid ` set run" by simp
  obtain m where m: "sfold writeLayer run (ls ! start) = Inr m" "clean_layer K m"
      "\<forall>i f. cell K m i f = stacked K (rev (ls ! start # run)) i f"
    using sfold_writeLayer_plain [OF parts(3,2) fresh] by blast
  have self: "sfold writeLayer (ls ! start # run) (ls ! start) = Inr m"
    using m(1) by (simp add: writeLayer_def)
  have mr: "merge_run ls start = Inr (take start ls @ [m] @ ?rest)"
    by (simp add: merge_run_def Let_def run self del: sfold.simps)
  have "resolveLayer n st = Inr (st\<lparr>sdata := take start ls @ [m] @ ?rest,
      idMaps := if length (take start ls @ [m] @ ?rest) = 1 then [] else idMaps st\<rparr>)"
    by (simp only: resolveLayer_def k option.case Let_def ls_def [symmetric] start_def [symmetric] mr sbind_Inr)
  moreover have "list_all (clean_layer K) (take start ls @ [m] @ ?rest)" using parts m(2) by simp
  moreover have "stacked K (rev (take start ls @ [m] @ ?rest)) i f = stacked K (rev (sdata st)) i f" for i f
  proof -
    have "stacked K (rev (take start ls @ [m] @ ?rest)) i f = stacked K (rev (take start ls @ (ls ! start # run) @ ?rest)) i f"
      by (simp add: stacked_append m(3) split: option.split)
    also have "\<dots> = stacked K (rev ls) i f" using split by simp
    finally show ?thesis by (simp add: ls_def stacked_optimistic)
  qed
  ultimately show ?thesis by auto
qed


subsection \<open>Snapshots\<close>

lemma hydrate_new:
  "hydrate (Some sn) None st = (Some (idCount st),
     on_layer (idCount st) (\<lambda>l. l\<lparr>lfields := sn_fields sn, llinks := sn_links sn\<rparr>) (snd (createLayer True (st\<lparr>rank := sn_rank sn\<rparr>))))"
  by (simp add: hydrate_def createLayer_eq)

lemma map_values_lookup:
  "map_of (map (\<lambda>(i, r). (i, g r)) m) k = map_option g (map_of m k)"
  by (induction m) auto

lemma json_record_id:
  "(\<And>f v. (f, v) \<in> set r \<Longrightarrow> json_value v = v \<and> v \<noteq> GUndef) \<Longrightarrow> json_record r = r"
  unfolding json_record_def by (induction r) auto

lemma json_clean_map:
  assumes "\<And>i r f v. (i, r) \<in> set m \<Longrightarrow> (f, v) \<in> set r \<Longrightarrow> json_value v = v \<and> v \<noteq> GUndef"
  shows "map (\<lambda>(i, r). (i, json_record r)) m = m"
  using assms by (intro map_idI) (auto intro!: json_record_id)

definition json_clean :: "layer \<Rightarrow> bool" where
  "json_clean l \<longleftrightarrow> (\<forall>(i, f, v) \<in> set (entries_of (lfields l) @ entries_of (llinks l)). json_value v = v \<and> v \<noteq> GUndef)"

lemma json_clean_entries:
  assumes "json_clean l"
  shows "map (\<lambda>(i, r). (i, json_record r)) (lfields l) = lfields l" "map (\<lambda>(i, r). (i, json_record r)) (llinks l) = llinks l"
proof -
  have e: "(i, f, v) \<in> set (entries_of m)" if "(i, r) \<in> set m" "(f, v) \<in> set r" for i f v r and m :: "(string, string, gval) emap"
    using that by (force simp: entries_of_def)
  show "map (\<lambda>(i, r). (i, json_record r)) (lfields l) = lfields l" "map (\<lambda>(i, r). (i, json_record r)) (llinks l) = llinks l"
    using assms e by (intro json_clean_map; fastforce simp: json_clean_def)+
qed


subsection \<open>Executions that throw or lose a change\<close>

text \<open>
  A layer in which a record was deleted has an operations entry without \<open>fields\<close>: linking anything
  from that record again, or inserting into one of its lists, throws.
\<close>

lemma delete_then_link_throws:
  assumes "oe_fields (oget empty_entry (operations l) i) = None" and "t \<noteq> []"
  shows "layer_writeLink i f (GStr t) (layer_delete i l) = Inl (TypeError ''operations[id].fields is undefined'')"
  using assms by (simp add: layer_writeLink_def undo_removal_def field_ops_def layer_delete_def map_of_oset)

lemma delete_then_insert_throws:
  assumes "oe_fields (oget empty_entry (operations l) i) = None"
  shows "layer_insert i f loc t (layer_delete i l) = Inl (TypeError ''operations[id].fields is undefined'')"
  using assms by (simp add: layer_insert_def addFieldOperation_def field_ops_def layer_delete_def map_of_oset)

text \<open>Merging a layer that deletes a record does not carry the deletion flag over.\<close>

lemma merge_forgets_deletion:
  assumes "lid l \<noteq> lid this" and "operations this = []" and "operations l = [(i, e)]" and "oe_fields e = None"
    and "llinks l = []"
  shows "\<exists>m. writeLayer l this = Inr m \<and> getOperations m i f = None"
proof -
  have "operations (fold (\<lambda>(i, f, v). layer_writeField i f v) es x) = operations x" for es x
    by (simp add: writeFields_fold)
  with assms show ?thesis
    by (simp add: writeLayer_def merge_operations_of_def merge_op_fields_def entry_fields_def Let_def
        entries_of_def getOperations_def)
qed

subsection \<open>Frame of a write\<close>

text \<open>What one read sees of a layer.\<close>

definition same_view :: "string \<Rightarrow> layer \<times> string \<Rightarrow> layer \<times> string \<Rightarrow> bool" where
  "same_view f p q \<longleftrightarrow> layer_get (fst p) (snd p) f = layer_get (fst q) (snd q) f
     \<and> getOperations (fst p) (snd p) f = getOperations (fst q) (snd q) f \<and> deletedIDs (fst p) = deletedIDs (fst q)
     \<and> (\<forall>v. undone_in (fst p) f v = undone_in (fst q) f v) \<and> lid (fst p) = lid (fst q)"

lemma get_loop_view:
  assumes "list_all2 (same_view f) ps qs"
  shows "fst (get_loop ids f GUndef ps a) = fst (get_loop ids f GUndef qs a)"
  using assms
proof (induction arbitrary: a)
  case (Cons p ps q qs)
  obtain l i where p: "p = (l, i)" by fastforce
  obtain m j where q: "q = (m, j)" by fastforce
  have v: "layer_get l i f = layer_get m j f" "getOperations l i f = getOperations m j f" "deletedIDs l = deletedIDs m"
      "lid l = lid m" "undone_in l f = undone_in m f"
    using Cons.hyps by (auto simp: same_view_def p q)
  have c: "collect_deleted ids l f = collect_deleted ids m f" by (rule ext) (simp add: collect_deleted_def v)
  show ?case
    unfolding p q get_loop.simps Let_def v(1,2,3,4) c
    by (simp add: Cons.IH split: prod.split option.split gval.split)
qed simp


lemma on_top_view:
  assumes "\<And>k. k \<in> set (recordIDs st j) \<Longrightarrow> same_view g (h (topLayer st), k) (topLayer st, k)"
  shows "storage_get (on_top h st) j g = storage_get st j g"
proof -
  let ?t = "ensure_top st"
  have ids: "recordIDs (on_top h st) j = recordIDs st j" "recordIDs ?t j = recordIDs st j" "idMaps (on_top h st) = idMaps ?t"
    by (simp_all add: recordIDs_def on_top_idMaps ensure_top_def createLayer_eq Let_def)
  have t: "sdata ?t = butlast (sdata ?t) @ [topLayer st]" using ensure_top_ne by (simp add: topLayer_def)
  have same: "list_all2 (same_view g) xs xs" for xs by (rule list.rel_refl) (simp add: same_view_def)
  have "list_all2 (same_view g) (map (Pair (h (topLayer st))) (recordIDs st j)) (map (Pair (topLayer st)) (recordIDs st j))"
    using assms by (simp add: list_all2_map1 list_all2_map2 list_all2_same)
  then have "list_all2 (same_view g) (read_pairs (on_top h st) j) (read_pairs ?t j)"
    unfolding read_pairs_def ids on_top_sdata topLayer_def [symmetric]
    by (subst (2) t) (simp add: list_all2_appendI same)
  then have "storage_get (on_top h st) j g = storage_get ?t j g"
    unfolding storage_get_def ids by (rule get_loop_view)
  then show ?thesis by (simp add: ensure_top_reads)
qed

text \<open>
  Writing one field changes no other field of any record that is not an alias of it.
\<close>

lemma field_write_frame:
  assumes "g \<noteq> f \<or> i \<notin> set (recordIDs st j)"
  shows "storage_get (storage_writeField i f v st) j g = storage_get st j g"
  unfolding storage_writeField_def
  by (rule on_top_view)
     (use assms in \<open>auto simp: same_view_def layer_writeField_def layer_get_def getOperations_def undone_in_def omap_simps\<close>)

lemma field_write_frame_witness:
  "storage_get (storage_writeField ''User:1'' ''name'' (GStr ''b'') new_storage) ''User:1'' ''age''
     = storage_get new_storage ''User:1'' ''age''"
  by (rule field_write_frame) simp

lemma read_written_field_witness:
  "rr_value (storage_get (storage_writeField ''User:1'' ''name'' (GStr ''a'') new_storage) ''User:1'' ''name'') = GStr ''a''"
proof -
  have "oget [] (idMaps new_storage) ''User:1'' = []" "eget (llinks (topLayer new_storage)) ''User:1'' ''name'' = None"
    by code_simp+
  with read_written_field [of "GStr ''a''" new_storage "''User:1''" "''name''"] show ?thesis by simp
qed

lemma read_written_link_witness:
  "\<exists>st. storage_writeLink ''User:1'' ''best'' (GStr ''User:2'') new_storage = Inr st
     \<and> storage_get st ''User:1'' ''best'' = \<lparr>rr_value = GStr ''User:2'', rr_kind = KLink, rr_layers = [1]\<rparr>"
proof -
  have "isl (storage_writeLink ''User:1'' ''best'' (GStr ''User:2'') new_storage) = False" by code_simp
  then obtain st where st: "storage_writeLink ''User:1'' ''best'' (GStr ''User:2'') new_storage = Inr st"
    by (cases "storage_writeLink ''User:1'' ''best'' (GStr ''User:2'') new_storage") auto
  have "oget [] (idMaps new_storage) ''User:1'' = []" "lid (topLayer new_storage) = 1" by code_simp+
  with read_written_link [OF st] st show ?thesis by simp
qed

text \<open>A user with two friends.\<close>

definition two_friends :: storage where
  "two_friends = (case storage_writeLink ''User:1'' ''friends'' (GArr [GStr ''User:2'', GStr ''User:3'']) new_storage of
     Inr st \<Rightarrow> st | Inl e \<Rightarrow> new_storage)"

lemma deleted_not_listed_witness:
  "rr_value (storage_get (storage_delete ''User:2'' None two_friends) ''User:1'' ''friends'') = GArr [GStr ''User:3'']
     \<and> GStr ''User:2'' \<notin> set [GStr ''User:3'']"
proof -
  have v: "rr_value (storage_get (storage_delete ''User:2'' None two_friends) ''User:1'' ''friends'') = GArr [GStr ''User:3'']"
    by code_simp
  with deleted_not_listed [OF v] show ?thesis by blast
qed


definition pending_rename :: storage where
  "pending_rename = on_layer 2 (layer_writeField ''User:1'' ''name'' (GStr ''b'')) (snd (createLayer True two_friends))"



end
