(* ===== verification/Stale.thy ===== *)
theory Stale
  imports Storage
begin

section \<open>Field times and staleness\<close>

text \<open>
  \<^verbatim>\<open>runtime/cache/staleManager.ts\<close>: the time at which each field was written, or \<open>null\<close> once it is stale.
  A time is an \<open>int option\<close>, \<open>None\<close> being \<open>null\<close>; a field without an entry is not stale. Hydrated
  snapshots are registered lazily: \<open>pending\<close> holds their fields until a mark needs them. The clock is
  an argument.
\<close>

type_synonym field_times = "(string, string, int option) emap"
type_synonym snapshot_fields = "(string \<times> string list) list"

record stale =
  fieldsTime :: field_times
  pendingHydrated :: "snapshot_fields list"

definition new_stale :: stale where
  "new_stale = \<lparr>fieldsTime = [], pendingHydrated = []\<rparr>"

definition initMapId :: "string \<Rightarrow> field_times \<Rightarrow> field_times" where
  "initMapId i m = (if map_of m i = None then oset i [] m else m)"

text \<open>The records and field names of a snapshot: its \<open>fields\<close>, then its \<open>links\<close>.\<close>

definition snapshot_names :: "snapshot \<Rightarrow> snapshot_fields" where
  "snapshot_names sn = map (\<lambda>(i, r). (i, okeys r)) (sn_fields sn @ sn_links sn)"

definition registerHydration :: "snapshot \<Rightarrow> stale \<Rightarrow> stale" where
  "registerHydration sn s = s\<lparr>pendingHydrated := pendingHydrated s @ [snapshot_names sn]\<rparr>"

definition flush_record :: "int \<Rightarrow> string \<times> string list \<Rightarrow> field_times \<Rightarrow> field_times" where
  "flush_record now r m =
     fold (\<lambda>f m. if eget m (fst r) f = None then eset (fst r) f (Some now) m else m) (snd r) (initMapId (fst r) m)"

definition flushHydrated :: "int \<Rightarrow> stale \<Rightarrow> stale" where
  "flushHydrated now s =
     s\<lparr>fieldsTime := fold (flush_record now) (concat (pendingHydrated s)) (fieldsTime s), pendingHydrated := []\<rparr>"

definition stale_getFieldTime :: "stale \<Rightarrow> string \<Rightarrow> string \<Rightarrow> int option option" where
  "stale_getFieldTime s i f = eget (fieldsTime s) i f"

definition setFieldTimeToNow :: "int \<Rightarrow> string \<Rightarrow> string \<Rightarrow> stale \<Rightarrow> stale" where
  "setFieldTimeToNow now i f s = s\<lparr>fieldsTime := eset i f (Some now) (initMapId i (fieldsTime s))\<rparr>"

definition markFieldStale :: "string \<Rightarrow> string \<Rightarrow> stale \<Rightarrow> stale" where
  "markFieldStale i f s = s\<lparr>fieldsTime := eset i f None (initMapId i (fieldsTime s))\<rparr>"

text \<open>The marking loops visit the entries that exist when they start; marking adds none.\<close>

definition mark_record :: "string \<Rightarrow> (string, int option) omap \<Rightarrow> stale \<Rightarrow> stale" where
  "mark_record i r = fold (\<lambda>(f, t). markFieldStale i f) r"

definition markAllStale :: "int \<Rightarrow> stale \<Rightarrow> stale" where
  "markAllStale now s =
     (let s1 = flushHydrated now s in fold (\<lambda>(i, r). mark_record i r) (fieldsTime s1) s1)"

definition markRecordStale :: "int \<Rightarrow> string \<Rightarrow> stale \<Rightarrow> stale" where
  "markRecordStale now i s =
     (let s1 = flushHydrated now s
      in case map_of (fieldsTime s1) i of None \<Rightarrow> s1 | Some r \<Rightarrow> mark_record i r s1)"

definition of_type :: "string \<Rightarrow> string \<Rightarrow> bool" where
  "of_type ty i = prefix (ty @ '':'') i"

definition markTypeStale :: "int \<Rightarrow> string \<Rightarrow> stale \<Rightarrow> stale" where
  "markTypeStale now ty s =
     (let s1 = flushHydrated now s
      in fold (\<lambda>(i, r) s. if of_type ty i then mark_record i r s else s) (fieldsTime s1) s1)"

definition markTypeFieldStale :: "int \<Rightarrow> string \<Rightarrow> string \<Rightarrow> gobj \<Rightarrow> stale \<Rightarrow> js_error + stale" where
  "markTypeFieldStale now ty field wn s =
     (let s1 = flushHydrated now s
      in sbind (computeKey field wn) (\<lambda>key.
           Inr (fold (\<lambda>(i, r) s. if of_type ty i
                  then fold (\<lambda>(local_field, t) s. if local_field = key then markFieldStale i field s else s) r s
                  else s) (fieldsTime s1) s1)))"

definition stale_deleteRecord :: "string \<Rightarrow> stale \<Rightarrow> stale" where
  "stale_deleteRecord i s = s\<lparr>fieldsTime := odel i (fieldsTime s)\<rparr>"

definition stale_delete :: "string \<Rightarrow> string \<Rightarrow> stale \<Rightarrow> stale" where
  "stale_delete i f s =
     (case map_of (fieldsTime s) i of
        None \<Rightarrow> s
      | Some r \<Rightarrow> s\<lparr>fieldsTime := (if odel f r = [] then odel i (fieldsTime s) else oset i (odel f r) (fieldsTime s))\<rparr>)"

definition stale_reset :: "stale \<Rightarrow> stale" where
  "stale_reset s = new_stale"

subsection \<open>What the operations do to the entry of a field\<close>

lemma eget_initMapId [simp]: "eget (initMapId i m) k f = eget m k f"
  by (simp add: initMapId_def eget_def map_of_oset)

lemma eget_flush_record:
  "eget (flush_record now r m) i f =
     (if i = fst r \<and> f \<in> set (snd r) \<and> eget m i f = None then Some (Some now) else eget m i f)"
proof -
  have "eget (fold (\<lambda>f m. if eget m j f = None then eset j f (Some now) m else m) fs m) i f
      = (if i = j \<and> f \<in> set fs \<and> eget m i f = None then Some (Some now) else eget m i f)" for j fs m
    by (induction fs arbitrary: m) (auto simp: eget_eset)
  then show ?thesis by (simp only: flush_record_def eget_initMapId)
qed

definition pending_has :: "stale \<Rightarrow> string \<Rightarrow> string \<Rightarrow> bool" where
  "pending_has s i f \<longleftrightarrow> (\<exists>(j, fs) \<in> set (concat (pendingHydrated s)). i = j \<and> f \<in> set fs)"

lemma flushHydrated_time:
  "stale_getFieldTime (flushHydrated now s) i f =
     (if eget (fieldsTime s) i f = None \<and> pending_has s i f then Some (Some now) else eget (fieldsTime s) i f)"
proof -
  have "eget (fold (flush_record now) rs m) i f =
      (if eget m i f = None \<and> (\<exists>(j, fs) \<in> set rs. i = j \<and> f \<in> set fs) then Some (Some now) else eget m i f)" for rs m
    by (induction rs arbitrary: m) (auto simp: eget_flush_record)
  then show ?thesis by (simp add: stale_getFieldTime_def flushHydrated_def pending_has_def)
qed

lemma markFieldStale_time:
  "stale_getFieldTime (markFieldStale i f s) j g = (if j = i \<and> g = f then Some None else stale_getFieldTime s j g)"
  by (simp add: stale_getFieldTime_def markFieldStale_def eget_eset)

lemma mark_record_time:
  "stale_getFieldTime (mark_record i r s) j g = (if j = i \<and> map_of r g \<noteq> None then Some None else stale_getFieldTime s j g)"
  unfolding mark_record_def
  by (induction r arbitrary: s) (auto simp: markFieldStale_time)

definition has_entry :: "('k, 'f, 'v) emap \<Rightarrow> 'k \<Rightarrow> 'f \<Rightarrow> bool" where
  "has_entry m j g \<longleftrightarrow> list_ex (\<lambda>(k, r). k = j \<and> map_of r g \<noteq> None) m"

lemma mark_fold_time:
  "stale_getFieldTime (fold (\<lambda>(i, r) s. if P i then mark_record i r s else s) m s) j g =
     (if P j \<and> has_entry m j g then Some None else stale_getFieldTime s j g)"
  by (induction m arbitrary: s) (auto simp: mark_record_time has_entry_def split: if_splits)

lemma has_entry_iff: "ewf m \<Longrightarrow> has_entry m j g \<longleftrightarrow> eget m j g \<noteq> None"
proof (induction m)
  case (Cons e m)
  obtain k r where e: "e = (k, r)" by fastforce
  have "ewf m" "k \<notin> set (okeys m)" using Cons.prems by (auto simp: e ewf_def)
  moreover from this(2) have "eget m k g = None" by (simp add: eget_def map_of_eq_None_iff [THEN iffD2])
  ultimately show ?case
    using Cons.IH by (cases "k = j") (auto simp: e has_entry_def eget_def)
qed (simp add: has_entry_def)

definition stale_ok :: "stale \<Rightarrow> bool" where
  "stale_ok s \<longleftrightarrow> ewf (fieldsTime s)"

lemma ewf_initMapId: "ewf m \<Longrightarrow> ewf (initMapId i m)"
  by (simp add: initMapId_def ewf_oset)

lemma stale_ok_flush: "stale_ok s \<Longrightarrow> stale_ok (flushHydrated now s)"
proof -
  have step: "ewf (flush_record now r m)" if "ewf m" for r m
    unfolding flush_record_def using ewf_initMapId [OF that]
    by (rule fold_invariant_list) (simp add: ewf_eset)
  have "ewf m \<Longrightarrow> ewf (fold (flush_record now) rs m)" for rs m
    by (induction rs arbitrary: m) (simp_all add: step)
  then show "stale_ok s \<Longrightarrow> stale_ok (flushHydrated now s)"
    by (simp add: stale_ok_def flushHydrated_def)
qed

lemma stale_ok_mark: "stale_ok s \<Longrightarrow> stale_ok (markFieldStale i f s)"
  and stale_ok_set: "stale_ok s \<Longrightarrow> stale_ok (setFieldTimeToNow now i f s)"
  by (simp_all add: stale_ok_def markFieldStale_def setFieldTimeToNow_def ewf_eset ewf_initMapId)

lemma stale_ok_delete: "stale_ok s \<Longrightarrow> stale_ok (stale_delete i f s)"
  by (auto simp: stale_ok_def stale_delete_def ewf_odel distinct_odel ewf_lookup split: option.splits intro!: ewf_oset)

text \<open>Marking everything stale reaches every field with a time and every hydrated field.\<close>

lemma markAllStale_time:
  assumes "stale_ok s"
  shows "stale_getFieldTime (markAllStale now s) i f =
     (if stale_getFieldTime s i f \<noteq> None \<or> pending_has s i f then Some None else None)"
proof -
  let ?s = "flushHydrated now s"
  have "markAllStale now s = fold (\<lambda>(i, r) s. if True then mark_record i r s else s) (fieldsTime ?s) ?s"
    by (simp add: markAllStale_def Let_def)
  then have "stale_getFieldTime (markAllStale now s) i f =
      (if eget (fieldsTime ?s) i f \<noteq> None then Some None else stale_getFieldTime ?s i f)"
    using stale_ok_flush [OF assms, of now] by (simp only: mark_fold_time stale_ok_def has_entry_iff simp_thms)
  then show ?thesis
    using flushHydrated_time [of now s i f] by (auto simp: stale_getFieldTime_def)
qed

text \<open>
  Marking a type stale makes exactly the known and hydrated fields of records of that type stale.
\<close>

lemma markTypeStale_time:
  assumes "stale_ok s"
  shows "stale_getFieldTime (markTypeStale now ty s) i f =
     (if of_type ty i \<and> (stale_getFieldTime s i f \<noteq> None \<or> pending_has s i f) then Some None
      else stale_getFieldTime (flushHydrated now s) i f)"
proof -
  let ?s = "flushHydrated now s"
  have "stale_getFieldTime (markTypeStale now ty s) i f =
      (if of_type ty i \<and> eget (fieldsTime ?s) i f \<noteq> None then Some None else stale_getFieldTime ?s i f)"
    using stale_ok_flush [OF assms, of now]
    by (simp only: markTypeStale_def Let_def mark_fold_time stale_ok_def has_entry_iff)
  then show ?thesis
    using flushHydrated_time [of now s i f] by (auto simp: stale_getFieldTime_def)
qed

lemma stale_delete_time:
  "stale_getFieldTime (stale_delete i f s) j g = (if j = i \<and> g = f then None else stale_getFieldTime s j g)"
proof (cases "map_of (fieldsTime s) i")
  case None
  then show ?thesis by (simp add: stale_getFieldTime_def stale_delete_def eget_def)
next
  case (Some r)
  have "odel f r = [] \<Longrightarrow> g \<noteq> f \<Longrightarrow> map_of r g = None"
    using map_of_odel [of f r g] by simp
  with Some show ?thesis
    by (auto simp: stale_getFieldTime_def stale_delete_def eget_def map_of_oset map_of_odel split: option.splits)
qed

text \<open>
  Marking a type's field under arguments stale compares the stored keys with the computed key, but then
  marks the bare field name: the keyed entry keeps its time.
\<close>

text \<open>
  Marking a field of a type stale under arguments leaves the time of the keyed entry as it was:
  the bare field name is marked instead.
\<close>

lemma markTypeFieldStale_keyed_unchanged:
  assumes "computeKey field wn = Inr key" and "key \<noteq> field" and "markTypeFieldStale now ty field wn s = Inr s'"
  shows "stale_getFieldTime s' i key = stale_getFieldTime (flushHydrated now s) i key"
proof -
  let ?P = "\<lambda>x. stale_getFieldTime x i key = stale_getFieldTime (flushHydrated now s) i key"
  have inner: "?P (fold (\<lambda>(local_field, t) s. if local_field = key then markFieldStale j field s else s) r x)" if "?P x" for j r x
    using that by (rule fold_invariant_list) (auto simp: markFieldStale_time assms(2))
  have "?P (fold (\<lambda>(i, r) s. if of_type ty i
      then fold (\<lambda>(local_field, t) s. if local_field = key then markFieldStale i field s else s) r s
      else s) m x)" if "?P x" for m x
    using that by (rule fold_invariant_list) (rename_tac e y, case_tac e, simp add: inner)
  with assms show ?thesis by (auto simp: markTypeFieldStale_def Let_def)
qed

lemma markAllStale_time_witness:
  "stale_getFieldTime (markAllStale 5 (setFieldTimeToNow 3 ''User:1'' ''name'' new_stale)) ''User:1'' ''name'' = Some None"
  by (subst markAllStale_time) (code_simp, simp add: setFieldTimeToNow_def stale_getFieldTime_def omap_simps)

lemma markTypeStale_time_witness:
  "stale_getFieldTime (markTypeStale 5 ''User'' (setFieldTimeToNow 3 ''User:1'' ''name'' new_stale)) ''User:1'' ''name'' = Some None"
  by (subst markTypeStale_time) (code_simp, code_simp)

lemma markTypeFieldStale_keyed_unchanged_witness:
  "\<exists>key s'. computeKey ''age'' [(''unit'', GStr ''y'')] = Inr key
     \<and> markTypeFieldStale 5 ''User'' ''age'' [(''unit'', GStr ''y'')] (setFieldTimeToNow 3 ''User:1'' key new_stale) = Inr s'
     \<and> stale_getFieldTime s' ''User:1'' key = Some (Some 3)"
proof -
  let ?key = "''age(unit: '' @ [CHR 0x22] @ ''y'' @ [CHR 0x22] @ '')''"
  let ?s = "setFieldTimeToNow 3 ''User:1'' ?key new_stale"
  have k: "computeKey ''age'' [(''unit'', GStr ''y'')] = Inr ?key" by code_simp
  have "isl (markTypeFieldStale 5 ''User'' ''age'' [(''unit'', GStr ''y'')] ?s) = False" by code_simp
  then obtain s' where s': "markTypeFieldStale 5 ''User'' ''age'' [(''unit'', GStr ''y'')] ?s = Inr s'"
    by (cases "markTypeFieldStale 5 ''User'' ''age'' [(''unit'', GStr ''y'')] ?s") auto
  have "stale_getFieldTime (flushHydrated 5 ?s) ''User:1'' ?key = Some (Some 3)" by code_simp
  with markTypeFieldStale_keyed_unchanged [OF k _ s', of "''User:1''"] k s' show ?thesis by auto
qed

end
