(* ===== verification/ListStore.thy ===== *)
theory ListStore
  imports Documents
begin

section \<open>The registry of named lists\<close>

text \<open>
  The state of \<open>ListManager\<close> (\<^verbatim>\<open>runtime/cache/lists.ts\<close>) and the operations that only touch it. A
  \<open>ListCollection\<close> is a mutable object that the lookups by name and by opaque id share, so collections
  live in a heap and both maps hold references; \<open>List\<close> objects never change and are plain records.
  The operations that reach into the cache are in \<^verbatim>\<open>ListOps\<close>.
\<close>

definition rootID :: string where
  "rootID = ''_ROOT_''"

record list_handler =
  lh_recordID :: string
  lh_recordType :: string
  lh_key :: string
  lh_type :: string
  lh_selection :: selection
  lh_when :: "list_when option"
  lh_filters :: "gobj option"
  lh_name :: string
  lh_connection :: bool

record list_manager =
  lm_lists :: "(string, string, nat) emap"       \<comment> \<open>list name, parent id\<close>
  lm_byField :: "(string, string, list_handler list) emap"   \<comment> \<open>parent id, field key\<close>
  lm_byOpaque :: "(string, nat) omap"
  lm_heap :: "(nat, list_handler list) omap"
  lm_next :: nat

definition new_lists :: list_manager where
  "new_lists = \<lparr>lm_lists = [], lm_byField = [], lm_byOpaque = [], lm_heap = [], lm_next = 0\<rparr>"

definition opaqueListID :: "string \<Rightarrow> string \<Rightarrow> string" where
  "opaqueListID parentID listName = parentID @ ''::'' @ listName"

definition collection :: "list_manager \<Rightarrow> nat \<Rightarrow> list_handler list" where
  "collection lm r = oget [] (lm_heap lm) r"

definition fieldRef :: "list_handler \<Rightarrow> string" where
  "fieldRef h = lh_recordID h @ ''.'' @ lh_key h"

definition or_root :: "string option \<Rightarrow> string" where
  "or_root i = (case i of Some (c # cs) \<Rightarrow> c # cs | _ \<Rightarrow> rootID)"

subsection \<open>Lookups\<close>

text \<open>
  \<open>getLists\<close>. A collection without lists has no \<open>lists[0]\<close> to read the record type of. The ids in the
  registry are cache ids; the one the caller passes is made into one with the record type.
\<close>

definition getLists :: "config \<Rightarrow> list_manager \<Rightarrow> string \<Rightarrow> string option \<Rightarrow> bool \<Rightarrow> js_error + list_handler list option" where
  "getLists cfg lm listName i allLists =
     (case oget [] (lm_lists lm) listName of
        [] \<Rightarrow> Inr None
      | (firstID, ref) # rest \<Rightarrow>
          if allLists then Inr (Some (concat (map (\<lambda>(k, r). collection lm r) ((firstID, ref) # rest))))
          else
            (case collection lm ref of
               [] \<Rightarrow> Inl (TypeError ''recordType of undefined'')
             | h # hs \<Rightarrow>
                 (let given = (case i of Some (c # cs) \<Rightarrow> Some (c # cs) | _ \<Rightarrow> None);
                      parentID = (case given of None \<Rightarrow> Some rootID | Some s \<Rightarrow> cache_id cfg (lh_recordType h) (GStr s))
                  in if rest = [] then
                       (case given of
                          None \<Rightarrow> Inr (Some (h # hs))
                        | Some s \<Rightarrow> Inr (if parentID = Some firstID then Some (h # hs) else None))
                     else
                       (case given of
                          None \<Rightarrow> Inr None
                        | Some s \<Rightarrow> Inr (case Option.bind parentID (eget (lm_lists lm) listName) of
                              None \<Rightarrow> None | Some r \<Rightarrow> Some (collection lm r))))))"

definition skip_matches :: "string list option \<Rightarrow> list_handler list \<Rightarrow> list_handler list" where
  "skip_matches skip hs = (case skip of None \<Rightarrow> hs | Some refs \<Rightarrow> filter (\<lambda>h. fieldRef h \<notin> set refs) hs)"

definition lists_get :: "config \<Rightarrow> list_manager \<Rightarrow> string \<Rightarrow> string option \<Rightarrow> bool \<Rightarrow> string list option
    \<Rightarrow> js_error + list_handler list option" where
  "lists_get cfg lm listName i allLists skip =
     sbind (getLists cfg lm listName i allLists) (\<lambda>r. Inr (map_option (skip_matches skip) r))"

definition getByOpaqueID :: "list_manager \<Rightarrow> string \<Rightarrow> string list option \<Rightarrow> list_handler list option" where
  "getByOpaqueID lm opaqueID skip =
     map_option (\<lambda>r. skip_matches skip (collection lm r)) (map_of (lm_byOpaque lm) opaqueID)"

subsection \<open>Registration\<close>

definition lists_add :: "list_handler \<Rightarrow> list_manager \<Rightarrow> list_manager" where
  "lists_add h lm =
     (let name = lh_name h; parentID = lh_recordID h;
          lm1 = (if map_of (lm_lists lm) name = None then lm\<lparr>lm_lists := oset name [] (lm_lists lm)\<rparr> else lm)
      in if (case eget (lm_lists lm1) name parentID of None \<Rightarrow> False
             | Some r \<Rightarrow> list_ex (\<lambda>g. lh_key g = lh_key h) (collection lm1 r)) then lm1
         else
           (let lm2 = (case eget (lm_lists lm1) name parentID of
                  Some r \<Rightarrow> lm1
                | None \<Rightarrow> lm1\<lparr>lm_lists := eset name parentID (lm_next lm1) (lm_lists lm1),
                              lm_heap := oset (lm_next lm1) [] (lm_heap lm1), lm_next := Suc (lm_next lm1)\<rparr>);
                ref = (case eget (lm_lists lm2) name parentID of Some r \<Rightarrow> r | None \<Rightarrow> 0);
                known = (case eget (lm_byField lm2) parentID (lh_key h) of None \<Rightarrow> [] | Some hs \<Rightarrow> hs)
            in lm2\<lparr>lm_heap := oset ref (collection lm2 ref @ [h]) (lm_heap lm2),
                   lm_byField := eset parentID (lh_key h) (known @ [h]) (lm_byField lm2),
                   lm_byOpaque := oset (opaqueListID parentID name) ref (lm_byOpaque lm2)\<rparr>))"

definition lists_remove :: "string \<Rightarrow> string \<Rightarrow> list_manager \<Rightarrow> list_manager" where
  "lists_remove listName i lm =
     (let parentID = (if i = [] then rootID else i)
      in lm\<lparr>lm_lists := edel listName parentID (lm_lists lm),
            lm_byOpaque := odel (opaqueListID parentID listName) (lm_byOpaque lm)\<rparr>)"

text \<open>One round of the loop of \<open>deleteField\<close>: the handler's collection loses its lists with that key.\<close>

definition drop_handler :: "string \<Rightarrow> list_handler \<Rightarrow> list_manager \<Rightarrow> list_manager" where
  "drop_handler field h lm =
     (case eget (lm_lists lm) (lh_name h) (lh_recordID h) of
        None \<Rightarrow> lm
      | Some r \<Rightarrow>
          (let left = filter (\<lambda>g. lh_key g \<noteq> field) (collection lm r);
               lm1 = lm\<lparr>lm_heap := oset r left (lm_heap lm)\<rparr>
           in if left = [] then
                lm1\<lparr>lm_lists := edel (lh_name h) (lh_recordID h) (lm_lists lm1),
                    lm_byOpaque := odel (opaqueListID (lh_recordID h) (lh_name h)) (lm_byOpaque lm1)\<rparr>
              else lm1))"

definition lists_deleteField :: "string \<Rightarrow> string \<Rightarrow> list_manager \<Rightarrow> list_manager" where
  "lists_deleteField parentID field lm =
     (case eget (lm_byField lm) parentID field of
        None \<Rightarrow> lm
      | Some hs \<Rightarrow>
          (let lm1 = fold (drop_handler field) hs lm
           in lm1\<lparr>lm_byField := edel parentID field (lm_byField lm1)\<rparr>))"

definition lists_reset :: "list_manager \<Rightarrow> list_manager" where
  "lists_reset lm = lm\<lparr>lm_lists := [], lm_byField := [], lm_byOpaque := []\<rparr>"

subsection \<open>Conditions\<close>

text \<open>\<open>validateWhen\<close>: the filters of the list against the conditions of the operation.\<close>

definition validateWhen :: "list_handler \<Rightarrow> list_when option \<Rightarrow> bool" where
  "validateWhen h wn =
     (case (case wn of Some w \<Rightarrow> Some w | None \<Rightarrow> lh_when h) of
        None \<Rightarrow> True
      | Some filters \<Rightarrow>
          (let must = (case (w_must filters, lh_filters h) of
                 (Some m, Some targets) \<Rightarrow> fold (\<lambda>(k, v) prev. prev \<and> deepEquals (prop_of targets k) v) m True
               | _ \<Rightarrow> True)
           in case w_must_not filters of
                None \<Rightarrow> must
              | Some m \<Rightarrow> (case lh_filters h of None \<Rightarrow> True
                  | Some targets \<Rightarrow> fold (\<lambda>(k, v) prev. prev \<and> \<not> deepEquals (prop_of targets k) v) m must)))"

definition when_lists :: "list_when option \<Rightarrow> list_handler list \<Rightarrow> list_handler list" where
  "when_lists wn hs = filter (\<lambda>h. validateWhen h wn) hs"

lemma fold_conj: "fold (\<lambda>(k, v) prev. prev \<and> P k v) m b \<longleftrightarrow> b \<and> list_all (\<lambda>(k, v). P k v) m"
  by (induction m arbitrary: b) auto

text \<open>
  A list operation with a condition applies to a list exactly if all must filters equal the
  filters of the list and none of the must_not filters does.
\<close>

lemma validateWhen_meaning:
  assumes "lh_filters h = Some targets"
  shows "validateWhen h (Some w) \<longleftrightarrow>
     list_all (\<lambda>(k, v). deepEquals (prop_of targets k) v) (case w_must w of None \<Rightarrow> [] | Some m \<Rightarrow> m)
     \<and> list_all (\<lambda>(k, v). \<not> deepEquals (prop_of targets k) v) (case w_must_not w of None \<Rightarrow> [] | Some m \<Rightarrow> m)"
  using assms by (simp add: validateWhen_def Let_def fold_conj split: option.split)

lemma validateWhen_meaning_witness:
  "validateWhen \<lparr>lh_recordID = ''_ROOT_'', lh_recordType = ''Query'', lh_key = ''users'', lh_type = ''User'',
      lh_selection = Selection None None None None, lh_when = None, lh_filters = Some [(''n'', GNum 1)],
      lh_name = ''All'', lh_connection = False\<rparr> (Some \<lparr>w_must = Some [(''n'', GNum 1)], w_must_not = None\<rparr>)"
  by (subst validateWhen_meaning) (simp, code_simp)

end
