(* ===== verification/CacheState.thy ===== *)
theory CacheState
  imports StorageReads Stale ListStore
begin

section \<open>The state of the cache\<close>

text \<open>
  The state that \<open>CacheInternal\<close> (\<^verbatim>\<open>runtime/cache/index.ts\<close>) ties together: the store, the
  subscriptions (\<^verbatim>\<open>subscription.ts\<close>), the list registry, the garbage collector's lifetimes
  (\<^verbatim>\<open>gc.ts\<close>) and the field times. \<open>cs_outbox\<close> is the sequence of \<open>onMessage\<close> calls; what a listener
  does in turn happens after the operation. \<open>cs_now\<close> is what \<open>Date.now()\<close> returns.

  The subscribers of a record are a mutable map that \<open>copySubscribers\<close> makes two records share, so the
  maps live in a heap.
\<close>

type_synonym field_selection = "subscription_spec \<times> field_map option"

record field_sub =
  fs_selections :: "field_selection list"
  fs_counts :: "(nat, int) omap"
  fs_maskedSelections :: "field_selection list"
  fs_maskedCounts :: "(nat, int) omap"

definition new_field_sub :: field_sub where
  "new_field_sub = \<lparr>fs_selections = [], fs_counts = [], fs_maskedSelections = [], fs_maskedCounts = []\<rparr>"

record sub_store =
  ss_index :: "(string, nat) omap"
  ss_heap :: "(nat, string, field_sub) emap"
  ss_next :: nat
  ss_keyVersions :: "(string, string list) omap"

definition new_subs :: sub_store where
  "new_subs = \<lparr>ss_index = [], ss_heap = [], ss_next = 0, ss_keyVersions = []\<rparr>"

record cache_state =
  cs_disabled :: bool
  cs_epoch :: nat
  cs_config :: config
  cs_storage :: storage
  cs_subs :: sub_store
  cs_lists :: list_manager
  cs_lifetimes :: "(string, string, nat) emap"
  cs_stale :: stale
  cs_outbox :: "(nat \<times> cache_message) list"
  cs_now :: int

definition new_cache :: "config \<Rightarrow> cache_state" where
  "new_cache cfg = \<lparr>cs_disabled = False, cs_epoch = 0, cs_config = cfg, cs_storage = new_storage,
     cs_subs = new_subs, cs_lists = new_lists, cs_lifetimes = [], cs_stale = new_stale, cs_outbox = [], cs_now = 0\<rparr>"

definition on_storage :: "(storage \<Rightarrow> storage) \<Rightarrow> cache_state \<Rightarrow> cache_state" where
  "on_storage f cs = cs\<lparr>cs_storage := f (cs_storage cs)\<rparr>"

definition on_storage_err :: "(storage \<Rightarrow> js_error + storage) \<Rightarrow> cache_state \<Rightarrow> js_error + cache_state" where
  "on_storage_err f cs = sbind (f (cs_storage cs)) (\<lambda>st. Inr (cs\<lparr>cs_storage := st\<rparr>))"

definition on_stale :: "(stale \<Rightarrow> stale) \<Rightarrow> cache_state \<Rightarrow> cache_state" where
  "on_stale f cs = cs\<lparr>cs_stale := f (cs_stale cs)\<rparr>"

definition on_lists :: "(list_manager \<Rightarrow> list_manager) \<Rightarrow> cache_state \<Rightarrow> cache_state" where
  "on_lists f cs = cs\<lparr>cs_lists := f (cs_lists cs)\<rparr>"

definition on_subs :: "(sub_store \<Rightarrow> sub_store) \<Rightarrow> cache_state \<Rightarrow> cache_state" where
  "on_subs f cs = cs\<lparr>cs_subs := f (cs_subs cs)\<rparr>"

definition cache_getTypename :: "string \<Rightarrow> cache_state \<Rightarrow> string \<times> cache_state" where
  "cache_getTypename i cs = (let (t, st) = getTypename i (cs_storage cs) in (tn_of t, cs\<lparr>cs_storage := st\<rparr>))"

subsection \<open>The subscribers of a field\<close>

definition subscribers :: "sub_store \<Rightarrow> string \<Rightarrow> (string, field_sub) omap option" where
  "subscribers ss i = (case map_of (ss_index ss) i of None \<Rightarrow> None | Some r \<Rightarrow> Some (oget [] (ss_heap ss) r))"

definition field_sub_of :: "sub_store \<Rightarrow> string \<Rightarrow> string \<Rightarrow> field_sub option" where
  "field_sub_of ss i key = Option.bind (subscribers ss i) (\<lambda>m. map_of m key)"

definition subs_get :: "sub_store \<Rightarrow> string \<Rightarrow> string \<Rightarrow> field_selection list" where
  "subs_get ss i key = (case field_sub_of ss i key of None \<Rightarrow> [] | Some fs \<Rightarrow> fs_selections fs)"

definition getMaskedParents :: "sub_store \<Rightarrow> string \<Rightarrow> string \<Rightarrow> field_selection list" where
  "getMaskedParents ss i key = (case field_sub_of ss i key of None \<Rightarrow> [] | Some fs \<Rightarrow> fs_maskedSelections fs)"

definition subs_getAll :: "sub_store \<Rightarrow> string \<Rightarrow> bool \<Rightarrow> field_selection list" where
  "subs_getAll ss i includeMaskedParents =
     concat (map (\<lambda>(key, fs). if includeMaskedParents then fs_selections fs @ fs_maskedSelections fs else fs_selections fs)
       (case subscribers ss i of None \<Rightarrow> [] | Some m \<Rightarrow> m))"

text \<open>\<open>Object.keys\<close> of a \<open>Map\<close>, or of an empty object: there are none.\<close>

definition activeFields :: "sub_store \<Rightarrow> string \<Rightarrow> string list" where
  "activeFields ss parent = []"

definition copySubscribers :: "string \<Rightarrow> string \<Rightarrow> sub_store \<Rightarrow> sub_store" where
  "copySubscribers frm to ss =
     (case map_of (ss_index ss) frm of
        Some r \<Rightarrow> ss\<lparr>ss_index := oset to r (ss_index ss)\<rparr>
      | None \<Rightarrow> ss\<lparr>ss_index := oset to (ss_next ss) (ss_index ss), ss_heap := oset (ss_next ss) [] (ss_heap ss),
                  ss_next := Suc (ss_next ss)\<rparr>)"

definition dedupe_specs :: "field_selection list \<Rightarrow> nat list \<times> field_selection list \<Rightarrow> nat list \<times> field_selection list" where
  "dedupe_specs sels acc =
     fold (\<lambda>sel (notified, result). if sp_onMessage (fst sel) \<in> set notified then (notified, result)
             else (notified @ [sp_onMessage (fst sel)], result @ [sel])) sels acc"

definition subs_all :: "sub_store \<Rightarrow> bool \<Rightarrow> field_selection list" where
  "subs_all ss includeMaskedParents =
     snd (dedupe_specs (concat (map (\<lambda>(i, r). concat (map (\<lambda>(key, fs).
       if includeMaskedParents then fs_selections fs @ fs_maskedSelections fs else fs_selections fs)
       (oget [] (ss_heap ss) r))) (ss_index ss))) ([], []))"

definition subs_size :: "sub_store \<Rightarrow> int" where
  "subs_size ss = sum_list (map (\<lambda>(i, r). sum_list (map (\<lambda>(key, fs). sum_list (map snd (fs_counts fs)))
     (oget [] (ss_heap ss) r))) (ss_index ss))"

subsection \<open>Adding and removing one reference\<close>

definition count_ref :: "subscription_spec \<Rightarrow> field_map option \<Rightarrow> field_selection list \<times> (nat, int) omap
    \<Rightarrow> field_selection list \<times> (nat, int) omap" where
  "count_ref spec sel sc =
     (case sc of (selections, counts) \<Rightarrow>
       (if sp_onMessage spec \<in> set (okeys counts) then selections else selections @ [(spec, sel)],
        oset (sp_onMessage spec) (oget 0 counts (sp_onMessage spec) + 1) counts))"

definition add_ref :: "field_selection \<Rightarrow> bool \<Rightarrow> field_sub \<Rightarrow> field_sub" where
  "add_ref sel masked fs =
     (if masked then
        (case count_ref (fst sel) (snd sel) (fs_maskedSelections fs, fs_maskedCounts fs) of
           (s, c) \<Rightarrow> fs\<lparr>fs_maskedSelections := s, fs_maskedCounts := c\<rparr>)
      else
        (case count_ref (fst sel) (snd sel) (fs_selections fs, fs_counts fs) of
           (s, c) \<Rightarrow> fs\<lparr>fs_selections := s, fs_counts := c\<rparr>))"

definition subs_addField :: "string \<Rightarrow> string \<Rightarrow> field_selection \<Rightarrow> bool \<Rightarrow> sub_store \<Rightarrow> sub_store" where
  "subs_addField i key sel masked ss =
     (let ss1 = (case map_of (ss_index ss) i of
            Some r \<Rightarrow> ss
          | None \<Rightarrow> ss\<lparr>ss_index := oset i (ss_next ss) (ss_index ss), ss_heap := oset (ss_next ss) [] (ss_heap ss),
                      ss_next := Suc (ss_next ss)\<rparr>);
          ref = oget 0 (ss_index ss1) i;
          fs = (case eget (ss_heap ss1) ref key of None \<Rightarrow> new_field_sub | Some fs \<Rightarrow> fs)
      in ss1\<lparr>ss_heap := eset ref key (add_ref sel masked fs) (ss_heap ss1),
             ss_keyVersions := oset key (sadd key (oget [] (ss_keyVersions ss1) key)) (ss_keyVersions ss1)\<rparr>)"

text \<open>
  \<open>removeSubscribers\<close>. One reference of each spec is given back, in the count map that matches the
  visibility of the walk if the spec is there and in the other one if not.
\<close>

record removal =
  rm_sub :: field_sub
  rm_targets :: "nat list"
  rm_maskedTargets :: "nat list"

definition drop_ref :: "nat \<Rightarrow> (nat, int) omap \<Rightarrow> (nat, int) omap \<times> bool" where
  "drop_ref m counts =
     (let newVal = oget 0 counts m - 1
      in if newVal \<le> 0 then (odel m counts, True) else (oset m newVal counts, False))"

definition drop_spec :: "bool \<Rightarrow> subscription_spec \<Rightarrow> removal \<Rightarrow> removal" where
  "drop_spec preferMasked spec rm =
     (let m = sp_onMessage spec;
          inMasked = m \<in> set (okeys (fs_maskedCounts (rm_sub rm)));
          inPlain = m \<in> set (okeys (fs_counts (rm_sub rm)))
      in if (preferMasked \<and> inMasked) \<or> (\<not> preferMasked \<and> \<not> inPlain \<and> inMasked) then
           (case drop_ref m (fs_maskedCounts (rm_sub rm)) of (c, gone) \<Rightarrow>
              rm\<lparr>rm_sub := (rm_sub rm)\<lparr>fs_maskedCounts := c\<rparr>,
                 rm_maskedTargets := (if gone then rm_maskedTargets rm @ [m] else rm_maskedTargets rm)\<rparr>)
         else if inPlain then
           (case drop_ref m (fs_counts (rm_sub rm)) of (c, gone) \<Rightarrow>
              rm\<lparr>rm_sub := (rm_sub rm)\<lparr>fs_counts := c\<rparr>,
                 rm_targets := (if gone then rm_targets rm @ [m] else rm_targets rm)\<rparr>)
         else rm)"

definition drop_specs :: "bool \<Rightarrow> subscription_spec list \<Rightarrow> field_sub \<Rightarrow> field_sub" where
  "drop_specs preferMasked specs fs =
     (let rm = fold (drop_spec preferMasked) specs \<lparr>rm_sub = fs, rm_targets = [], rm_maskedTargets = []\<rparr>
      in (rm_sub rm)\<lparr>
           fs_selections := filter (\<lambda>sel. sp_onMessage (fst sel) \<notin> set (rm_targets rm)) (fs_selections (rm_sub rm)),
           fs_maskedSelections := filter (\<lambda>sel. sp_onMessage (fst sel) \<notin> set (rm_maskedTargets rm)) (fs_maskedSelections (rm_sub rm))\<rparr>)"

definition removeSubscribers :: "string \<Rightarrow> string \<Rightarrow> subscription_spec list \<Rightarrow> bool \<Rightarrow> sub_store \<Rightarrow> sub_store" where
  "removeSubscribers i fieldName specs preferMasked ss =
     (case map_of (ss_index ss) i of
        None \<Rightarrow> ss
      | Some ref \<Rightarrow>
          (case eget (ss_heap ss) ref fieldName of
             None \<Rightarrow> ss
           | Some fs \<Rightarrow>
               (let fs1 = drop_specs preferMasked specs fs;
                    record1 = (if fs_counts fs1 = [] \<and> fs_maskedCounts fs1 = []
                      then odel fieldName (oget [] (ss_heap ss) ref)
                      else oset fieldName fs1 (oget [] (ss_heap ss) ref));
                    ss1 = ss\<lparr>ss_heap := oset ref record1 (ss_heap ss)\<rparr>
                in if record1 = [] then ss1\<lparr>ss_index := odel i (ss_index ss1)\<rparr> else ss1)))"

text \<open>\<open>reset\<close> keeps the subscribers of the root record and returns the specs of all others.\<close>

definition subs_reset :: "sub_store \<Rightarrow> subscription_spec list \<times> sub_store" where
  "subs_reset ss =
     (let gone = filter (\<lambda>(i, r). \<not> prefix rootID i) (ss_index ss)
      in (concat (map (\<lambda>(i, r). concat (map (\<lambda>(key, fs). map fst (fs_selections fs @ fs_maskedSelections fs))
            (oget [] (ss_heap ss) r))) gone),
          ss\<lparr>ss_index := filter (\<lambda>(i, r). prefix rootID i) (ss_index ss)\<rparr>))"

subsection \<open>Lifetimes\<close>

definition resetLifetime :: "string \<Rightarrow> string \<Rightarrow> cache_state \<Rightarrow> cache_state" where
  "resetLifetime i f cs = cs\<lparr>cs_lifetimes := eset i f 0 (cs_lifetimes cs)\<rparr>"

definition lifetimes_delete :: "string \<Rightarrow> cache_state \<Rightarrow> cache_state" where
  "lifetimes_delete i cs = cs\<lparr>cs_lifetimes := odel i (cs_lifetimes cs)\<rparr>"

definition cacheBufferSize :: "config \<Rightarrow> int" where
  "cacheBufferSize cfg = (case cf_cacheBufferSize cfg of None \<Rightarrow> 10 | Some n \<Rightarrow> n)"

definition is_subscribed :: "cache_state \<Rightarrow> string \<Rightarrow> string \<Rightarrow> bool" where
  "is_subscribed cs i f \<longleftrightarrow> subs_get (cs_subs cs) i f \<noteq> [] \<or> getMaskedParents (cs_subs cs) i f \<noteq> []"

text \<open>One field of the loop of \<open>tick\<close>; the lifetime is the one that the loop sees.\<close>

definition evict_field :: "string \<Rightarrow> string \<Rightarrow> cache_state \<Rightarrow> cache_state" where
  "evict_field i f cs =
     (let cs1 = on_lists (lists_deleteField i f) (on_storage (storage_deleteField i f) cs);
          left = odel f (oget [] (cs_lifetimes cs1) i);
          cs2 = cs1\<lparr>cs_lifetimes := (if left = [] then odel i (cs_lifetimes cs1) else oset i left (cs_lifetimes cs1))\<rparr>
      in on_stale (stale_delete i f) cs2)"

definition expire_field :: "string \<Rightarrow> string \<Rightarrow> cache_state \<Rightarrow> cache_state" where
  "expire_field i f cs =
     (case cf_defaultLifetime (cs_config cs) of
        None \<Rightarrow> cs
      | Some max_time \<Rightarrow>
          if max_time \<le> 0 then cs
          else
            (case stale_getFieldTime (cs_stale cs) i f of
               Some (Some t) \<Rightarrow> if t \<noteq> 0 \<and> max_time < cs_now cs - t then on_stale (markFieldStale i f) cs else cs
             | _ \<Rightarrow> cs))"

definition tick_field :: "string \<Rightarrow> string \<Rightarrow> nat \<Rightarrow> cache_state \<Rightarrow> cache_state" where
  "tick_field i f lifetime cs =
     (if is_subscribed cs i f then cs
      else
        (let cs1 = cs\<lparr>cs_lifetimes := eset i f (Suc lifetime) (cs_lifetimes cs)\<rparr>;
             cs2 = (if cacheBufferSize (cs_config cs1) < int (Suc lifetime) then evict_field i f cs1 else cs1)
         in expire_field i f cs2))"

definition gc_tick :: "cache_state \<Rightarrow> cache_state" where
  "gc_tick cs = fold (\<lambda>(i, f, n). tick_field i f n) (entries_of (cs_lifetimes cs)) cs"

definition collectGarbage :: "cache_state \<Rightarrow> cache_state" where
  "collectGarbage cs =
     (let cs1 = gc_tick cs
      in if length (sdata (cs_storage cs1)) = 1 then on_storage (on_top removeUndefinedFields) cs1 else cs1)"

end
