(* ===== verification/Subscriptions.thy ===== *)
theory Subscriptions
  imports CacheState
begin

section \<open>Subscribing documents to the records of their selections\<close>

text \<open>
  The walks of \<^verbatim>\<open>runtime/cache/subscription.ts\<close>: \<open>add\<close>, \<open>addMany\<close>, \<open>remove\<close>, \<open>findSubSelections\<close> and
  \<open>removeAllSubscribers\<close>. Each follows a selection through the linked records and ends because the
  selections get shallower. \<open>getFieldsForType\<close> is used without its memo table, which is transparent.
\<close>

abbreviation read_link :: "cache_state \<Rightarrow> string \<Rightarrow> string \<Rightarrow> gval" where
  "read_link cs i key \<equiv> read_value (cs_storage cs) i key"

definition addFieldSubscription :: "string \<Rightarrow> string \<Rightarrow> field_selection \<Rightarrow> bool \<Rightarrow> cache_state \<Rightarrow> cache_state" where
  "addFieldSubscription i key sel masked cs = resetLifetime i key (on_subs (subs_addField i key sel masked) cs)"

text \<open>A list field always has a selection; the compiler sees to it.\<close>

definition the_selection :: "selection option \<Rightarrow> selection" where
  "the_selection so = (case so of Some s \<Rightarrow> s | None \<Rightarrow> Selection None None None None)"

definition registerList :: "list_info \<Rightarrow> (string, list_filter) omap option \<Rightarrow> string \<Rightarrow> string \<Rightarrow> gobj
    \<Rightarrow> selection option \<Rightarrow> string \<Rightarrow> cache_state \<Rightarrow> cache_state" where
  "registerList li filters i key variables sel parentType cs =
     (let (tn, cs1) = cache_getTypename i cs
      in on_lists (lists_add \<lparr>lh_recordID = (if i = [] then rootID else i),
                              lh_recordType = (if tn = [] then parentType else tn),
                              lh_key = key, lh_type = li_type li, lh_selection = the_selection sel,
                              lh_when = None,
                              lh_filters = Some (resolve_filters (case filters of None \<Rightarrow> [] | Some fs \<Rightarrow> fs) variables),
                              lh_name = li_name li, lh_connection = li_connection li\<rparr>) cs1)"

definition or_type :: "string \<Rightarrow> string \<Rightarrow> string" where
  "or_type t d = (if t = [] then d else t)"

text \<open>What \<open>add\<close> does for one field before it follows the link.\<close>

definition add_field :: "string \<Rightarrow> subscription_spec \<Rightarrow> gobj \<Rightarrow> string \<Rightarrow> string \<Rightarrow> bool \<Rightarrow> field \<Rightarrow> cache_state \<Rightarrow> cache_state" where
  "add_field parent spec variables parentType tn masked f cs =
     (let fieldMasked = (masked \<or> \<not> f_visible f);
          key = evaluateKey (f_keyRaw f) variables;
          target = map_option (\<lambda>s. fields_for_type s tn False) (f_selection f);
          cs1 = addFieldSubscription parent key (spec, target) fieldMasked cs
      in case fi_list (f_info f) of
           Some li \<Rightarrow> (if fieldMasked then cs1
             else registerList li (fi_filters (f_info f)) parent key variables (f_selection f)
               (or_type parentType (sp_rootType spec)) cs1)
         | None \<Rightarrow> cs1)"

definition linked_children :: "cache_state \<Rightarrow> string \<Rightarrow> string \<Rightarrow> string list" where
  "linked_children cs i key = link_ids (read_link cs i key)"

function subs_add :: "string \<Rightarrow> subscription_spec \<Rightarrow> selection \<Rightarrow> gobj \<Rightarrow> string \<Rightarrow> bool \<Rightarrow> cache_state \<Rightarrow> cache_state" where
  "subs_add parent spec sel variables parentType masked cs =
     (let (tn, cs1) = cache_getTypename parent cs
      in fold (\<lambda>(attr, f) cs.
           (let cs2 = add_field parent spec variables parentType tn masked f cs
            in case f_selection f of
                 None \<Rightarrow> cs2
               | Some inner \<Rightarrow>
                   fold (\<lambda>child cs. subs_add child spec inner variables (f_type f) (masked \<or> \<not> f_visible f) cs)
                     (linked_children cs2 parent (evaluateKey (f_keyRaw f) variables)) cs2))
           (fields_for_type sel tn False) cs1)"
  by pat_completeness auto
termination
  by (relation "measure (\<lambda>(p, sp, s, v, t, m, cs). sel_depth s)")
     (auto dest!: fields_for_type_field sub_selection_depth)

declare subs_add.simps [simp del]

text \<open>
  \<open>addMany\<close>. Its loops run over the subscribers and, inside, over the fields: \<open>many_entries\<close>; for every linked record it
  recurses with all subscribers again, each with the sub-selection of the field at hand.
\<close>

fun subs_depth :: "field_selection list \<Rightarrow> nat" where
  "subs_depth [] = 0"
| "subs_depth ((spec, sel) # subs) = max (case sel of None \<Rightarrow> 0 | Some m \<Rightarrow> fields_depth m) (subs_depth subs)"

lemma subs_depth_mem: "(spec, Some m) \<in> set subs \<Longrightarrow> fields_depth m \<le> subs_depth subs"
  by (induction subs) (auto simp: le_max_iff_disj)

lemma subs_depth_map: "subs_depth (map (\<lambda>(sub, t). (sub, Some m)) subs) \<le> fields_depth m"
  by (induction subs) auto

definition many_entries :: "field_selection list \<Rightarrow> (subscription_spec \<times> field) list" where
  "many_entries subs = concat (map (\<lambda>(spec, sel). map (\<lambda>(attr, f). (spec, f)) (case sel of None \<Rightarrow> [] | Some m \<Rightarrow> m)) subs)"

lemma addMany_decreases:
  assumes "(spec, f) \<in> set (many_entries subs)" and "f_selection f = Some inner"
  shows "subs_depth (map (\<lambda>(sub, t). (sub, Some (fields_for_type inner tn False))) subs) < subs_depth subs"
proof -
  obtain m attr where m: "(spec, Some m) \<in> set subs" "(attr, f) \<in> set m"
    using assms(1) by (auto simp: many_entries_def split: option.splits)
  have "subs_depth (map (\<lambda>(sub, t). (sub, Some (fields_for_type inner tn False))) subs) \<le> sel_depth inner"
    using subs_depth_map fields_for_type_depth by (rule order_trans)
  also have "\<dots> < field_depth f" by (rule sub_selection_depth) fact
  also have "\<dots> \<le> fields_depth m" using m(2) by (rule field_depth_le)
  also have "\<dots> \<le> subs_depth subs" using m(1) by (rule subs_depth_mem)
  finally show ?thesis .
qed

definition many_field :: "string \<Rightarrow> gobj \<Rightarrow> subscription_spec \<Rightarrow> string \<Rightarrow> bool \<Rightarrow> field \<Rightarrow> cache_state \<Rightarrow> cache_state" where
  "many_field parent variables spec parentType masked f cs =
     (let fieldMasked = (masked \<or> \<not> f_visible f);
          key = evaluateKey (f_keyRaw f) variables;
          target = map_option (\<lambda>s. fields_for_type s parentType False) (f_selection f);
          cs1 = addFieldSubscription parent key (spec, target) fieldMasked cs
      in case fi_list (f_info f) of
           Some li \<Rightarrow> (if fieldMasked then cs1
             else registerList li (fi_filters (f_info f)) parent key variables (f_selection f)
               (or_type parentType (sp_rootType spec)) cs1)
         | None \<Rightarrow> cs1)"

function addMany :: "string \<Rightarrow> gobj \<Rightarrow> field_selection list \<Rightarrow> string \<Rightarrow> bool \<Rightarrow> cache_state \<Rightarrow> cache_state" where
  "addMany parent variables subs parentType masked cs =
     fold (\<lambda>(spec, f) cs.
       (let cs1 = many_field parent variables spec parentType masked f cs
        in case f_selection f of
             None \<Rightarrow> cs1
           | Some inner \<Rightarrow>
               fold (\<lambda>child cs.
                 (case cache_getTypename child cs of
                    (tn, cs2) \<Rightarrow>
                      addMany child variables (map (\<lambda>(sub, t). (sub, Some (fields_for_type inner tn False))) subs)
                        (f_type f) (masked \<or> \<not> f_visible f) cs2))
                 (linked_children cs1 parent (evaluateKey (f_keyRaw f) variables)) cs1))
       (many_entries subs) cs"
  by pat_completeness auto
termination
  by (relation "measure (\<lambda>(p, v, subs, t, m, cs). subs_depth subs)") (auto intro: addMany_decreases)

declare addMany.simps [simp del]

text \<open>
  \<open>remove\<close>: first every field of the record, collecting the links, then the linked records. The value of
  a link can be missing, and the walk then goes on at a record of that name, which nobody writes.
\<close>

definition link_targets :: "gval \<Rightarrow> string list" where
  "link_targets v = (case v of GArr vs \<Rightarrow> map js_string (flatten vs) | GNull \<Rightarrow> [] | _ \<Rightarrow> [js_string v])"

definition remove_fields :: "string \<Rightarrow> subscription_spec list \<Rightarrow> gobj \<Rightarrow> bool \<Rightarrow> field_map \<Rightarrow> cache_state
    \<Rightarrow> (string \<times> selection \<times> bool) list \<times> cache_state" where
  "remove_fields i targets variables masked flds cs =
     fold (\<lambda>(attr, f) (linked, cs).
       (let key = evaluateKey (f_keyRaw f) variables;
            fieldMasked = (masked \<or> \<not> f_visible f);
            cs1 = on_subs (removeSubscribers i key targets fieldMasked) cs
        in case f_selection f of
             None \<Rightarrow> (linked, cs1)
           | Some inner \<Rightarrow> (linked @ map (\<lambda>l. (l, inner, fieldMasked)) (link_targets (read_link cs1 i key)), cs1)))
       flds ([], cs)"

lemma remove_fields_linked:
  assumes "(l, inner, m) \<in> set (fst (remove_fields i targets variables masked flds cs))"
  shows "\<exists>attr f. (attr, f) \<in> set flds \<and> f_selection f = Some inner"
proof -
  let ?P = "\<lambda>r :: (string \<times> selection \<times> bool) list \<times> cache_state.
    \<forall>(l, inner, m) \<in> set (fst r). \<exists>attr f. (attr, f) \<in> set flds \<and> f_selection f = Some inner"
  have "?P (remove_fields i targets variables masked flds cs)"
    unfolding remove_fields_def
  proof (rule fold_invariant_list)
    fix x r assume x: "x \<in> set flds" and r: "?P r"
    obtain attr f where xf: "x = (attr, f)" by fastforce
    obtain linked cs' where rr: "r = (linked, cs')" by fastforce
    show "?P ((\<lambda>(attr, f) (linked, cs).
       (let key = evaluateKey (f_keyRaw f) variables;
            fieldMasked = (masked \<or> \<not> f_visible f);
            cs1 = on_subs (removeSubscribers i key targets fieldMasked) cs
        in case f_selection f of
             None \<Rightarrow> (linked, cs1)
           | Some inner \<Rightarrow> (linked @ map (\<lambda>l. (l, inner, fieldMasked)) (link_targets (read_link cs1 i key)), cs1))) x r)"
      using r x by (auto simp: xf rr Let_def split: option.split)
  qed simp
  with assms show ?thesis by fastforce
qed

lemma remove_fields_decreases:
  assumes "(linked, cs2) = remove_fields i targets variables masked (fields_for_type sel tn False) cs1"
    and "(l, inner, m) \<in> set linked"
  shows "sel_depth inner < sel_depth sel"
proof -
  from assms have "(l, inner, m) \<in> set (fst (remove_fields i targets variables masked (fields_for_type sel tn False) cs1))"
    by (metis fst_conv)
  then obtain attr f where "(attr, f) \<in> set (fields_for_type sel tn False)" "f_selection f = Some inner"
    using remove_fields_linked by blast
  then show ?thesis using fields_for_type_field sub_selection_depth by fastforce
qed

function subs_remove :: "string \<Rightarrow> selection \<Rightarrow> subscription_spec list \<Rightarrow> gobj \<Rightarrow> bool \<Rightarrow> cache_state \<Rightarrow> cache_state" where
  "subs_remove i sel targets variables masked cs =
     (let (tn, cs1) = cache_getTypename i cs;
          (linked, cs2) = remove_fields i targets variables masked (fields_for_type sel tn False) cs1
      in fold (\<lambda>(l, inner, m) cs. subs_remove l inner targets variables m cs) linked cs2)"
  by pat_completeness auto
termination
  by (relation "measure (\<lambda>(i, s, t, v, m, cs). sel_depth s)") (auto dest: remove_fields_decreases)

declare subs_remove.simps [simp del]

text \<open>
  \<open>findSubSelections\<close>: the sub-selections whose link contains the record. The lookups of type names can
  fill the table of type names, so the state is passed on.
\<close>

function findSubSelections :: "string \<Rightarrow> selection \<Rightarrow> gobj \<Rightarrow> string \<Rightarrow> selection list \<times> cache_state \<Rightarrow> selection list \<times> cache_state" where
  "findSubSelections parentID sel variables searchTarget acc =
     (case cache_getTypename parentID (snd acc) of
        (tn, cs1) \<Rightarrow>
          fold (\<lambda>(attr, f) acc.
            (case f_selection f of
               None \<Rightarrow> acc
             | Some inner \<Rightarrow>
                 (let v = read_link (snd acc) parentID (evaluateKey (f_keyRaw f) variables);
                      links = (case v of GArr vs \<Rightarrow> flatten vs | _ \<Rightarrow> [v])
                  in if GStr searchTarget \<in> set links then (fst acc @ [inner], snd acc)
                     else fold (\<lambda>l acc. findSubSelections (js_string l) inner variables searchTarget acc) links acc)))
            (fields_for_type sel tn False) (fst acc, cs1))"
  by pat_completeness auto
termination
  by (relation "measure (\<lambda>(p, s, v, t, acc). sel_depth s)")
     (auto dest!: fields_for_type_field sub_selection_depth)

declare findSubSelections.simps [simp del]

text \<open>
  \<open>removeAllSubscribers\<close> passes the function \<open>target.variables\<close> where the variables belong: keys are
  evaluated with the properties of a function object.
\<close>

definition function_props :: gobj where
  "function_props = [(''length'', GNum 0), (''name'', GStr ''variables'')]"

definition target_variables :: "subscription_spec \<Rightarrow> gobj" where
  "target_variables spec = (case sp_variables spec of None \<Rightarrow> [] | Some v \<Rightarrow> function_props)"

definition removeAllSubscribers :: "string \<Rightarrow> subscription_spec list option \<Rightarrow> cache_state \<Rightarrow> cache_state" where
  "removeAllSubscribers i given cs =
     (let targets = (case given of Some ts \<Rightarrow> ts | None \<Rightarrow> map fst (subs_getAll (cs_subs cs) i True))
      in fold (\<lambda>target cs.
           (let (subsels, cs1) = findSubSelections (or_root (sp_parentID target)) (sp_selection target)
                  (target_variables target) i ([], cs)
            in fold (\<lambda>subsel cs. subs_remove i subsel targets (target_variables target) False cs) subsels cs1))
           targets cs)"

definition cache_subscribe :: "subscription_spec \<Rightarrow> gobj \<Rightarrow> cache_state \<Rightarrow> cache_state" where
  "cache_subscribe spec variables cs =
     (if cs_disabled cs then cs
      else subs_add (or_root (sp_parentID spec)) spec (sp_selection spec) variables [] False cs)"

definition cache_unsubscribe :: "subscription_spec \<Rightarrow> gobj \<Rightarrow> cache_state \<Rightarrow> cache_state" where
  "cache_unsubscribe spec variables cs =
     subs_remove (or_root (sp_parentID spec)) (sp_selection spec) [spec] variables False cs"

definition registerKeyMap :: "string \<Rightarrow> string \<Rightarrow> cache_state \<Rightarrow> cache_state" where
  "registerKeyMap source mapped cs =
     on_subs (copySubscribers source mapped) (on_storage (registerIDMapping source mapped) cs)"

end
