(* ===== verification/CacheRead.thy ===== *)
theory CacheRead
  imports Subscriptions
begin

section \<open>Reading a selection out of the cache\<close>

text \<open>
  \<open>getSelection\<close> and \<open>hydrateNestedList\<close> of \<^verbatim>\<open>runtime/cache/index.ts\<close>. A read changes the store in two
  ways only: it fills the table of type names, and it stores the function of a component field.

  The \<open>__id\<close> that \<open>@includeListID\<close> attaches to an array is not part of the array's value here; on an
  object it is.
\<close>

record read_opts =
  ro_config :: config
  ro_variables :: gobj
  ro_ignoreMasking :: bool
  ro_fullCheck :: bool
  ro_loading :: bool
  ro_stale :: stale

record sel_result =
  sr_data :: gval
  sr_partial :: bool
  sr_stale :: bool
  sr_hasData :: bool

record list_result =
  lr_data :: "gval list"
  lr_partial :: bool
  lr_stale :: bool
  lr_hasData :: bool
  lr_cascade :: bool

definition no_list :: list_result where
  "no_list = \<lparr>lr_data = [], lr_partial = False, lr_stale = False, lr_hasData = False, lr_cascade = False\<rparr>"

text \<open>The record a link leads to: a missing value means the default parent, the root.\<close>

definition parent_of :: "gval \<Rightarrow> string option" where
  "parent_of v = (case v of GNull \<Rightarrow> None | GUndef \<Rightarrow> Some rootID | _ \<Rightarrow> Some (js_string v))"

text \<open>\<open>hydrateNestedList\<close>; \<open>rec\<close> reads one record with the list's selection.\<close>

fun hydrateNestedList :: "(string option \<Rightarrow> storage \<Rightarrow> sel_result \<times> storage) \<Rightarrow> bool \<Rightarrow> gval list
    \<Rightarrow> list_result \<Rightarrow> storage \<Rightarrow> list_result \<times> storage" where
  "hydrateNestedList rec nullable [] r st = (r, st)"
| "hydrateNestedList rec nullable (GArr xs # es) r st =
     (let (inner, st1) = hydrateNestedList rec nullable xs no_list st
      in hydrateNestedList rec nullable es
           (r\<lparr>lr_data := lr_data r @ [GArr (lr_data inner)],
              lr_partial := lr_partial r \<or> lr_partial inner,
              lr_cascade := lr_cascade r \<or> lr_cascade inner\<rparr>) st1)"
| "hydrateNestedList rec nullable (GNull # es) r st =
     hydrateNestedList rec nullable es (r\<lparr>lr_data := lr_data r @ [GNull]\<rparr>) st"
| "hydrateNestedList rec nullable (e # es) r st =
     (let (s, st1) = rec (parent_of e) st
      in hydrateNestedList rec nullable es
           (r\<lparr>lr_data := lr_data r @ [sr_data s],
              lr_partial := lr_partial r \<or> sr_partial s,
              lr_stale := lr_stale r \<or> sr_stale s,
              lr_hasData := lr_hasData r \<or> sr_hasData s,
              lr_cascade := lr_cascade r \<or> (sr_data s = GNull \<and> \<not> nullable)\<rparr>) st1)"

text \<open>The directives that decide whether a field is in the result.\<close>

definition directive_if :: "string \<Rightarrow> read_opts \<Rightarrow> field \<Rightarrow> bool option" where
  "directive_if name opts f =
     (case fi_directives (f_info f) of
        None \<Rightarrow> None
      | Some ds \<Rightarrow> (case find (\<lambda>d. fst d = name) ds of
            None \<Rightarrow> None
          | Some d \<Rightarrow> Some (truthy (prop_of (evaluateVariables (snd d) (ro_variables opts)) ''if''))))"

definition skip_field :: "read_opts \<Rightarrow> field \<Rightarrow> bool" where
  "skip_field opts f \<longleftrightarrow>
     (\<not> f_visible f \<and> \<not> ro_ignoreMasking opts \<and> \<not> ro_fullCheck opts)
     \<or> directive_if ''include'' opts f = Some False
     \<or> directive_if ''skip'' opts f = Some True
     \<or> (ro_loading opts \<and> fi_loading (f_info f) = None)"

definition next_step :: "nat option \<Rightarrow> field \<Rightarrow> nat option" where
  "next_step steps f =
     (case fi_list (f_info f) of
        Some li \<Rightarrow> (if li_connection li then Some 0
                   else (case steps of None \<Rightarrow> None | Some k \<Rightarrow> if 2 \<le> k then None else Some (Suc k)))
      | None \<Rightarrow> (case steps of None \<Rightarrow> None | Some k \<Rightarrow> if 2 \<le> k then None else Some (Suc k)))"

definition defaultComponentField :: "read_opts \<Rightarrow> string \<Rightarrow> field \<Rightarrow> gval" where
  "defaultComponentField opts parent f =
     (case fi_component (f_info f) of
        None \<Rightarrow> GUndef
      | Some co \<Rightarrow> GComp (co_key co) (co_prop co) (co_fragment co)
          (evaluateVariables (case co_variables co of None \<Rightarrow> [] | Some vs \<Rightarrow> vs) (ro_variables opts)) parent)"

definition unmarshal_value :: "read_opts \<Rightarrow> string \<Rightarrow> gval \<Rightarrow> gval" where
  "unmarshal_value opts ty v =
     (case map_of (cf_unmarshal (ro_config opts)) ty of
        None \<Rightarrow> v
      | Some fn \<Rightarrow> (case v of GArr vs \<Rightarrow> GArr (map fn vs) | _ \<Rightarrow> fn v))"

definition set_list_id :: "string \<Rightarrow> field \<Rightarrow> gval \<Rightarrow> gval" where
  "set_list_id parent f v =
     (case fi_list (f_info f) of
        Some li \<Rightarrow> (if flag (li_includeListID li) then
            (case v of GObj ps \<Rightarrow> GObj (oset ''__id'' (GStr (opaqueListID parent (li_name li))) ps) | _ \<Rightarrow> v) else v)
      | None \<Rightarrow> v)"

fun wrapInLists :: "gval \<Rightarrow> nat \<Rightarrow> gval" where
  "wrapInLists v 0 = v"
| "wrapInLists v (Suc n) = wrapInLists (GArr [v]) n"

definition wrap_loading :: "read_opts \<Rightarrow> field \<Rightarrow> gval \<Rightarrow> gval" where
  "wrap_loading opts f v =
     (if ro_loading opts then
        (case Option.bind (fi_loading (f_info f)) ls_list of
           Some (depth, cnt) \<Rightarrow> wrapInLists (GArr (replicate cnt v)) (depth - 1)
         | None \<Rightarrow> v)
      else v)"

record read_state =
  rs_target :: gobj
  rs_hasData :: bool
  rs_partial :: bool
  rs_cascade :: bool
  rs_stale :: bool

text \<open>
  The value that one field gets, before it is put into the target: the value, whether there is data,
  whether it is partial, whether null cascades, whether it is stale.
\<close>

definition field_result :: "read_opts \<Rightarrow> nat option \<Rightarrow> field \<Rightarrow> gval
    \<Rightarrow> (string option \<Rightarrow> nat option \<Rightarrow> storage \<Rightarrow> sel_result \<times> storage) \<Rightarrow> storage
    \<Rightarrow> (gval \<times> bool \<times> bool \<times> bool \<times> bool) \<times> storage" where
  "field_result opts steps f v rec st =
     (if ro_loading opts \<and> map_option ls_kind (fi_loading (f_info f)) = Some LValue then
        ((GSym, True, False, False, False), st)
      else if (\<not> ro_loading opts \<and> v = GUndef) \<or> v = GNull then
        ((GNull, v \<noteq> GUndef, False, False, False), st)
      else if f_selection f = None then
        ((unmarshal_value opts (f_type f) v, True, False, False, False), st)
      else
        (case v of
           GArr vs \<Rightarrow>
             (case hydrateNestedList (\<lambda>p. rec p (next_step steps f)) (flag (fi_nullable (f_info f))) vs no_list st of
                (r, st1) \<Rightarrow> ((GArr (lr_data r), lr_hasData r \<or> vs = [], lr_partial r, lr_cascade r, lr_stale r), st1))
         | _ \<Rightarrow>
             (case rec (parent_of v) (next_step steps f) st of
                (r, st1) \<Rightarrow> ((sr_data r, sr_hasData r, sr_partial r, False, sr_stale r), st1))))"

definition required_missing :: gval where
  "required_missing = GObj [(''__typename'', GStr ''@required field missing; don't match this'')]"

definition read_field :: "read_opts \<Rightarrow> string \<Rightarrow> nat option \<Rightarrow> string \<Rightarrow> field
    \<Rightarrow> (string option \<Rightarrow> nat option \<Rightarrow> storage \<Rightarrow> sel_result \<times> storage) \<Rightarrow> read_state \<Rightarrow> storage
    \<Rightarrow> read_state \<times> storage" where
  "read_field opts parent steps attr f rec acc st =
     (let key = evaluateKey (f_keyRaw f) (ro_variables opts);
          (stored, st1) = storage_get_default parent key (defaultComponentField opts parent f) st;
          stale1 = (stale_getFieldTime (ro_stale opts) parent key = Some None);
          v = (if ro_loading opts then GUndef else rr_value stored);
          embeddedCursor = (key = ''cursor'' \<and> steps = Some 1);
          ((v1, hasData, partial, cascade, stale2), st2) = field_result opts steps f v rec st1;
          v2 = wrap_loading opts f (set_list_id parent f v1);
          missing = (v2 = GNull \<and> \<not> flag (fi_nullable (f_info f)) \<and> \<not> embeddedCursor);
          dummy = (missing \<and> flag (fi_abstractHasRequired (f_info f)));
          target1 = (if f_visible f \<or> ro_ignoreMasking opts then oset attr v2 (rs_target acc) else rs_target acc)
      in (\<lparr>rs_target = (if dummy then oset attr required_missing target1 else target1),
           rs_hasData = rs_hasData acc \<or> hasData,
           rs_partial = rs_partial acc \<or> (v = GUndef \<and> \<not> embeddedCursor) \<or> partial,
           rs_cascade = rs_cascade acc \<or> cascade \<or> (missing \<and> \<not> dummy),
           rs_stale = rs_stale acc \<or> stale1 \<or> stale2\<rparr>, st2))"

lemma read_field_cong [fundef_cong]:
  assumes "\<And>p k s. rec p k s = rec' p k s"
  shows "read_field opts parent steps attr f rec acc st = read_field opts parent steps attr f rec' acc st"
proof -
  have "rec = rec'" using assms by (intro ext) simp
  then show ?thesis by simp
qed

definition fragmentKey :: string where
  "fragmentKey = '' $fragments''"

definition fragment_values :: "read_opts \<Rightarrow> string \<Rightarrow> (string \<times> fragment_info) list \<Rightarrow> gval" where
  "fragment_values opts parent frs =
     GObj [(''loading'', GBool (ro_loading opts)),
           (''values'', GObj (map (\<lambda>(name, fr). (name, GObj [(''parent'', GStr parent),
                (''variables'', GObj (evaluateVariables (fr_arguments fr) (ro_variables opts)))]))
              (filter (\<lambda>(name, fr). \<not> ro_loading opts \<or> flag (fr_loading fr)) frs)))]"

definition read_start :: "read_opts \<Rightarrow> string \<Rightarrow> selection \<Rightarrow> read_state" where
  "read_start opts parent sel =
     \<lparr>rs_target = (case s_fragments sel of None \<Rightarrow> [] | Some frs \<Rightarrow> [(fragmentKey, fragment_values opts parent frs)]),
      rs_hasData = (s_fragments sel \<noteq> None), rs_partial = False, rs_cascade = False, rs_stale = False\<rparr>"

definition read_finish :: "read_opts \<Rightarrow> read_state \<Rightarrow> sel_result" where
  "read_finish opts acc =
     \<lparr>sr_data = (if rs_cascade acc then GNull else GObj (rs_target acc)),
      sr_partial = \<not> ro_loading opts \<and> rs_hasData acc \<and> rs_partial acc,
      sr_stale = rs_hasData acc \<and> rs_stale acc,
      sr_hasData = rs_hasData acc\<rparr>"

definition null_result :: sel_result where
  "null_result = \<lparr>sr_data = GNull, sr_partial = False, sr_stale = False, sr_hasData = True\<rparr>"

function getSelection :: "read_opts \<Rightarrow> selection \<Rightarrow> string option \<Rightarrow> nat option \<Rightarrow> storage \<Rightarrow> sel_result \<times> storage" where
  "getSelection opts sel None steps st = (null_result, st)"
| "getSelection opts sel (Some parent) steps st =
     (case getTypename parent st of
        (tn, st1) \<Rightarrow>
          (case fold (\<lambda>(attr, f) (acc, st).
              if skip_field opts f then (acc, st)
              else read_field opts parent steps attr f
                (\<lambda>p k st. case f_selection f of None \<Rightarrow> (null_result, st) | Some inner \<Rightarrow> getSelection opts inner p k st)
                acc st)
              (fields_for_type sel (tn_of tn) (ro_loading opts)) (read_start opts parent sel, st1) of
            (acc, st2) \<Rightarrow> (read_finish opts acc, st2)))"
  by pat_completeness auto
termination
  by (relation "measure (\<lambda>(opts, s, p, k, st). sel_depth s)")
     (auto dest!: fields_for_type_field sub_selection_depth)

declare getSelection.simps(2) [simp del]

text \<open>\<open>Cache.read\<close>.\<close>

definition opts_of :: "cache_state \<Rightarrow> gobj \<Rightarrow> read_opts" where
  "opts_of cs variables = \<lparr>ro_config = cs_config cs, ro_variables = variables, ro_ignoreMasking = False,
     ro_fullCheck = False, ro_loading = False, ro_stale = cs_stale cs\<rparr>"

definition cache_getSelection :: "read_opts \<Rightarrow> selection \<Rightarrow> string \<Rightarrow> cache_state \<Rightarrow> sel_result \<times> cache_state" where
  "cache_getSelection opts sel parent cs =
     (case getSelection opts sel (Some parent) None (cs_storage cs) of (r, st) \<Rightarrow> (r, cs\<lparr>cs_storage := st\<rparr>))"

definition cache_read :: "read_opts \<Rightarrow> selection \<Rightarrow> string \<Rightarrow> cache_state \<Rightarrow> (gval \<times> bool \<times> bool) \<times> cache_state" where
  "cache_read opts sel parent cs =
     (case cache_getSelection opts sel parent cs of
        (r, cs1) \<Rightarrow> ((if sr_hasData r then (sr_data r, sr_partial r, sr_stale r) else (GNull, False, False)), cs1))"

text \<open>The message that a subscriber gets.\<close>

definition update_message :: "subscription_spec \<Rightarrow> cache_state \<Rightarrow> cache_state" where
  "update_message spec cs =
     (let (r, cs1) = cache_getSelection (opts_of cs (case sp_variables spec of None \<Rightarrow> [] | Some vs \<Rightarrow> vs))
            (sp_selection spec) (or_root (sp_parentID spec)) cs
      in cs1\<lparr>cs_outbox := cs_outbox cs1 @ [(sp_onMessage spec, Update (sr_data r))]\<rparr>)"

definition notify_one :: "subscription_spec \<Rightarrow> nat list \<times> cache_state \<Rightarrow> nat list \<times> cache_state" where
  "notify_one spec acc =
     (if sp_onMessage spec \<in> set (fst acc) then acc
      else (fst acc @ [sp_onMessage spec], update_message spec (snd acc)))"

definition notifySubscribers :: "subscription_spec list \<Rightarrow> cache_state \<Rightarrow> cache_state" where
  "notifySubscribers subs cs =
     (if subs = [] then cs
      else snd (fold notify_one subs ([], cs\<lparr>cs_epoch := Suc (cs_epoch cs)\<rparr>)))"

end
