(* ===== verification/ListOps.thy ===== *)
theory ListOps
  imports CacheRead
begin

section \<open>Removing from lists, deleting records\<close>

text \<open>
  The operations of \<open>List\<close>, \<open>ListCollection\<close> and \<open>ListManager\<close> that remove
  (\<^verbatim>\<open>runtime/cache/lists.ts\<close>), and \<open>Cache.delete\<close> (\<^verbatim>\<open>index.ts\<close>). The ones that insert are mutually
  recursive with the writer and stand in \<^verbatim>\<open>CacheWrite\<close>.
\<close>

definition listType :: "list_handler \<Rightarrow> gval \<Rightarrow> string" where
  "listType h data = (let t = gprop data ''__typename'' in if truthy t then js_string t else lh_type h)"

text \<open>\<open>value?.includes(id)\<close>: membership in an array, or part of a text.\<close>

definition link_includes :: "gval \<Rightarrow> string \<Rightarrow> bool" where
  "link_includes v t = (case v of GArr vs \<Rightarrow> GStr t \<in> set vs | GStr s \<Rightarrow> sublist t s | _ \<Rightarrow> False)"

text \<open>\<open>flatten(edges) || []\<close>.\<close>

definition flat_ids :: "gval \<Rightarrow> string list" where
  "flat_ids v = (case v of GArr vs \<Rightarrow> map js_string (flatten vs) | _ \<Rightarrow> [])"

definition edge_of_node :: "cache_state \<Rightarrow> string \<Rightarrow> string list \<Rightarrow> string" where
  "edge_of_node cs i edges =
     fold (\<lambda>e t. if read_value (cs_storage cs) e ''node'' = GStr i \<and> i \<noteq> [] then e else t) edges i"

text \<open>Where the list lives and what is removed from it; \<open>None\<close> when the connection is not in the cache.\<close>

definition removal_target :: "cache_state \<Rightarrow> list_handler \<Rightarrow> string \<Rightarrow> (string \<times> string \<times> string) option" where
  "removal_target cs h i =
     (if lh_connection h then
        (let c = read_value (cs_storage cs) (lh_recordID h) (lh_key h)
         in if \<not> truthy c then None
            else Some (js_string c, ''edges'',
                   edge_of_node cs i (flat_ids (read_value (cs_storage cs) (js_string c) ''edges''))))
      else Some (lh_recordID h, lh_key h, i))"

definition element_selection :: "list_handler \<Rightarrow> js_error + selection" where
  "element_selection h =
     (if \<not> lh_connection h then Inr (lh_selection h)
      else (case Option.bind (s_fields (lh_selection h)) (\<lambda>m. map_of m ''edges'') of
              None \<Rightarrow> Inl (TypeError ''selection of undefined'')
            | Some f \<Rightarrow> Inr (the_selection (f_selection f))))"

definition list_removeID :: "list_handler \<Rightarrow> string \<Rightarrow> gobj \<Rightarrow> nat option \<Rightarrow> cache_state \<Rightarrow> js_error + bool \<times> cache_state" where
  "list_removeID h i variables layer cs =
     (if \<not> validateWhen h None then Inr (False, cs)
      else
        (case removal_target cs h i of
           None \<Rightarrow> Inr (False, cs)
         | Some (parentID, targetKey, targetID) \<Rightarrow>
             (if \<not> link_includes (read_value (cs_storage cs) parentID targetKey) targetID then Inr (False, cs)
              else
                (let subs = map fst (subs_get (cs_subs cs) (lh_recordID h) (lh_key h));
                     masked = map fst (getMaskedParents (cs_subs cs) (lh_recordID h) (lh_key h))
                 in sbind (element_selection h) (\<lambda>sel.
                      let cs1 = subs_remove targetID sel subs variables False cs;
                          cs2 = (if masked = [] then cs1 else subs_remove targetID sel masked variables True cs1)
                      in sbind (on_storage_err (storage_remove parentID targetKey targetID layer) cs2) (\<lambda>cs3.
                           Inr (True, fold update_message subs cs3)))))))"

definition list_remove :: "list_handler \<Rightarrow> gval \<Rightarrow> gobj \<Rightarrow> nat option \<Rightarrow> cache_state \<Rightarrow> js_error + bool \<times> cache_state" where
  "list_remove h data variables layer cs =
     (case cache_id (cs_config cs) (listType h data) data of
        None \<Rightarrow> Inr (False, cs)
      | Some targetID \<Rightarrow> list_removeID h targetID variables layer cs)"

definition lists_removeID :: "string \<Rightarrow> gobj \<Rightarrow> nat option \<Rightarrow> list_handler list \<Rightarrow> cache_state \<Rightarrow> js_error + cache_state" where
  "lists_removeID i variables layer hs =
     sfold (\<lambda>h cs. sbind (list_removeID h i variables layer cs) (\<lambda>r. Inr (snd r))) hs"

definition collection_remove :: "list_handler list \<Rightarrow> gval \<Rightarrow> gobj \<Rightarrow> nat option \<Rightarrow> cache_state \<Rightarrow> js_error + cache_state" where
  "collection_remove hs data variables layer =
     sfold (\<lambda>h cs. sbind (list_remove h data variables layer cs) (\<lambda>r. Inr (snd r))) hs"

definition all_handlers :: "list_manager \<Rightarrow> list_handler list" where
  "all_handlers lm = concat (map (\<lambda>(name, m). concat (map (\<lambda>(p, r). collection lm r) m)) (lm_lists lm))"

definition removeIDFromAllLists :: "string \<Rightarrow> nat option \<Rightarrow> cache_state \<Rightarrow> js_error + cache_state" where
  "removeIDFromAllLists i layer cs = lists_removeID i [] layer (all_handlers (cs_lists cs)) cs"

text \<open>Iterating over a list: the ids of its elements, the edges of a connection.\<close>

definition list_entries :: "cache_state \<Rightarrow> list_handler \<Rightarrow> gval list" where
  "list_entries cs h =
     (let v = read_value (cs_storage cs) (lh_recordID h) (lh_key h)
      in if lh_connection h
         then (case read_value (cs_storage cs) (js_string v) ''edges'' of GArr es \<Rightarrow> es | _ \<Rightarrow> [])
         else (case v of GArr vs \<Rightarrow> flatten vs | _ \<Rightarrow> []))"

subsection \<open>Deleting a record\<close>

definition known_ids :: "cache_state \<Rightarrow> string \<Rightarrow> string list" where
  "known_ids cs i = filter (\<lambda>x. x \<noteq> []) [oget [] (idMaps (cs_storage cs)) i, i]"

definition delete_record :: "nat option \<Rightarrow> string \<Rightarrow> cache_state \<Rightarrow> js_error + cache_state" where
  "delete_record layer i cs =
     sbind (removeIDFromAllLists i layer (removeAllSubscribers i None cs)) (\<lambda>cs1.
       Inr (on_storage (storage_delete i layer) cs1))"

definition cache_delete :: "string \<Rightarrow> nat option \<Rightarrow> cache_state \<Rightarrow> js_error + cache_state" where
  "cache_delete i layer cs = sfold (delete_record layer) (known_ids cs i) cs"

text \<open>\<open>Cache.list\<close>.\<close>

definition cache_list :: "cache_state \<Rightarrow> string \<Rightarrow> string option \<Rightarrow> bool \<Rightarrow> string list option \<Rightarrow> js_error + list_handler list" where
  "cache_list cs name parentID allLists skip =
     sbind (lists_get (cs_config cs) (cs_lists cs) name parentID allLists skip) (\<lambda>r.
       case r of
         None \<Rightarrow> Inl (Thrown (''Cannot find list with name: '' @ name
           @ (case parentID of Some (c # p) \<Rightarrow> '' under parent '' @ c # p | _ \<Rightarrow> [])
           @ ''. Is it possible that the query is not mounted?''))
       | Some hs \<Rightarrow> Inr hs)"

end
