(* ===== verification/CacheWrite.thy ===== *)
theory CacheWrite
  imports ListOps
begin

section \<open>Writing a selection into the cache\<close>

text \<open>
  \<open>writeSelection\<close> and \<open>extractNestedListIDs\<close> of \<^verbatim>\<open>runtime/cache/index.ts\<close>, with the list operations that
  write in turn (\<open>addToList\<close>, \<open>toggleElement\<close>, \<open>upsertInList\<close> of \<^verbatim>\<open>lists.ts\<close>).

  The state of the walk is the cache and the set \<open>toNotify\<close>; specs are told apart by their content. The
  subscribers of a field are read once, before the field is written. The definitions below take the
  recursive writer as a parameter: \<open>rec_in\<close> writes with the selection of the field at hand, \<open>rec_op\<close> is
  used by the operations of the field. \<open>writeSelection\<close> ties the knot at the end: it ends because every
  call has fewer nested operations or a shallower selection.
\<close>

record write_args =
  wa_variables :: gobj
  wa_applyUpdates :: "string list option"
  wa_layer :: nat
  wa_forceNotify :: bool
  wa_forceStale :: bool

type_synonym wstate = "cache_state \<times> subscription_spec list"
type_synonym writer = "string \<Rightarrow> gobj \<Rightarrow> write_args \<Rightarrow> wstate \<Rightarrow> js_error + wstate"

definition add_specs :: "field_selection list \<Rightarrow> subscription_spec list \<Rightarrow> subscription_spec list" where
  "add_specs subs toNotify = fold (\<lambda>sub. sadd (fst sub)) subs toNotify"

definition is_map :: "gval \<Rightarrow> bool" where
  "is_map v = (case v of GObj ps \<Rightarrow> True | _ \<Rightarrow> False)"

definition map_entries :: "gval \<Rightarrow> gobj" where
  "map_entries v = (case v of GObj ps \<Rightarrow> ps | _ \<Rightarrow> [])"

definition layer_of :: "cache_state \<Rightarrow> nat \<Rightarrow> layer" where
  "layer_of cs n = (case find (\<lambda>l. lid l = n) (sdata (cs_storage cs)) of Some l \<Rightarrow> l | None \<Rightarrow> new_layer n False)"

subsection \<open>What a field is before it is written\<close>

record field_ctx =
  fc_parent :: string
  fc_key :: string
  fc_type :: string
  fc_field :: field
  fc_subs :: "field_selection list"
  fc_masked :: "field_selection list"
  fc_previous :: gval
  fc_display :: bool

definition fc_specs :: "field_ctx \<Rightarrow> subscription_spec list" where
  "fc_specs c = map fst (fc_subs c) @ map fst (fc_masked c)"

definition linked_type :: "string \<Rightarrow> gval \<Rightarrow> string" where
  "linked_type ty v = (let t = gprop v ''__typename'' in if truthy t then js_string t else ty)"

definition field_context :: "string \<Rightarrow> field \<Rightarrow> gval \<Rightarrow> write_args \<Rightarrow> cache_state \<Rightarrow> field_ctx" where
  "field_context parent f v wa cs =
     (let key = evaluateKey (f_keyRaw f) (wa_variables wa);
          r = storage_get (cs_storage cs) parent key
      in \<lparr>fc_parent = parent, fc_key = key, fc_type = linked_type (f_type f) v, fc_field = f,
          fc_subs = subs_get (cs_subs cs) parent key, fc_masked = getMaskedParents (cs_subs cs) parent key,
          fc_previous = rr_value r, fc_display = isDisplayLayer (layer_of cs (wa_layer wa)) (rr_layers r)\<rparr>)"

definition touch_field :: "field_ctx \<Rightarrow> write_args \<Rightarrow> cache_state \<Rightarrow> cache_state" where
  "touch_field c wa cs =
     (if fc_display c then
        (let cs1 = resetLifetime (fc_parent c) (fc_key c) cs
         in on_stale (if wa_forceStale wa then markFieldStale (fc_parent c) (fc_key c)
                      else setFieldTimeToNow (cs_now cs1) (fc_parent c) (fc_key c)) cs1)
      else cs)"

subsection \<open>Scalars\<close>

definition append_value :: "gval \<Rightarrow> gval list \<Rightarrow> js_error + gval" where
  "append_value prev vs =
     (case prev of
        GArr ps \<Rightarrow> Inr (GArr (ps @ vs))
      | _ \<Rightarrow> if truthy prev then Inl (TypeError ''concat is not a function'') else Inr (GArr vs))"

definition prepend_value :: "gval \<Rightarrow> gval list \<Rightarrow> gval" where
  "prepend_value prev vs =
     (case prev of GArr ps \<Rightarrow> GArr (vs @ ps) | _ \<Rightarrow> if truthy prev then GArr (vs @ [prev]) else GArr vs)"

definition accepts :: "string list option \<Rightarrow> string \<Rightarrow> bool" where
  "accepts updates u = (case updates of None \<Rightarrow> False | Some us \<Rightarrow> u \<in> set us)"

definition updated_scalar :: "string list option \<Rightarrow> string list option \<Rightarrow> gval \<Rightarrow> gval \<Rightarrow> js_error + gval" where
  "updated_scalar updates applyUpdates prev v =
     sbind (case (updates, applyUpdates, v) of
              (Some us, Some as, GArr vs) \<Rightarrow>
                sfold (\<lambda>u new. if u \<notin> set us then Inr new
                  else if u = ''append'' then append_value prev vs
                  else if u = ''prepend'' then Inr (prepend_value prev vs)
                  else Inr new) as v
            | _ \<Rightarrow> Inr v) (\<lambda>new.
       Inr (if updates \<noteq> None \<and> (case applyUpdates of None \<Rightarrow> False | Some as \<Rightarrow> list_ex (\<lambda>u. \<not> accepts updates u) as)
            then prev else new))"

definition write_scalar :: "field_ctx \<Rightarrow> gval \<Rightarrow> write_args \<Rightarrow> wstate \<Rightarrow> js_error + wstate" where
  "write_scalar c v wa ws =
     (case ws of (cs, toNotify) \<Rightarrow>
       sbind (updated_scalar (fi_updates (f_info (fc_field c))) (wa_applyUpdates wa) (fc_previous c) v) (\<lambda>new.
         let notify = fc_display c \<and> (\<not> deepEquals new (fc_previous c) \<or> wa_forceNotify wa);
             cs1 = on_storage (on_layer (wa_layer wa) (layer_writeField (fc_parent c) (fc_key c) new)) cs;
             cs2 = (case new of
                GStr t \<Rightarrow> (if fc_key c = ''__typename''
                   then on_storage (\<lambda>st. st\<lparr>typenames := oset (fc_parent c) (GStr t) (typenames st)\<rparr>) cs1 else cs1)
              | _ \<Rightarrow> cs1)
         in Inr (cs2, if notify then add_specs (fc_subs c) toNotify else toNotify)))"

subsection \<open>Links\<close>

definition write_link_at :: "field_ctx \<Rightarrow> gval \<Rightarrow> write_args \<Rightarrow> cache_state \<Rightarrow> js_error + cache_state" where
  "write_link_at c v wa = on_storage_err (on_layer_err (wa_layer wa) (layer_writeLink (fc_parent c) (fc_key c) v))"

definition forget_links :: "field_ctx \<Rightarrow> string list \<Rightarrow> selection \<Rightarrow> write_args \<Rightarrow> cache_state \<Rightarrow> cache_state" where
  "forget_links c ids inner wa cs =
     fold (\<lambda>l. subs_remove l inner (fc_specs c) (wa_variables wa) False) ids cs"

text \<open>The subscribers of the field are copied to a record it now links to.\<close>

definition adopt :: "field_ctx \<Rightarrow> write_args \<Rightarrow> string \<Rightarrow> cache_state \<Rightarrow> cache_state" where
  "adopt c wa i cs =
     (let cs1 = addMany i (wa_variables wa) (fc_subs c) (fc_type c) False cs
      in if fc_masked c = [] then cs1 else addMany i (wa_variables wa) (fc_masked c) (fc_type c) True cs1)"

text \<open>The second result says that the field is done and its operations are not looked at.\<close>

definition write_null :: "field_ctx \<Rightarrow> selection \<Rightarrow> write_args \<Rightarrow> wstate \<Rightarrow> js_error + wstate \<times> bool" where
  "write_null c inner wa ws =
     (case ws of (cs, toNotify) \<Rightarrow>
       if fc_previous c = GNull then Inr (ws, True)
       else
         (let cs1 = forget_links c (map js_string (flatten [fc_previous c])) inner wa cs
          in sbind (write_link_at c GNull wa cs1) (\<lambda>cs2. Inr ((cs2, add_specs (fc_subs c) toNotify), False))))"

definition no_typename :: js_error where
  "no_typename = Thrown ''Encountered interface type without __typename in the payload''"

definition inner_args :: "write_args \<Rightarrow> write_args" where
  "inner_args wa = wa\<lparr>wa_forceStale := False\<rparr>"

definition linked_id :: "config \<Rightarrow> field_ctx \<Rightarrow> gval \<Rightarrow> string option" where
  "linked_id cfg c v =
     (if isEmbedded cfg (fc_type c) v then Some (fc_parent c @ ''.'' @ fc_key c) else cache_id cfg (fc_type c) v)"

definition link_value :: "string option \<Rightarrow> gval" where
  "link_value i = (case i of None \<Rightarrow> GNull | Some s \<Rightarrow> GStr s)"

definition write_object :: "writer \<Rightarrow> field_ctx \<Rightarrow> selection \<Rightarrow> gval \<Rightarrow> write_args \<Rightarrow> wstate \<Rightarrow> js_error + wstate" where
  "write_object rec_in c inner v wa ws =
     (case ws of (cs, toNotify) \<Rightarrow>
       if flag (fi_abstract (f_info (fc_field c))) \<and> \<not> truthy (gprop v ''__typename'') then Inl no_typename
       else
         (let linkedID = linked_id (cs_config cs) c v;
              linkChange = (link_value linkedID \<noteq> fc_previous c)
          in sbind (write_link_at c (link_value linkedID) wa cs) (\<lambda>cs1.
               case linkedID of
                 None \<Rightarrow> Inr (cs1, toNotify)
               | Some i \<Rightarrow>
                   (if i = [] then Inr (cs1, toNotify)
                    else
                      (let relink = fc_display c \<and> (linkChange \<or> wa_forceNotify wa);
                           cs2 = (case fc_previous c of
                              GStr p \<Rightarrow> (if relink \<and> p \<noteq> [] then forget_links c [p] inner wa cs1 else cs1)
                            | _ \<Rightarrow> cs1);
                           cs3 = (if relink then adopt c wa i cs2 else cs2)
                       in rec_in i (map_entries v) (inner_args wa)
                            (cs3, if relink then add_specs (fc_subs c) toNotify else toNotify))))))"

subsection \<open>Lists of links\<close>

text \<open>\<open>nestedIDs[i] = v\<close>: positions in between that were never written read as undefined.\<close>

definition array_set :: "nat \<Rightarrow> gval \<Rightarrow> gval list \<Rightarrow> gval list" where
  "array_set i v xs = (if i < length xs then xs[i := v] else xs @ replicate (i - length xs) GUndef @ [v])"

definition previous_at :: "gval list option \<Rightarrow> nat \<Rightarrow> gval" where
  "previous_at prev i = (case prev of None \<Rightarrow> GUndef | Some ps \<Rightarrow> if i < length ps then ps ! i else GUndef)"

definition embedded_prefix :: "field_ctx \<Rightarrow> string" where
  "embedded_prefix c = fc_parent c @ ''.'' @ fc_key c @ ''[''"

text \<open>The id of one entry: its own, or an embedded one that takes over the previous entry's key.\<close>

definition entry_id :: "field_ctx \<Rightarrow> gval \<Rightarrow> gval \<Rightarrow> cache_state \<Rightarrow> string option \<times> cache_state" where
  "entry_id c prev entry cs =
     (let (embedded, cs1) =
            (case prev of
               GStr p \<Rightarrow> if prefix (embedded_prefix c) p then (p, cs)
                 else (case nextRank (cs_storage cs) of (n, st) \<Rightarrow> (embedded_prefix c @ js_of_nat n @ '']'', cs\<lparr>cs_storage := st\<rparr>))
             | _ \<Rightarrow> (case nextRank (cs_storage cs) of (n, st) \<Rightarrow> (embedded_prefix c @ js_of_nat n @ '']'', cs\<lparr>cs_storage := st\<rparr>)))
      in if isEmbedded (cs_config cs) (fc_type c) entry then (Some embedded, cs1)
         else (cache_id (cs_config cs) (linked_type (fc_type c) entry) entry, cs1))"

text \<open>\<open>extractNestedListIDs\<close>: the accumulator is the position, the nested ids, the flat ids and the state.\<close>

record id_acc =
  ia_pos :: nat
  ia_nested :: "gval list"
  ia_new :: "gval list"

definition start_ids :: id_acc where
  "start_ids = \<lparr>ia_pos = 0, ia_nested = [], ia_new = []\<rparr>"

definition push_id :: "gval \<Rightarrow> gval list \<Rightarrow> id_acc \<Rightarrow> id_acc" where
  "push_id nested new a =
     \<lparr>ia_pos = Suc (ia_pos a), ia_nested = array_set (ia_pos a) nested (ia_nested a), ia_new = ia_new a @ new\<rparr>"

fun extractNestedListIDs :: "writer \<Rightarrow> field_ctx \<Rightarrow> write_args \<Rightarrow> gval list option \<Rightarrow> gval list
    \<Rightarrow> id_acc \<Rightarrow> wstate \<Rightarrow> js_error + id_acc \<times> wstate" where
  "extractNestedListIDs rec_in c wa prev [] a ws = Inr (a, ws)"
| "extractNestedListIDs rec_in c wa prev (GArr xs # es) a ws =
     sbind (extractNestedListIDs rec_in c wa
              (case previous_at prev (ia_pos a) of GArr ps \<Rightarrow> Some ps | _ \<Rightarrow> None) xs start_ids ws) (\<lambda>(inner, ws1).
       extractNestedListIDs rec_in c wa prev es (push_id (GArr (ia_nested inner)) (ia_new inner) a) ws1)"
| "extractNestedListIDs rec_in c wa prev (GNull # es) a ws =
     extractNestedListIDs rec_in c wa prev es (push_id GNull [GNull] a) ws"
| "extractNestedListIDs rec_in c wa prev (GUndef # es) a ws =
     extractNestedListIDs rec_in c wa prev es (push_id GNull [GNull] a) ws"
| "extractNestedListIDs rec_in c wa prev (e # es) a ws =
     (case entry_id c (previous_at prev (ia_pos a)) e (fst ws) of
        (i, cs1) \<Rightarrow>
          (if flag (fi_abstract (f_info (fc_field c))) \<and> \<not> truthy (gprop e ''__typename'') then Inl no_typename
           else
             (case i of
                None \<Rightarrow> extractNestedListIDs rec_in c wa prev es (a\<lparr>ia_pos := Suc (ia_pos a)\<rparr>) (cs1, snd ws)
              | Some s \<Rightarrow>
                  sbind (rec_in s (map_entries e) (inner_args wa) (cs1, snd ws)) (\<lambda>ws1.
                    extractNestedListIDs rec_in c wa prev es (push_id (GStr s) [GStr s] a) ws1))))"

text \<open>The ids that some list operation on the key, in any layer and record, names.\<close>

definition operated_ids :: "storage \<Rightarrow> string \<Rightarrow> string list" where
  "operated_ids st key =
     concat (map (\<lambda>l. concat (map (\<lambda>(i, e). map op_id (oget [] (entry_fields (Some e)) key)) (operations l))) (sdata st))"

definition old_ids :: "field_ctx \<Rightarrow> storage \<Rightarrow> gval list" where
  "old_ids c st =
     (let prev = (case fc_previous c of GArr vs \<Rightarrow> vs | _ \<Rightarrow> []);
          ups = fi_updates (f_info (fc_field c))
      in if accepts ups ''append'' \<or> accepts ups ''prepend''
         then filter (\<lambda>v. case v of GStr i \<Rightarrow> i \<notin> set (operated_ids st (fc_key c)) | _ \<Rightarrow> True) prev
         else prev)"

text \<open>The id of the node that an edge holds; \<open>None\<close> when the edge has no node.\<close>

definition node_id :: "storage \<Rightarrow> gval \<Rightarrow> gval option" where
  "node_id st e =
     (if \<not> truthy e then None
      else (let node = read_value st (js_string e) ''node''
            in if truthy node then Some (read_value st (js_string node) ''id'') else None))"

definition filterIDs :: "storage \<Rightarrow> gval list \<Rightarrow> gval list \<Rightarrow> gval list" where
  "filterIDs st keep ins =
     (let existing = List.map_filter (node_id st) keep
      in filter (\<lambda>e. case node_id st e of None \<Rightarrow> True | Some n \<Rightarrow> n \<notin> set existing) ins)"

datatype list_action = WriteLinks | InsertAt op_location

definition list_update_step :: "storage \<Rightarrow> bool \<Rightarrow> string list \<Rightarrow> gval list \<Rightarrow> gval list \<Rightarrow> string
    \<Rightarrow> gval list \<times> list_action \<Rightarrow> gval list \<times> list_action" where
  "list_update_step st opt us newIDs oldIDs u acc =
     (if u \<noteq> ''replace'' \<and> u \<notin> set us then acc
      else if u = ''prepend'' then (newIDs @ filterIDs st newIDs oldIDs, if opt then InsertAt LocStart else snd acc)
      else if u = ''append'' then (filterIDs st newIDs oldIDs @ newIDs, if opt then InsertAt LocEnd else snd acc)
      else if u = ''replace'' then (newIDs, snd acc)
      else acc)"

definition linked_ids :: "field_ctx \<Rightarrow> write_args \<Rightarrow> storage \<Rightarrow> gval list \<Rightarrow> gval list \<Rightarrow> gval list \<Rightarrow> gval list \<times> list_action" where
  "linked_ids c wa st oldIDs nestedIDs newIDs =
     (case (wa_applyUpdates wa, fi_updates (f_info (fc_field c))) of
        (Some as, Some us) \<Rightarrow>
          fold (list_update_step st (case find (\<lambda>l. lid l = wa_layer wa) (sdata st) of Some l \<Rightarrow> optimistic l | None \<Rightarrow> False)
                  us newIDs oldIDs) as ([], WriteLinks)
      | _ \<Rightarrow> (nestedIDs, WriteLinks))"

function flat_infinity :: "gval list \<Rightarrow> gval list" where
  "flat_infinity [] = []"
| "flat_infinity (GArr xs # es) = flat_infinity xs @ flat_infinity es"
| "\<not> is_arr e \<Longrightarrow> flat_infinity (e # es) = e # flat_infinity es"
  by (auto, metis is_arr.elims(2) list.exhaust)
termination
  by (relation "measure (\<lambda>xs. size_list size xs)") auto

lemma flat_infinity_code [code]:
  "flat_infinity [] = []"
  "flat_infinity (e # es) = (case e of GArr xs \<Rightarrow> flat_infinity xs @ flat_infinity es | _ \<Rightarrow> e # flat_infinity es)"
  by (simp_all split: gval.split)

text \<open>A record that fell out of the list loses its subscribers, and its data if the list embedded it.\<close>

definition lose_id :: "field_ctx \<Rightarrow> selection \<Rightarrow> write_args \<Rightarrow> gval list \<Rightarrow> gval \<Rightarrow> cache_state \<Rightarrow> cache_state" where
  "lose_id c inner wa kept lost cs =
     (if \<not> truthy lost \<or> (\<not> is_arr lost \<and> lost \<in> set kept) then cs
      else
        (let cs1 = forget_links c [js_string lost] inner wa cs
         in case lost of
              GStr l \<Rightarrow>
                (if \<not> optimistic (layer_of cs1 (wa_layer wa)) \<and> prefix (embedded_prefix c) l
                 then on_stale (stale_deleteRecord l) (lifetimes_delete l (on_storage (removeEmbeddedRecord l) cs1))
                 else cs1)
            | _ \<Rightarrow> cs1))"

definition run_action :: "field_ctx \<Rightarrow> write_args \<Rightarrow> list_action \<Rightarrow> gval list \<Rightarrow> gval list \<Rightarrow> cache_state \<Rightarrow> js_error + cache_state" where
  "run_action c wa action linkedIDs newIDs cs =
     (case action of
        WriteLinks \<Rightarrow> write_link_at c (GArr linkedIDs) wa cs
      | InsertAt loc \<Rightarrow>
          sfold (\<lambda>t. on_storage_err (on_layer_err (wa_layer wa) (layer_insert (fc_parent c) (fc_key c) loc t)))
            (List.map_filter (\<lambda>v. case v of GStr t \<Rightarrow> if t = [] then None else Some t | _ \<Rightarrow> None) newIDs) cs)"

definition write_list :: "writer \<Rightarrow> field_ctx \<Rightarrow> selection \<Rightarrow> gval list \<Rightarrow> write_args \<Rightarrow> wstate \<Rightarrow> js_error + wstate" where
  "write_list rec_in c inner vs wa ws =
     (let oldIDs = old_ids c (cs_storage (fst ws));
          inserting = (case wa_applyUpdates wa of None \<Rightarrow> False
            | Some as \<Rightarrow> list_ex (\<lambda>u. u \<noteq> ''replace'' \<and> accepts (fi_updates (f_info (fc_field c))) u) as);
          prev = (case fc_previous c of GArr ps \<Rightarrow> (if inserting then None else Some ps) | _ \<Rightarrow> None)
      in sbind (extractNestedListIDs rec_in c wa prev vs start_ids ws) (\<lambda>(ids, cs1, toNotify1).
           let (linkedIDs, action) = linked_ids c wa (cs_storage cs1) oldIDs (ia_nested ids) (ia_new ids);
               contentChanged = (\<not> deepEquals (GArr linkedIDs) (GArr oldIDs) \<or> fc_previous c = GNull);
               toNotify2 = (if contentChanged \<or> wa_forceNotify wa then add_specs (fc_subs c) toNotify1 else toNotify1);
               cs2 = fold (lose_id c inner wa (flat_infinity linkedIDs)) oldIDs cs1
           in sbind (if contentChanged \<or> (oldIDs = [] \<and> ia_new ids = [])
                     then run_action c wa action linkedIDs (ia_new ids) cs2 else Inr cs2) (\<lambda>cs3.
                Inr (fold (\<lambda>v cs. case v of
                       GStr t \<Rightarrow> (if GStr t \<in> set oldIDs then cs else adopt c wa t cs)
                     | _ \<Rightarrow> cs) (ia_new ids) cs3, toNotify2))))"

text \<open>The dispatch on the value. A list over a link to a single record is not written.\<close>

definition write_value :: "writer \<Rightarrow> field_ctx \<Rightarrow> gval \<Rightarrow> write_args \<Rightarrow> wstate \<Rightarrow> js_error + wstate \<times> bool" where
  "write_value rec_in c v wa ws =
     (case f_selection (fc_field c) of
        None \<Rightarrow> sbind (write_scalar c v wa ws) (\<lambda>ws1. Inr (ws1, False))
      | Some inner \<Rightarrow>
          (if v = GNull then write_null c inner wa ws
           else if is_map v then sbind (write_object rec_in c inner v wa ws) (\<lambda>ws1. Inr (ws1, False))
           else
             (case v of
                GArr vs \<Rightarrow>
                  (if nullish (fc_previous c) \<or> is_arr (fc_previous c)
                   then sbind (write_list rec_in c inner vs wa ws) (\<lambda>ws1. Inr (ws1, False))
                   else Inr (ws, False))
              | _ \<Rightarrow> Inr (ws, False))))"

subsection \<open>Inserting into a list\<close>

definition plain_info :: "string \<Rightarrow> string \<Rightarrow> field_info" where
  "plain_info ty key =
     \<lparr>fi_type = ty, fi_keyRaw = key, fi_nullable = None, fi_operations = None, fi_list = None, fi_loading = None,
      fi_directives = None, fi_updates = None, fi_visible = None, fi_filters = None, fi_abstract = None,
      fi_abstractHasRequired = None, fi_component = None, fi_optimisticKey = None\<rparr>"

definition typename_field :: field where
  "typename_field = Field (plain_info ''String'' ''__typename'') None"

definition both_updates :: "string list option" where
  "both_updates = Some [''append'', ''prepend'']"

definition fields_only :: "(string \<times> field) list \<Rightarrow> selection" where
  "fields_only m = Selection None None (Some m) None"

definition with_typename :: "selection \<Rightarrow> selection" where
  "with_typename s = Selection (s_loadingTypes s) (s_fragments s)
     (Some (oset ''__typename'' typename_field (case s_fields s of None \<Rightarrow> [] | Some m \<Rightarrow> m))) (s_abstract s)"

text \<open>\<open>addToList\<close> wraps the selection and the data: under the list's key, and for a connection under
  \<open>edges\<close> and \<open>node\<close>.\<close>

definition insert_selection :: "list_handler \<Rightarrow> string \<Rightarrow> selection \<Rightarrow> selection" where
  "insert_selection h ty sel =
     (if lh_connection h then
        fields_only [(''newEntry'', Field (plain_info ''Connection'' (lh_key h)) (Some
          (fields_only [(''edges'', Field ((plain_info ''ConnectionEdge'' ''edges'')\<lparr>fi_updates := both_updates\<rparr>) (Some
            (fields_only [(''__typename'', typename_field),
                          (''node'', Field (plain_info ty ''node'') (Some (with_typename sel)))])))])))]
      else
        fields_only [(''newEntries'', Field ((plain_info ty (lh_key h))\<lparr>fi_updates := both_updates\<rparr>) (Some (with_typename sel)))])"

definition insert_data :: "list_handler \<Rightarrow> string \<Rightarrow> gval \<Rightarrow> gobj" where
  "insert_data h ty data =
     (let entry = GObj (oset ''__typename'' (GStr ty) (map_entries data))
      in if lh_connection h then
           [(''newEntry'', GObj [(''edges'', GArr [GObj [(''__typename'', GStr (ty @ ''Edge'')), (''node'', entry)]])])]
         else [(''newEntries'', GArr [entry])])"

text \<open>\<open>Cache.write\<close>, with the writer as a parameter. The result is what \<open>writeSelection\<close> returned.\<close>

type_synonym sel_writer = "selection \<Rightarrow> writer"

definition write_with :: "sel_writer \<Rightarrow> selection \<Rightarrow> string \<Rightarrow> gobj \<Rightarrow> write_args \<Rightarrow> subscription_spec list
    \<Rightarrow> cache_state \<Rightarrow> js_error + subscription_spec list \<times> cache_state" where
  "write_with rec_op sel parent data wa extra cs =
     sbind (getLayer (wa_layer wa) (cs_storage cs)) (\<lambda>l.
       sbind (rec_op sel parent data wa (cs, [])) (\<lambda>(cs1, toNotify).
         Inr (toNotify, notifySubscribers (toNotify @ extra) cs1)))"

definition op_args :: "write_args \<Rightarrow> string list option \<Rightarrow> write_args" where
  "op_args wa ups = wa\<lparr>wa_applyUpdates := ups, wa_forceNotify := False, wa_forceStale := False\<rparr>"

definition addToList :: "sel_writer \<Rightarrow> list_handler \<Rightarrow> selection \<Rightarrow> gval \<Rightarrow> position \<Rightarrow> write_args
    \<Rightarrow> cache_state \<Rightarrow> js_error + cache_state" where
  "addToList rec_op h sel data wher wa cs =
     (let ty = listType h data
      in if \<not> validateWhen h None \<or> cache_id (cs_config cs) ty data = None then Inr cs
         else sbind (write_with rec_op (insert_selection h ty sel) (lh_recordID h) (insert_data h ty data)
                (op_args wa (Some [if wher = First then ''prepend'' else ''append''])) [] cs) (\<lambda>r. Inr (snd r)))"

definition toggleElement :: "sel_writer \<Rightarrow> list_handler \<Rightarrow> selection \<Rightarrow> gval \<Rightarrow> position \<Rightarrow> write_args
    \<Rightarrow> cache_state \<Rightarrow> js_error + cache_state" where
  "toggleElement rec_op h sel data wher wa cs =
     sbind (list_remove h data (wa_variables wa) (Some (wa_layer wa)) cs) (\<lambda>(removed, cs1).
       if removed then Inr cs1 else addToList rec_op h sel data wher wa cs1)"

definition in_list :: "cache_state \<Rightarrow> list_handler \<Rightarrow> string \<Rightarrow> bool" where
  "in_list cs h i =
     (if lh_connection h then
        (let c = read_value (cs_storage cs) (lh_recordID h) (lh_key h)
         in truthy c \<and> list_ex (\<lambda>e. read_value (cs_storage cs) e ''node'' = GStr i)
              (flat_ids (read_value (cs_storage cs) (js_string c) ''edges'')))
      else link_includes (read_value (cs_storage cs) (lh_recordID h) (lh_key h)) i)"

text \<open>An element that is already in the list is written without a parent: to the root record.\<close>

definition upsertInList :: "sel_writer \<Rightarrow> list_handler \<Rightarrow> selection \<Rightarrow> gval \<Rightarrow> position \<Rightarrow> write_args
    \<Rightarrow> cache_state \<Rightarrow> js_error + cache_state" where
  "upsertInList rec_op h sel data wher wa cs =
     (case cache_id (cs_config cs) (listType h data) data of
        None \<Rightarrow> Inr cs
      | Some i \<Rightarrow>
          (if \<not> validateWhen h None then Inr cs
           else if in_list cs h i then
             sbind (write_with rec_op sel rootID (map_entries data) (op_args wa None) [] cs) (\<lambda>r. Inr (snd r))
           else addToList rec_op h sel data wher wa cs))"

subsection \<open>The operations of a field\<close>

text \<open>\<open>String(value)\<close> of a literal argument; other literals carry no \<open>value\<close>.\<close>

definition literal_text :: "value_node \<Rightarrow> string option" where
  "literal_text v =
     (case v of
        StringValue s \<Rightarrow> Some s | EnumValue s \<Rightarrow> Some s | FloatValue s \<Rightarrow> Some s | IntValue s \<Rightarrow> Some s
      | BooleanValue b \<Rightarrow> Some (if b then ''true'' else ''false'') | _ \<Rightarrow> None)"

definition operation_id :: "string \<Rightarrow> value_node option \<Rightarrow> gobj \<Rightarrow> js_error + string option" where
  "operation_id what v variables =
     (case v of
        None \<Rightarrow> Inr None
      | Some (Variable x) \<Rightarrow>
          (case prop_of variables x of
             GStr s \<Rightarrow> Inr (Some s) | _ \<Rightarrow> Inl (Thrown (what @ '' value must be a string'')))
      | Some lit \<Rightarrow> Inr (literal_text lit))"

definition given :: "string option \<Rightarrow> string option" where
  "given i = (case i of Some (c # cs) \<Rightarrow> Some (c # cs) | _ \<Rightarrow> None)"

definition find_lists :: "mutation_operation \<Rightarrow> string option \<Rightarrow> string option \<Rightarrow> string list option
    \<Rightarrow> cache_state \<Rightarrow> js_error + list_handler list" where
  "find_lists op parentID opaque skip cs =
     (case given opaque of
        Some o' \<Rightarrow> (case getByOpaqueID (cs_lists cs) o' skip of
            None \<Rightarrow> Inl (TypeError ''list is null'') | Some hs \<Rightarrow> Inr hs)
      | None \<Rightarrow> cache_list cs (case mo_list op of None \<Rightarrow> [] | Some n \<Rightarrow> n) parentID (mo_target_all op) skip)"

definition lists_exist :: "mutation_operation \<Rightarrow> string option \<Rightarrow> string option \<Rightarrow> cache_state \<Rightarrow> js_error + bool" where
  "lists_exist op parentID opaque cs =
     (case given (mo_list op) of
        None \<Rightarrow> Inr True
      | Some name \<Rightarrow>
          (case given opaque of
             Some o' \<Rightarrow> Inr (getByOpaqueID (cs_lists cs) o' None \<noteq> None)
           | None \<Rightarrow> sbind (lists_get (cs_config cs) (cs_lists cs) name parentID (mo_target_all op) None)
                       (\<lambda>r. Inr (r \<noteq> None))))"

definition op_position :: "mutation_operation \<Rightarrow> position" where
  "op_position op = (case mo_position op of None \<Rightarrow> Last | Some p \<Rightarrow> p)"

text \<open>The \<open>when\<close> of an upsert is compared as it is written, with its variables unresolved.\<close>

fun filter_literal :: "list_filter \<Rightarrow> gval" where
  "filter_literal (FLit kind v) = GObj [(''kind'', GStr kind), (''value'', v)]"
| "filter_literal (FVariable x) = GObj [(''kind'', GStr ''Variable''), (''value'', GStr x)]"
| "filter_literal (FObject fs) = GObj [(''kind'', GStr ''Object''), (''value'', GObj (map (\<lambda>(k, f). (k, filter_literal f)) fs))]"
| "filter_literal (FList fs) = GObj [(''kind'', GStr ''List''), (''value'', GArr (map filter_literal fs))]"

definition unresolved_when :: "op_when option \<Rightarrow> list_when option" where
  "unresolved_when wn =
     map_option (\<lambda>w. \<lparr>w_must = map_option (map (\<lambda>(k, f). (k, filter_literal f))) (ow_must w),
                      w_must_not = map_option (map (\<lambda>(k, f). (k, filter_literal f))) (ow_must_not w)\<rparr>) wn"

definition delete_target :: "string \<Rightarrow> gval \<Rightarrow> write_args \<Rightarrow> wstate \<Rightarrow> js_error + wstate" where
  "delete_target ty target wa ws =
     (case ws of (cs, toNotify) \<Rightarrow>
       (case cache_id (cs_config cs) ty target of
          None \<Rightarrow> Inr ws
        | Some i \<Rightarrow>
            sbind (cache_delete i (Some (wa_layer wa)) cs) (\<lambda>cs1.
              Inr (cs1, add_specs (filter (\<lambda>sub. sp_parentID (fst sub) \<noteq> Some i) (subs_getAll (cs_subs cs) i False)) toNotify))))"

definition apply_target :: "sel_writer \<Rightarrow> mutation_operation \<Rightarrow> selection option \<Rightarrow> string option \<Rightarrow> string option
    \<Rightarrow> string list \<Rightarrow> write_args \<Rightarrow> gval \<Rightarrow> wstate \<Rightarrow> js_error + wstate" where
  "apply_target rec_op op fsel parentID opaque processed wa target ws =
     (case ws of (cs, toNotify) \<Rightarrow>
       (case (if is_object target \<and> given (mo_list op) \<noteq> None \<and> mo_action op \<noteq> OpDelete then fsel else None) of
          Some sel \<Rightarrow>
            sbind (find_lists op parentID opaque (Some processed) cs) (\<lambda>hs.
              let wn = (if mo_action op = OpUpsert then unresolved_when (mo_when op)
                        else resolveWhen (mo_when op) (wa_variables wa));
                  chosen = when_lists wn hs
              in sbind (sfold (\<lambda>h cs.
                     case mo_action op of
                       OpInsert \<Rightarrow> addToList rec_op h sel target (op_position op) wa cs
                     | OpToggle \<Rightarrow> toggleElement rec_op h sel target (op_position op) wa cs
                     | OpUpsert \<Rightarrow> upsertInList rec_op h sel target (op_position op) wa cs
                     | _ \<Rightarrow> sbind (list_remove h target (wa_variables wa) (Some (wa_layer wa)) cs) (\<lambda>r. Inr (snd r)))
                   chosen cs) (\<lambda>cs1. Inr (cs1, toNotify)))
        | None \<Rightarrow>
            (if mo_action op = OpDelete \<and> truthy target
             then (case given (mo_type op) of None \<Rightarrow> Inr ws | Some ty \<Rightarrow> delete_target ty target wa ws)
             else Inr ws)))"

definition apply_operation :: "sel_writer \<Rightarrow> selection option \<Rightarrow> gval \<Rightarrow> write_args \<Rightarrow> mutation_operation
    \<Rightarrow> string list \<times> wstate \<Rightarrow> js_error + string list \<times> wstate" where
  "apply_operation rec_op fsel v wa op acc =
     (case acc of (processed, ws) \<Rightarrow>
       sbind (operation_id ''parentID'' (mo_parentID op) (wa_variables wa)) (\<lambda>parentID.
       sbind (operation_id ''listID'' (mo_listID op) (wa_variables wa)) (\<lambda>opaque.
       sbind (lists_exist op parentID opaque (fst ws)) (\<lambda>exists.
         if \<not> exists then Inr acc
         else
           sbind (sfold (apply_target rec_op op fsel parentID opaque processed wa)
                    (case v of GArr vs \<Rightarrow> vs | _ \<Rightarrow> [v]) ws) (\<lambda>ws1.
             if given (mo_list op) = None then Inr (processed, ws1)
             else sbind (find_lists op parentID opaque None (fst ws1)) (\<lambda>hs.
                    Inr (fold (\<lambda>h. sadd (fieldRef h)) hs processed, ws1)))))))"

definition apply_operations :: "sel_writer \<Rightarrow> field \<Rightarrow> gval \<Rightarrow> write_args \<Rightarrow> wstate \<Rightarrow> js_error + wstate" where
  "apply_operations rec_op f v wa ws =
     sbind (sfold (apply_operation rec_op (f_selection f) v wa)
              (case fi_operations (f_info f) of None \<Rightarrow> [] | Some ops \<Rightarrow> ops) ([], ws)) (\<lambda>r. Inr (snd r))"

text \<open>One field of the data.\<close>

definition write_field :: "writer \<Rightarrow> sel_writer \<Rightarrow> string \<Rightarrow> field \<Rightarrow> gval \<Rightarrow> write_args \<Rightarrow> wstate \<Rightarrow> js_error + wstate" where
  "write_field rec_in rec_op parent f v wa ws =
     (let c = field_context parent f v wa (fst ws)
      in sbind (write_value rec_in c v wa (touch_field c wa (fst ws), snd ws)) (\<lambda>(ws1, settled).
           if settled then Inr ws1 else apply_operations rec_op f v wa ws1))"

subsection \<open>The writer\<close>

text \<open>How many fields with operations lie below one another: what a list operation decreases.\<close>

definition has_ops :: "field_info \<Rightarrow> bool" where
  "has_ops i \<longleftrightarrow> (case fi_operations i of None \<Rightarrow> False | Some ops \<Rightarrow> ops \<noteq> [])"

fun sel_ops :: "selection \<Rightarrow> nat"
  and field_ops_depth :: "field \<Rightarrow> nat"
  and fields_ops :: "field_map \<Rightarrow> nat"
  and types_ops :: "(string, field_map) omap \<Rightarrow> nat" where
  "sel_ops (Selection l r fs ab) =
     max (case fs of None \<Rightarrow> 0 | Some m \<Rightarrow> fields_ops m) (case ab of None \<Rightarrow> 0 | Some (ts, tm) \<Rightarrow> types_ops ts)"
| "field_ops_depth (Field i so) =
     (case so of None \<Rightarrow> 0 | Some s \<Rightarrow> if has_ops i then Suc (sel_ops s) else sel_ops s)"
| "fields_ops [] = 0"
| "fields_ops ((k, f) # m) = max (field_ops_depth f) (fields_ops m)"
| "types_ops [] = 0"
| "types_ops ((k, m) # ts) = max (fields_ops m) (types_ops ts)"

lemma fields_ops_mem: "(k, f) \<in> set m \<Longrightarrow> field_ops_depth f \<le> fields_ops m"
  by (induction m) (auto simp: le_max_iff_disj)

lemma types_ops_mem: "map_of ts k = Some m \<Longrightarrow> fields_ops m \<le> types_ops ts"
  by (induction ts) (auto simp: le_max_iff_disj split: if_splits)

lemma fields_for_type_ops: "fields_ops (fields_for_type s tn False) \<le> sel_ops s"
  by (cases s) (auto simp: fields_for_type_def Let_def oget_def le_max_iff_disj split: option.splits dest: types_ops_mem)

lemma fields_ops_oset: "fields_ops (oset k f m) \<le> max (field_ops_depth f) (fields_ops m)"
  by (induction m) (auto simp: le_max_iff_disj)

lemma typename_field_ops [simp]: "field_ops_depth typename_field = 0"
  by (simp add: typename_field_def)

lemma with_typename_ops: "sel_ops (with_typename s) \<le> sel_ops s"
proof (cases s)
  case (Selection l r fs ab)
  let ?m = "case fs of None \<Rightarrow> [] | Some m \<Rightarrow> m"
  have "fields_ops (oset ''__typename'' typename_field ?m) \<le> fields_ops ?m"
    using fields_ops_oset [of "''__typename''" typename_field ?m] by simp
  then show ?thesis
    using Selection by (cases fs) (auto simp: with_typename_def le_max_iff_disj)
qed

lemma insert_selection_ops: "sel_ops (insert_selection h ty sel) \<le> sel_ops sel"
  using with_typename_ops [of sel] by (simp add: insert_selection_def fields_only_def has_ops_def plain_info_def)

subsubsection \<open>The recursive calls of the parts\<close>

lemma addToList_cong:
  assumes "\<And>s p d wa ws. sel_ops s \<le> sel_ops sel \<Longrightarrow> rec_op s p d wa ws = rec_op' s p d wa ws"
  shows "addToList rec_op h sel data wher wa cs = addToList rec_op' h sel data wher wa cs"
  by (simp add: addToList_def write_with_def Let_def assms insert_selection_ops)

lemma toggleElement_cong:
  assumes "\<And>s p d wa ws. sel_ops s \<le> sel_ops sel \<Longrightarrow> rec_op s p d wa ws = rec_op' s p d wa ws"
  shows "toggleElement rec_op h sel data wher wa cs = toggleElement rec_op' h sel data wher wa cs"
proof -
  have "addToList rec_op h sel data wher wa cs = addToList rec_op' h sel data wher wa cs" for cs
    by (rule addToList_cong) (rule assms)
  then show ?thesis by (simp add: toggleElement_def cong: if_cong)
qed

lemma upsertInList_cong:
  assumes "\<And>s p d wa ws. sel_ops s \<le> sel_ops sel \<Longrightarrow> rec_op s p d wa ws = rec_op' s p d wa ws"
  shows "upsertInList rec_op h sel data wher wa cs = upsertInList rec_op' h sel data wher wa cs"
proof -
  have "addToList rec_op h sel data wher wa cs = addToList rec_op' h sel data wher wa cs"
    by (rule addToList_cong) (rule assms)
  moreover have "write_with rec_op sel p d w x cs = write_with rec_op' sel p d w x cs" for p d w x
    by (simp add: write_with_def assms)
  ultimately show ?thesis by (simp add: upsertInList_def split: option.split)
qed

lemma apply_target_cong:
  assumes "\<And>sel s p d wa ws. fsel = Some sel \<Longrightarrow> sel_ops s \<le> sel_ops sel \<Longrightarrow> rec_op s p d wa ws = rec_op' s p d wa ws"
  shows "apply_target rec_op op fsel parentID opaque processed wa target ws
     = apply_target rec_op' op fsel parentID opaque processed wa target ws"
proof (cases fsel)
  case None
  then show ?thesis by (simp add: apply_target_def split: prod.split)
next
  case (Some sel)
  note rec = assms [OF Some]
  have "addToList rec_op h sel data wher wa cs = addToList rec_op' h sel data wher wa cs"
    "toggleElement rec_op h sel data wher wa cs = toggleElement rec_op' h sel data wher wa cs"
    "upsertInList rec_op h sel data wher wa cs = upsertInList rec_op' h sel data wher wa cs" for h data wher wa cs
    using rec by (intro addToList_cong toggleElement_cong upsertInList_cong; simp)+
  with Some show ?thesis
    by (cases "mo_action op") (simp_all add: apply_target_def split: prod.split)
qed

lemma write_field_cong [fundef_cong]:
  assumes "\<And>p d wa ws. rec_in p d wa ws = rec_in' p d wa ws"
    and "\<And>s p d wa ws. sel_ops s < field_ops_depth f \<Longrightarrow> rec_op s p d wa ws = rec_op' s p d wa ws"
  shows "write_field rec_in rec_op parent f v wa ws = write_field rec_in' rec_op' parent f v wa ws"
proof -
  have "rec_in = rec_in'" using assms(1) by (intro ext)
  moreover have "apply_operations rec_op f v wa ws = apply_operations rec_op' f v wa ws" for ws
  proof (cases "has_ops (f_info f)")
    case False
    then show ?thesis by (auto simp: apply_operations_def has_ops_def split: option.splits)
  next
    case True
    have "apply_target rec_op op (f_selection f) pid opq processed wa t w
        = apply_target rec_op' op (f_selection f) pid opq processed wa t w" for op pid opq processed t w
    proof (rule apply_target_cong)
      fix sel s p d wa ws
      assume "f_selection f = Some sel" "sel_ops s \<le> sel_ops sel"
      with True have "sel_ops s < field_ops_depth f" by (cases f) simp
      then show "rec_op s p d wa ws = rec_op' s p d wa ws" by (rule assms(2))
    qed
    then have "apply_target rec_op op (f_selection f) pid opq processed wa
        = apply_target rec_op' op (f_selection f) pid opq processed wa" for op pid opq processed
      by (intro ext)
    then have "apply_operation rec_op (f_selection f) v wa = apply_operation rec_op' (f_selection f) v wa"
      by (intro ext) (simp add: apply_operation_def cong: if_cong)
    then show ?thesis by (simp add: apply_operations_def)
  qed
  ultimately show ?thesis by (simp add: write_field_def Let_def cong: if_cong)
qed

lemma field_calls:
  assumes "map_of (fields_for_type sel tn False) name = Some f"
  shows "field_ops_depth f \<le> sel_ops sel" and "field_depth f \<le> sel_depth sel"
    and "f_selection f = Some inner \<Longrightarrow> sel_ops inner \<le> field_ops_depth f"
proof -
  have f: "(name, f) \<in> set (fields_for_type sel tn False)" using assms by (rule map_of_SomeD)
  then show "field_ops_depth f \<le> sel_ops sel" using fields_ops_mem fields_for_type_ops by (blast intro: order_trans)
  show "field_depth f \<le> sel_depth sel" using f by (rule fields_for_type_field)
  show "f_selection f = Some inner \<Longrightarrow> sel_ops inner \<le> field_ops_depth f" by (cases f) auto
qed

function writeSelection :: "selection \<Rightarrow> string \<Rightarrow> gobj \<Rightarrow> write_args \<Rightarrow> wstate \<Rightarrow> js_error + wstate" where
  "writeSelection sel parent data wa ws =
     (if cs_disabled (fst ws) then Inr ws
      else
        sfold (\<lambda>(name, v) ws.
          (case map_of (fields_for_type sel (tn_of (prop_of data ''__typename'')) False) name of
             None \<Rightarrow> Inr ws
           | Some f \<Rightarrow>
               write_field
                 (\<lambda>p d wa ws. case f_selection f of None \<Rightarrow> Inr ws | Some inner \<Rightarrow> writeSelection inner p d wa ws)
                 (\<lambda>s p d wa ws. writeSelection s p d wa ws) parent f v wa ws)) data ws)"
  by pat_completeness auto
termination
proof (relation "measures [\<lambda>(s, p, d, wa, ws). sel_ops s, \<lambda>(s, p, d, wa, ws). sel_depth s]", goal_cases)
  case (2 sel parent data wa ws x ws0 name v f p d wa' ws' inner)
  then show ?case using field_calls sub_selection_depth by fastforce
next
  case (3 sel parent data wa ws x ws0 name v f s p d wa' ws')
  then show ?case using field_calls by fastforce
qed simp

declare writeSelection.simps [simp del]

end
