(* ===== verification/CacheApi.thy ===== *)
theory CacheApi
  imports CacheWrite
begin

section \<open>The operations of the cache\<close>

text \<open>
  The methods of \<open>Cache\<close> (\<^verbatim>\<open>runtime/cache/index.ts\<close>) over the whole state: writing, clearing an
  optimistic layer, asking documents to refetch, marking data stale, hydration, reset.
\<close>

record write_request =
  wr_selection :: selection
  wr_data :: gobj
  wr_variables :: gobj
  wr_parent :: string
  wr_layer :: "nat option"
  wr_applyUpdates :: "string list option"
  wr_forceNotify :: bool
  wr_forceStale :: bool
  wr_notify :: "subscription_spec list"

text \<open>\<open>write\<close> on the given layer, or on the top layer, which may have to be created.\<close>

definition write_layer :: "nat option \<Rightarrow> cache_state \<Rightarrow> nat \<times> cache_state" where
  "write_layer layer cs =
     (case layer of
        Some (Suc n) \<Rightarrow> (Suc n, cs)
      | _ \<Rightarrow> (let cs1 = on_storage ensure_top cs in (lid (last (sdata (cs_storage cs1))), cs1)))"

definition cache_write :: "write_request \<Rightarrow> cache_state \<Rightarrow> js_error + subscription_spec list \<times> cache_state" where
  "cache_write w cs =
     (let (n, cs1) = write_layer (wr_layer w) cs
      in write_with writeSelection (wr_selection w) (wr_parent w) (wr_data w)
           \<lparr>wa_variables = wr_variables w, wa_applyUpdates = wr_applyUpdates w, wa_layer = n,
            wa_forceNotify = wr_forceNotify w, wa_forceStale = wr_forceStale w\<rparr> (wr_notify w) cs1)"

subsection \<open>Clearing a layer\<close>

text \<open>\<open>v !== w\<close> for values out of different layers: objects, arrays and functions are never the same.\<close>

definition strictly_differs :: "gval \<Rightarrow> gval \<Rightarrow> bool" where
  "strictly_differs v w \<longleftrightarrow> is_object v \<or> is_function v \<or> v \<noteq> w"

text \<open>Id, field, and the value that was displayed, if the entry comes from a value.\<close>

type_synonym display = "string \<times> string \<times> gval option"

definition layer_values :: "layer \<Rightarrow> (string \<times> string \<times> gval) list" where
  "layer_values l = entries_of (lfields l) @ entries_of (llinks l)"

definition display_values :: "storage \<Rightarrow> layer \<Rightarrow> display list" where
  "display_values st l =
     map (\<lambda>(i, f, v). (i, f, Some v))
       (filter (\<lambda>(i, f, v). lid l \<in> set (rr_layers (storage_get st i f))) (layer_values l))"

definition display_operations :: "sub_store \<Rightarrow> layer \<Rightarrow> display list" where
  "display_operations ss l =
     concat (map (\<lambda>(i, e). (if oe_deleted e then map (\<lambda>f. (i, f, None)) (activeFields ss i) else [])
                           @ map (\<lambda>f. (i, f, None)) (okeys (entry_fields (Some e)))) (operations l))"

definition changed_specs :: "cache_state \<Rightarrow> display list \<Rightarrow> subscription_spec list" where
  "changed_specs cs ds =
     concat (map (\<lambda>(i, f, shown).
       if (case shown of None \<Rightarrow> True | Some v \<Rightarrow> strictly_differs (read_value (cs_storage cs) i f) v)
       then map fst (subs_get (cs_subs cs) i f) else []) ds)"

definition clearLayer :: "nat \<Rightarrow> cache_state \<Rightarrow> js_error + cache_state" where
  "clearLayer n cs =
     sbind (getLayer n (cs_storage cs)) (\<lambda>l.
       let displayed = display_values (cs_storage cs) l @ display_operations (cs_subs cs) l;
           cs1 = on_storage (on_layer n layer_clear) cs
       in Inr (notifySubscribers (changed_specs cs1 displayed) cs1))"

definition cache_resolveLayer :: "nat \<Rightarrow> cache_state \<Rightarrow> js_error + cache_state" where
  "cache_resolveLayer n = on_storage_err (resolveLayer n)"

subsection \<open>Refetching\<close>

definition send :: "subscription_spec \<Rightarrow> cache_message \<Rightarrow> cache_state \<Rightarrow> cache_state" where
  "send spec msg cs = cs\<lparr>cs_outbox := cs_outbox cs @ [(sp_onMessage spec, msg)]\<rparr>"

definition refresh_one :: "subscription_spec \<Rightarrow> nat list \<times> cache_state \<Rightarrow> nat list \<times> cache_state" where
  "refresh_one spec acc =
     (if sp_kind spec = Some HoudiniSubscription \<or> sp_onMessage spec \<in> set (fst acc) then acc
      else (fst acc @ [sp_onMessage spec], send spec (Refetch None) (snd acc)))"

definition refresh_targets :: "string list \<Rightarrow> cache_state \<Rightarrow> subscription_spec list" where
  "refresh_targets ids cs =
     concat (map (\<lambda>i. map fst (subs_getAll (cs_subs cs) i True)) (concat (map (known_ids cs) ids)))"

definition refresh :: "string list \<Rightarrow> cache_state \<Rightarrow> cache_state" where
  "refresh ids cs = snd (fold refresh_one (refresh_targets ids cs) ([], cs))"

definition refreshAll :: "gval option \<Rightarrow> cache_state \<Rightarrow> cache_state" where
  "refreshAll session cs =
     fold (\<lambda>sel. send (fst sel) (Refetch session))
       (filter (\<lambda>sel. sp_kind (fst sel) = Some HoudiniQuery) (subs_all (cs_subs cs) True)) cs"

subsection \<open>Staleness, hydration, reset\<close>

definition cache_markTypeStale :: "(string \<times> string option \<times> gobj) option \<Rightarrow> cache_state \<Rightarrow> js_error + cache_state" where
  "cache_markTypeStale options cs =
     (case options of
        None \<Rightarrow> Inr (on_stale (markAllStale (cs_now cs)) cs)
      | Some (ty, field, wn) \<Rightarrow>
          (case given field of
             None \<Rightarrow> Inr (on_stale (markTypeStale (cs_now cs) ty) cs)
           | Some f \<Rightarrow> sbind (markTypeFieldStale (cs_now cs) ty f wn (cs_stale cs)) (\<lambda>s. Inr (cs\<lparr>cs_stale := s\<rparr>))))"

definition cache_markRecordStale :: "string \<Rightarrow> string option \<Rightarrow> gobj \<Rightarrow> cache_state \<Rightarrow> js_error + cache_state" where
  "cache_markRecordStale i field wn cs =
     (case given field of
        None \<Rightarrow> Inr (on_stale (markRecordStale (cs_now cs) i) cs)
      | Some f \<Rightarrow> sbind (computeKey f wn) (\<lambda>key. Inr (on_stale (markFieldStale i key) cs)))"

definition cache_hydrate :: "snapshot option \<Rightarrow> nat option \<Rightarrow> cache_state \<Rightarrow> nat option \<times> cache_state" where
  "cache_hydrate snap layer cs =
     (let (n, st) = hydrate snap layer (cs_storage cs); cs1 = cs\<lparr>cs_storage := st\<rparr>
      in (n, case snap of None \<Rightarrow> cs1 | Some s \<Rightarrow> on_stale (registerHydration s) cs1))"

definition cache_reset :: "cache_state \<Rightarrow> cache_state" where
  "cache_reset cs =
     (case subs_reset (cs_subs cs) of
        (specs, ss) \<Rightarrow>
          notifySubscribers specs
            (cs\<lparr>cs_subs := ss, cs_stale := stale_reset (cs_stale cs), cs_lifetimes := [],
                cs_lists := lists_reset (cs_lists cs), cs_storage := storage_reset (cs_storage cs)\<rparr>))"

end
