(* ===== verification/CacheWalks.thy ===== *)
theory CacheWalks
  imports CacheApi
begin

section \<open>What the walks of the cache do to its state\<close>

text \<open>
  Subscribing, reading and writing walk over selections and change the state in a few ways only. The
  locales name these ways as a contract on a relation between states, and prove once that every walk
  stays inside it:

  \<^item> \<open>cache_walk\<close>: references to a field are counted, lists are registered, lifetimes restart and the
    table of type names is filled (the walks of the subscriptions),
  \<^item> \<open>cache_reader\<close>: a component field is filled with its function and messages are sent (reading,
    notifying),
  \<^item> \<open>layer_writer\<close>: one layer changes by layer steps, fields get fresh or stale, embedded records go
    (writing, list operations, deleting).

  \<open>store_walk\<close> and \<open>store_reader\<close> are the same contracts for a relation that only looks at the store.
  They are interpreted for the relation that keeps the data (here), for the rollback of an optimistic
  layer (\<^verbatim>\<open>Rollback\<close>), for the steps of the store and for the invariant of the whole cache
  (\<^verbatim>\<open>CacheSteps\<close>).
\<close>

subsection \<open>Subscription walks\<close>

locale cache_walk =
  fixes walks :: "cache_state \<Rightarrow> cache_state \<Rightarrow> bool"
  assumes walks_refl [simp, intro]: "walks cs cs"
    and walks_trans [trans]: "walks a b \<Longrightarrow> walks b c \<Longrightarrow> walks a c"
    and walks_typename: "walks cs (cs\<lparr>cs_storage := snd (getTypename i (cs_storage cs))\<rparr>)"
    and walks_count: "walks cs (on_subs (subs_addField i k sel m) cs)"
    and walks_uncount: "walks cs (on_subs (removeSubscribers i k targets m) cs)"
    and walks_lists_add: "walks cs (on_lists (lists_add h) cs)"
    and walks_resetLifetime: "walks cs (resetLifetime i k cs)"
begin

lemma walks_fold:
  assumes "\<And>x s. x \<in> set xs \<Longrightarrow> walks (g s) (g (f x s))"
  shows "walks (g s) (g (fold f xs s))"
  by (rule fold_invariant_list [where P = "\<lambda>t. walks (g s) (g t)"]) (use assms walks_trans in blast)+

lemmas walks_fold_id = walks_fold [where g = "\<lambda>x. x"]

lemma walks_sfold:
  assumes "sfold f xs s = Inr s'" and "\<And>x s t. x \<in> set xs \<Longrightarrow> f x s = Inr t \<Longrightarrow> walks (g s) (g t)"
  shows "walks (g s) (g s')"
  by (rule sfold_invariant [OF assms(1), where P = "\<lambda>t. walks (g s) (g t)"]) (use assms(2) walks_trans in blast)+

lemmas walks_sfold_id = walks_sfold [where g = "\<lambda>x. x"]

lemma walks_getTypename: "cache_getTypename i cs = (t, cs') \<Longrightarrow> walks cs cs'"
  using walks_typename [of cs i]
  by (auto simp: cache_getTypename_def split: prod.splits)

lemma walks_addFieldSubscription: "walks cs (addFieldSubscription i k s m cs)"
  unfolding addFieldSubscription_def using walks_count walks_resetLifetime by (rule walks_trans)

lemma walks_registerList: "walks cs (registerList li fs i k v s p cs)"
  by (auto simp: registerList_def split: prod.split dest!: walks_getTypename intro: walks_trans [OF _ walks_lists_add])

lemma walks_add_field: "walks cs (add_field parent spec variables pt tn masked f cs)"
  by (auto simp: add_field_def Let_def split: option.split
      intro: walks_addFieldSubscription walks_trans [OF walks_addFieldSubscription walks_registerList])

lemma walks_many_field: "walks cs (many_field parent variables spec pt masked f cs)"
  by (auto simp: many_field_def Let_def split: option.split
      intro: walks_addFieldSubscription walks_trans [OF walks_addFieldSubscription walks_registerList])

lemma walks_subs_add: "walks cs (subs_add parent spec sel variables pt masked cs)"
proof (induction parent spec sel variables pt masked cs rule: subs_add.induct)
  case (1 parent spec sel variables pt masked cs)
  obtain tn cs1 where t: "cache_getTypename parent cs = (tn, cs1)" by fastforce
  have "walks cs1 (subs_add parent spec sel variables pt masked cs)"
    unfolding subs_add.simps [of parent] t Let_def prod.case
  proof (rule walks_fold_id, clarify)
    fix attr f s
    assume f: "(attr, f) \<in> set (fields_for_type sel tn False)"
    let ?s = "add_field parent spec variables pt tn masked f s"
    have "walks ?s (case f_selection f of None \<Rightarrow> ?s
        | Some inner \<Rightarrow> fold (\<lambda>child cs. subs_add child spec inner variables (f_type f) (masked \<or> \<not> f_visible f) cs)
            (linked_children ?s parent (evaluateKey (f_keyRaw f) variables)) ?s)"
      using 1 [OF t [symmetric] _ f] by (auto split: option.split intro!: walks_fold_id)
    with walks_add_field show "walks s (case f_selection f of None \<Rightarrow> ?s
        | Some inner \<Rightarrow> fold (\<lambda>child cs. subs_add child spec inner variables (f_type f) (masked \<or> \<not> f_visible f) cs)
            (linked_children ?s parent (evaluateKey (f_keyRaw f) variables)) ?s)" by (rule walks_trans)
  qed
  with walks_getTypename [OF t] show ?case by (rule walks_trans)
qed

lemma walks_addMany: "walks cs (addMany parent variables subs pt masked cs)"
proof (induction parent variables subs pt masked cs rule: addMany.induct)
  case (1 parent variables subs pt masked cs)
  show ?case
    unfolding addMany.simps [of parent]
  proof (rule walks_fold_id, clarify)
    fix spec f s
    assume f: "(spec, f) \<in> set (many_entries subs)"
    let ?s = "many_field parent variables spec pt masked f s"
    have "walks u (case cache_getTypename child u of (tn, cs2) \<Rightarrow>
        addMany child variables (map (\<lambda>(sub, t). (sub, Some (fields_for_type inner tn False))) subs)
          (f_type f) (masked \<or> \<not> f_visible f) cs2)"
      if inner: "f_selection f = Some inner"
        and child: "child \<in> set (linked_children ?s parent (evaluateKey (f_keyRaw f) variables))"
      for inner child u
    proof -
      obtain tn u2 where t: "cache_getTypename child u = (tn, u2)" by fastforce
      show ?thesis unfolding t prod.case
        by (rule walks_trans [OF walks_getTypename [OF t]])
          (rule 1 [OF f refl refl inner child t [symmetric]])
    qed
    then have "walks ?s (case f_selection f of None \<Rightarrow> ?s
        | Some inner \<Rightarrow> fold (\<lambda>child cs. case cache_getTypename child cs of (tn, cs2) \<Rightarrow>
            addMany child variables (map (\<lambda>(sub, t). (sub, Some (fields_for_type inner tn False))) subs)
              (f_type f) (masked \<or> \<not> f_visible f) cs2)
            (linked_children ?s parent (evaluateKey (f_keyRaw f) variables)) ?s)"
      by (auto split: option.split intro!: walks_fold_id)
    with walks_many_field show "walks s (let cs1 = ?s in case f_selection f of None \<Rightarrow> cs1
        | Some inner \<Rightarrow> fold (\<lambda>child cs. case cache_getTypename child cs of (tn, cs2) \<Rightarrow>
            addMany child variables (map (\<lambda>(sub, t). (sub, Some (fields_for_type inner tn False))) subs)
              (f_type f) (masked \<or> \<not> f_visible f) cs2)
            (linked_children cs1 parent (evaluateKey (f_keyRaw f) variables)) cs1)"
      unfolding Let_def by (rule walks_trans)
  qed
qed

lemma walks_remove_fields: "walks cs (snd (remove_fields i targets variables masked flds cs))"
proof -
  let ?P = "\<lambda>r :: (string \<times> selection \<times> bool) list \<times> cache_state. walks cs (snd r)"
  have "?P (remove_fields i targets variables masked flds cs)"
    unfolding remove_fields_def
  proof (rule fold_invariant_list [where P = ?P], simp, clarify)
    fix attr f linked s
    assume s: "?P (linked, s)"
    have "walks cs (on_subs (removeSubscribers i (evaluateKey (f_keyRaw f) variables) targets (masked \<or> \<not> f_visible f)) s)"
      using s walks_uncount by (metis snd_conv walks_trans)
    then show "?P (let key = evaluateKey (f_keyRaw f) variables; fieldMasked = masked \<or> \<not> f_visible f;
            cs1 = on_subs (removeSubscribers i key targets fieldMasked) s
        in case f_selection f of None \<Rightarrow> (linked, cs1)
           | Some inner \<Rightarrow> (linked @ map (\<lambda>l. (l, inner, fieldMasked)) (link_targets (read_link cs1 i key)), cs1))"
      by (simp add: Let_def split: option.split)
  qed
  then show ?thesis .
qed

lemma walks_subs_remove: "walks cs (subs_remove i sel targets variables masked cs)"
proof (induction i sel targets variables masked cs rule: subs_remove.induct)
  case (1 i sel targets variables masked cs)
  obtain tn cs1 where t: "cache_getTypename i cs = (tn, cs1)" by fastforce
  obtain linked cs2 where r: "remove_fields i targets variables masked (fields_for_type sel tn False) cs1 = (linked, cs2)" by fastforce
  have "walks cs1 cs2" using walks_remove_fields [of cs1 i targets variables masked "fields_for_type sel tn False"] r by simp
  moreover have "walks cs2 (fold (\<lambda>(l, inner, m) cs. subs_remove l inner targets variables m cs) linked cs2)"
    by (rule walks_fold_id) (use 1 [OF refl _ refl] t r in auto)
  ultimately show ?case
    using walks_getTypename [OF t] unfolding subs_remove.simps [of i] t r Let_def prod.case
    by (blast intro: walks_trans)
qed

lemma walks_findSubSelections: "walks (snd acc) (snd (findSubSelections parentID sel variables searchTarget acc))"
proof (induction parentID sel variables searchTarget acc rule: findSubSelections.induct)
  case (1 parentID sel variables t acc)
  obtain tn cs1 where n: "cache_getTypename parentID (snd acc) = (tn, cs1)" by fastforce
  let ?step = "\<lambda>(attr, f) acc. case f_selection f of None \<Rightarrow> acc
     | Some inner \<Rightarrow> (let v = read_link (snd acc) parentID (evaluateKey (f_keyRaw f) variables);
           links = (case v of GArr vs \<Rightarrow> flatten vs | _ \<Rightarrow> [v])
       in if GStr t \<in> set links then (fst acc @ [inner], snd acc)
          else fold (\<lambda>l acc. findSubSelections (js_string l) inner variables t acc) links acc)"
  have fold: "walks (snd s) (snd (fold f xs s))" if "\<And>x s. x \<in> set xs \<Longrightarrow> walks (snd s) (snd (f x s))"
    for f xs and s :: "selection list \<times> cache_state"
    by (rule fold_invariant_list [where P = "\<lambda>r. walks (snd s) (snd r)"]) (use that walks_trans in blast)+
  have "walks (snd (fst acc, cs1)) (snd (fold ?step (fields_for_type sel tn False) (fst acc, cs1)))"
  proof (rule fold)
    fix x and u :: "selection list \<times> cache_state"
    assume x: "x \<in> set (fields_for_type sel tn False)"
    obtain attr f where xf: "x = (attr, f)" by fastforce
    note f = x [unfolded xf]
    have rec: "walks (snd s) (snd (findSubSelections (js_string l) inner variables t s))"
      if "f_selection f = Some inner" "v = read_link (snd u) parentID (evaluateKey (f_keyRaw f) variables)"
        "links = (case v of GArr vs \<Rightarrow> flatten vs | _ \<Rightarrow> [v])" "GStr t \<notin> set links" "l \<in> set links" for inner l v links s
      by (rule 1 [OF n [symmetric] f refl that])
    have "walks (snd u) (snd (fold (\<lambda>l. findSubSelections (js_string l) inner variables t) links u))"
      if "f_selection f = Some inner" "v = read_link (snd u) parentID (evaluateKey (f_keyRaw f) variables)"
        "links = (case v of GArr vs \<Rightarrow> flatten vs | _ \<Rightarrow> [v])" "GStr t \<notin> set links" for inner v links
      by (rule fold) (rule rec [OF that])
    then show "walks (snd u) (snd (?step x u))"
      by (simp add: xf Let_def split: option.split)
  qed
  with walks_getTypename [OF n] show ?case
    unfolding findSubSelections.simps [of parentID] n prod.case snd_conv by (rule walks_trans)
qed

lemma walks_removeAllSubscribers: "walks cs (removeAllSubscribers i ts cs)"
proof -
  have "walks s (case findSubSelections p sel v i ([], s) of
      (subsels, cs1) \<Rightarrow> fold (\<lambda>subsel. subs_remove i subsel targets v False) subsels cs1)" for s p sel v targets
  proof -
    obtain subsels cs1 where f: "findSubSelections p sel v i ([], s) = (subsels, cs1)" by fastforce
    have "walks s cs1" using walks_findSubSelections [of "([], s)" p sel v i] by (simp add: f)
    moreover have "walks cs1 (fold (\<lambda>subsel. subs_remove i subsel targets v False) subsels cs1)"
      by (rule walks_fold_id) (rule walks_subs_remove)
    ultimately show ?thesis unfolding f prod.case by (rule walks_trans)
  qed
  then show ?thesis unfolding removeAllSubscribers_def Let_def by (intro walks_fold_id)
qed

end

subsection \<open>Reading\<close>

lemma default_is_function: "defaultComponentField opts parent f = GUndef \<or> is_function (defaultComponentField opts parent f)"
  by (simp add: defaultComponentField_def split: option.split)

locale cache_reader = cache_walk +
  assumes walks_default: "d = GUndef \<or> is_function d \<Longrightarrow> walks cs (cs\<lparr>cs_storage := snd (storage_get_default i f d (cs_storage cs))\<rparr>)"
    and walks_outbox: "walks cs (cs\<lparr>cs_outbox := msgs\<rparr>)"
    and walks_epoch: "walks cs (cs\<lparr>cs_epoch := n\<rparr>)"
begin

definition reads :: "storage \<Rightarrow> storage \<Rightarrow> bool" where
  "reads st st' \<longleftrightarrow> (\<forall>cs. walks (cs\<lparr>cs_storage := st\<rparr>) (cs\<lparr>cs_storage := st'\<rparr>))"

lemma reads_refl [simp, intro]: "reads st st"
  by (simp add: reads_def)

lemma reads_trans: "reads a b \<Longrightarrow> reads b c \<Longrightarrow> reads a c"
  unfolding reads_def by (blast intro: walks_trans)

lemma reads_typename: "reads st (snd (getTypename i st))"
  unfolding reads_def using walks_typename [of "cs\<lparr>cs_storage := st\<rparr>" i for cs] by simp

lemma reads_default: "d = GUndef \<or> is_function d \<Longrightarrow> reads st (snd (storage_get_default i f d st))"
  unfolding reads_def using walks_default [of d "cs\<lparr>cs_storage := st\<rparr>" i f for cs] by simp

lemma reads_fold:
  assumes "\<And>x s. x \<in> set xs \<Longrightarrow> reads (g s) (g (f x s))"
  shows "reads (g s) (g (fold f xs s))"
  by (rule fold_invariant_list [where P = "\<lambda>t. reads (g s) (g t)"]) (use assms reads_trans in blast)+

lemma reads_split: "(\<And>x s'. p = (x, s') \<Longrightarrow> reads s' (snd (h x s'))) \<Longrightarrow> reads st (snd p) \<Longrightarrow> reads st (snd (case p of (x, s') \<Rightarrow> h x s'))"
  by (cases p) (auto intro: reads_trans)

lemma reads_hydrateNestedList:
  assumes "\<And>p s. reads s (snd (rec p s))"
  shows "reads st (snd (hydrateNestedList rec nullable es r st))"
  using assms
  by (induction rec nullable es r st rule: hydrateNestedList.induct)
     (auto simp del: split_paired_All intro!: reads_split)

lemma reads_field_result:
  assumes "\<And>p k s. reads s (snd (rec p k s))"
  shows "reads st (snd (field_result opts steps f v rec st))"
  using assms
  by (auto simp: field_result_def split: gval.split intro!: reads_split reads_hydrateNestedList)

lemma reads_read_field:
  assumes "\<And>p k s. reads s (snd (rec p k s))"
  shows "reads st (snd (read_field opts parent steps attr f rec acc st))"
proof -
  obtain stored st1 where s: "storage_get_default parent (evaluateKey (f_keyRaw f) (ro_variables opts))
      (defaultComponentField opts parent f) st = (stored, st1)" by fastforce
  have "reads st st1" using reads_default [OF default_is_function] s by (metis snd_conv)
  moreover have "reads st1 s2" if "field_result opts steps f v rec st1 = (x, s2)" for v x s2
    using reads_field_result [of rec st1 opts steps f v] assms that by simp
  ultimately show ?thesis
    unfolding read_field_def Let_def s by (auto split: prod.split intro: reads_trans)
qed

lemma reads_getSelection: "reads st (snd (getSelection opts sel p steps st))"
proof (induction opts sel p steps st rule: getSelection.induct)
  case (2 opts sel parent steps st)
  obtain tn st1 where t: "getTypename parent st = (tn, st1)" by fastforce
  let ?rec = "\<lambda>f p k st. case f_selection f of None \<Rightarrow> (null_result, st) | Some inner \<Rightarrow> getSelection opts inner p k st"
  let ?step = "\<lambda>(attr, f) (acc, st). if skip_field opts f then (acc, st) else read_field opts parent steps attr f (?rec f) acc st"
  have "reads (snd s) (snd (fold ?step (fields_for_type sel (tn_of tn) (ro_loading opts)) s))" for s
  proof (rule reads_fold, clarify)
    fix attr f acc u
    assume f: "(attr, f) \<in> set (fields_for_type sel (tn_of tn) (ro_loading opts))"
    have "reads s (snd (?rec f p k s))" if "\<not> skip_field opts f" for p k s
      using 2 [OF t [symmetric] f refl that] by (auto split: option.split)
    then show "reads (snd (acc, u)) (snd (if skip_field opts f then (acc, u) else read_field opts parent steps attr f (?rec f) acc u))"
      by (auto intro: reads_read_field)
  qed
  note run = this [of "(read_start opts parent sel, st1)", unfolded snd_conv]
  obtain acc st2 where r: "fold ?step (fields_for_type sel (tn_of tn) (ro_loading opts)) (read_start opts parent sel, st1) = (acc, st2)"
    by fastforce
  have "reads st1 st2" using run unfolding r snd_conv .
  with reads_typename [of st parent, unfolded t snd_conv] show ?case
    unfolding getSelection.simps(2) [of opts sel parent] t prod.case r snd_conv by (rule reads_trans)
qed simp



lemma walks_getSelection: "walks cs (snd (cache_getSelection opts sel parent cs))"
  using reads_getSelection [of "cs_storage cs" opts sel "Some parent" None]
  unfolding reads_def by (auto simp: cache_getSelection_def case_prod_unfold dest: spec [of _ cs])

lemma walks_cache_read: "walks cs (snd (cache_read opts sel parent cs))"
  using walks_getSelection by (simp add: cache_read_def case_prod_unfold)

lemma walks_update_message: "walks cs (update_message spec cs)"
proof -
  have "walks (snd p) ((snd p)\<lparr>cs_outbox := o'\<rparr>)" for p :: "sel_result \<times> cache_state" and o' by (rule walks_outbox)
  with walks_getSelection show ?thesis
    unfolding update_message_def Let_def case_prod_unfold by (blast intro: walks_trans)
qed

lemma walks_notify_one: "walks (snd acc) (snd (notify_one spec acc))"
  by (simp add: notify_one_def walks_update_message)

lemma walks_notifySubscribers: "walks cs (notifySubscribers subs cs)"
proof (cases "subs = []")
  case False
  let ?cs = "cs\<lparr>cs_epoch := Suc (cs_epoch cs)\<rparr>"
  have "walks ?cs (snd (fold notify_one subs ([], ?cs)))"
    using walks_fold [where g = snd and xs = subs and s = "([], ?cs)", OF walks_notify_one] by simp
  moreover have "walks cs ?cs" by (rule walks_epoch)
  ultimately show ?thesis using False walks_trans by (simp add: notifySubscribers_def)
qed (simp add: notifySubscribers_def)

end

subsection \<open>Writing on one layer\<close>

locale layer_writer =
  fixes W :: "nat \<Rightarrow> cache_state \<Rightarrow> cache_state \<Rightarrow> bool"
  assumes reader: "cache_reader (W n)"
    and walks_on_layer: "(\<And>l. layer_step l (g l)) \<Longrightarrow> W n cs (on_storage (on_layer n g) cs)"
    and walks_on_layer_err: "on_storage_err (on_layer_err n f) cs = Inr cs' \<Longrightarrow> (\<And>l l'. f l = Inr l' \<Longrightarrow> layer_step l l') \<Longrightarrow> W n cs cs'"
    and walks_set_typename: "W n cs (on_storage (\<lambda>st. st\<lparr>typenames := oset i (GStr t) (typenames st)\<rparr>) cs)"
    and walks_nextRank: "W n cs (cs\<lparr>cs_storage := snd (nextRank (cs_storage cs))\<rparr>)"
    and walks_embedded: "\<not> optimistic (layer_of cs n)
      \<Longrightarrow> W n cs (on_stale (stale_deleteRecord l) (lifetimes_delete l (on_storage (removeEmbeddedRecord l) cs)))"
    and walks_stale: "W n cs (on_stale (markFieldStale i k) cs)"
    and walks_fresh: "W n cs (on_stale (setFieldTimeToNow (cs_now cs) i k) cs)"

sublocale layer_writer \<subseteq> w: cache_reader "W n" for n
  by (rule reader)

context layer_writer
begin

lemma walks_list_removeID:
  assumes "list_removeID h i variables (Some n) cs = Inr (b, cs')"
  shows "W n cs cs'"
proof -
  have upd: "W n s (fold update_message subs s)" for s subs
    using w.walks_fold [where g = "\<lambda>x. x", of subs n update_message s] w.walks_update_message by blast
  have rm: "W n s t" if "on_storage_err (storage_remove p k t0 (Some n)) s = Inr t" for s t p k t0
    using that by (intro walks_on_layer_err [where f = "layer_remove p k t0"])
      (auto simp: on_storage_err_def storage_remove_def layer_remove_def intro: layer_step.list_op)
  note subs = w.walks_subs_remove
  from assms show ?thesis
    by (auto simp: list_removeID_def Let_def sbind_simps split: if_splits option.splits
        intro: w.walks_trans [OF subs w.walks_trans [OF rm upd]] w.walks_trans [OF subs w.walks_trans [OF subs w.walks_trans [OF rm upd]]])
qed

lemma walks_list_remove: "list_remove h data variables (Some n) cs = Inr (b, cs') \<Longrightarrow> W n cs cs'"
  by (auto simp: list_remove_def split: option.splits dest: walks_list_removeID)

lemma walks_cache_delete:
  assumes "cache_delete i (Some n) cs = Inr cs'"
  shows "W n cs cs'"
proof -
  have one: "W n s t" if del: "delete_record (Some n) j s = Inr t" for j s t
  proof -
    obtain u where u: "removeIDFromAllLists j (Some n) (removeAllSubscribers j None s) = Inr u"
        "t = on_storage (storage_delete j (Some n)) u"
      using del by (auto simp: delete_record_def sbind_simps)
    have "W n (removeAllSubscribers j None s) u"
      using w.walks_sfold [where g = "\<lambda>x. x", OF u(1) [unfolded removeIDFromAllLists_def lists_removeID_def]]
      by (auto simp: sbind_simps dest: walks_list_removeID)
    moreover have "W n u t"
      unfolding u(2) storage_delete_def option.case by (rule walks_on_layer) (rule layer_step.del)
    ultimately show ?thesis
      using w.walks_removeAllSubscribers by (blast intro: w.walks_trans)
  qed
  show ?thesis
    using w.walks_sfold [where g = "\<lambda>x. x", OF assms [unfolded cache_delete_def]] one by blast
qed


subsection \<open>The writer\<close>

definition rec_walks :: "writer \<Rightarrow> bool" where
  "rec_walks rec \<longleftrightarrow> (\<forall>p d wa ws ws'. rec p d wa ws = Inr ws' \<longrightarrow> W (wa_layer wa) (fst ws) (fst ws'))"

lemma rec_walksD: "rec_walks rec \<Longrightarrow> rec p d wa ws = Inr ws' \<Longrightarrow> W (wa_layer wa) (fst ws) (fst ws')"
  unfolding rec_walks_def by blast

lemma walks_touch_field: "W (wa_layer wa) cs (touch_field c wa cs)"
  unfolding touch_field_def Let_def
  by (auto intro: w.walks_trans [OF w.walks_resetLifetime walks_stale] w.walks_trans [OF w.walks_resetLifetime walks_fresh])

lemma walks_write_scalar:
  assumes "write_scalar c v wa (cs, ns) = Inr (cs', ns')"
  shows "W (wa_layer wa) cs cs'"
proof -
  obtain new where "updated_scalar (fi_updates (f_info (fc_field c))) (wa_applyUpdates wa) (fc_previous c) v = Inr new"
    using assms by (auto simp: write_scalar_def sbind_simps)
  then have cs': "cs' = (let cs1 = on_storage (on_layer (wa_layer wa) (layer_writeField (fc_parent c) (fc_key c) new)) cs
     in case new of
          GStr t \<Rightarrow> (if fc_key c = ''__typename''
             then on_storage (\<lambda>st. st\<lparr>typenames := oset (fc_parent c) (GStr t) (typenames st)\<rparr>) cs1 else cs1)
        | _ \<Rightarrow> cs1)"
    using assms by (simp add: write_scalar_def Let_def)
  have w: "W (wa_layer wa) cs (on_storage (on_layer (wa_layer wa) (layer_writeField (fc_parent c) k x)) cs)" for k x
    by (rule walks_on_layer) (rule layer_step.field)
  then show ?thesis
    unfolding cs' Let_def by (auto intro: w.walks_trans [OF w walks_set_typename] split: gval.split)
qed

lemma walks_write_link_at: "write_link_at c v wa cs = Inr cs' \<Longrightarrow> W (wa_layer wa) cs cs'"
  unfolding write_link_at_def by (erule walks_on_layer_err) (rule layer_step.link)

lemma walks_forget_links: "W (wa_layer wa) cs (forget_links c ids inner wa cs)"
  unfolding forget_links_def by (rule w.walks_fold [where g = "\<lambda>x. x"]) (rule w.walks_subs_remove)

lemma walks_adopt: "W (wa_layer wa) cs (adopt c wa i cs)"
  by (auto simp: adopt_def Let_def intro: w.walks_addMany w.walks_trans [OF w.walks_addMany w.walks_addMany])

lemma walks_write_null:
  assumes "write_null c inner wa (cs, ns) = Inr ((cs', ns'), b)"
  shows "W (wa_layer wa) cs cs'"
  using assms
  by (auto simp: write_null_def Let_def sbind_simps split: if_splits intro: w.walks_trans [OF walks_forget_links] dest: walks_write_link_at)

lemma inner_args_layer [simp]: "wa_layer (inner_args wa) = wa_layer wa"
  by (simp add: inner_args_def)

lemma walks_write_object:
  assumes rec: "rec_walks rec" and "write_object rec c inner v wa (cs, ns) = Inr (cs', ns')"
  shows "W (wa_layer wa) cs cs'"
proof -
  let ?n = "wa_layer wa"
  obtain cs1 where l: "write_link_at c (link_value (linked_id (cs_config cs) c v)) wa cs = Inr cs1"
    and r: "(case linked_id (cs_config cs) c v of None \<Rightarrow> Inr (cs1, ns)
        | Some i \<Rightarrow> (if i = [] then Inr (cs1, ns)
            else (let relink = fc_display c \<and> (link_value (linked_id (cs_config cs) c v) \<noteq> fc_previous c \<or> wa_forceNotify wa);
                      cs2 = (case fc_previous c of GStr p \<Rightarrow> (if relink \<and> p \<noteq> [] then forget_links c [p] inner wa cs1 else cs1) | _ \<Rightarrow> cs1);
                      cs3 = (if relink then adopt c wa i cs2 else cs2)
                  in rec i (map_entries v) (inner_args wa) (cs3, if relink then add_specs (fc_subs c) ns else ns)))) = Inr (cs', ns')"
    using assms(2) by (auto simp: write_object_def Let_def sbind_simps split: if_splits)
  have "W (wa_layer wa) cs cs1" using l by (rule walks_write_link_at)
  moreover have "W (wa_layer wa) cs1 cs'"
  proof (cases "linked_id (cs_config cs) c v = None \<or> linked_id (cs_config cs) c v = Some []")
    case True
    then show ?thesis using r by auto
  next
    case False
    define relink where "relink = (fc_display c \<and> (link_value (linked_id (cs_config cs) c v) \<noteq> fc_previous c \<or> wa_forceNotify wa))"
    define cs2 where "cs2 = (case fc_previous c of GStr p \<Rightarrow> (if relink \<and> p \<noteq> [] then forget_links c [p] inner wa cs1 else cs1) | _ \<Rightarrow> cs1)"
    obtain i where i: "linked_id (cs_config cs) c v = Some i" "i \<noteq> []" using False by auto
    then have "rec i (map_entries v) (inner_args wa)
        (if relink then adopt c wa i cs2 else cs2, if relink then add_specs (fc_subs c) ns else ns) = Inr (cs', ns')"
      using r unfolding relink_def cs2_def i(1) option.case Let_def by (simp only: i(2) if_False)
    then have "W (wa_layer wa) (if relink then adopt c wa i cs2 else cs2) cs'" using rec_walksD [OF rec] by fastforce
    moreover have "W (wa_layer wa) cs2 (if relink then adopt c wa i cs2 else cs2)" by (simp add: walks_adopt)
    moreover have "W (wa_layer wa) cs1 cs2" by (simp add: cs2_def walks_forget_links split: gval.split)
    ultimately show ?thesis by (blast intro: w.walks_trans)
  qed
  ultimately show ?thesis by (rule w.walks_trans)
qed

lemma walks_entry_id: "entry_id c prev e cs = (i, cs') \<Longrightarrow> W n cs cs'"
  using walks_nextRank [of n cs]
  by (auto simp: entry_id_def Let_def nextRank_def split: gval.splits if_splits)

text \<open>One entry of a list, whatever comes after it.\<close>

lemma walks_entry:
  assumes rec: "rec_walks rec"
    and "(case entry_id c prev e (fst ws) of (i, cs1) \<Rightarrow>
       (if bad then Inl no_typename
        else (case i of None \<Rightarrow> more1 (cs1, snd ws)
              | Some s \<Rightarrow> sbind (rec s (map_entries e) (inner_args wa) (cs1, snd ws)) (more2 s)))) = Inr (r, ws')"
    and none: "\<And>cs1. (None, cs1) = entry_id c prev e (fst ws) \<Longrightarrow> \<not> bad \<Longrightarrow> more1 (cs1, snd ws) = Inr (r, ws')
      \<Longrightarrow> W (wa_layer wa) cs1 (fst ws')"
    and some: "\<And>s cs1 ws1. (Some s, cs1) = entry_id c prev e (fst ws) \<Longrightarrow> \<not> bad
      \<Longrightarrow> rec s (map_entries e) (inner_args wa) (cs1, snd ws) = Inr ws1 \<Longrightarrow> more2 s ws1 = Inr (r, ws')
      \<Longrightarrow> W (wa_layer wa) (fst ws1) (fst ws')"
  shows "W (wa_layer wa) (fst ws) (fst ws')"
proof -
  obtain i cs1 where e: "entry_id c prev e (fst ws) = (i, cs1)" by fastforce
  have good: "\<not> bad" using assms(2) e by (auto split: if_splits)
  have "W (wa_layer wa) cs1 (fst ws')"
  proof (cases i)
    case None
    then show ?thesis using assms(2) e good by (intro none) simp_all
  next
    case (Some s)
    then obtain ws1 where w: "rec s (map_entries e) (inner_args wa) (cs1, snd ws) = Inr ws1" "more2 s ws1 = Inr (r, ws')"
      using assms(2) e good by (auto simp: sbind_simps)
    have "W (wa_layer wa) cs1 (fst ws1)" using rec_walksD [OF rec w(1)] by simp
    moreover have "W (wa_layer wa) (fst ws1) (fst ws')" using w e good Some by (intro some [OF _ _ w]) simp_all
    ultimately show ?thesis by (rule w.walks_trans)
  qed
  with walks_entry_id [OF e] show ?thesis by (rule w.walks_trans)
qed

lemma extract_entry:
  assumes "\<not> is_arr e" and "\<not> nullish e"
  shows "extractNestedListIDs rec_in c wa prev (e # es) a ws =
     (case entry_id c (previous_at prev (ia_pos a)) e (fst ws) of (i, cs1) \<Rightarrow>
       (if flag (fi_abstract (f_info (fc_field c))) \<and> \<not> truthy (gprop e ''__typename'') then Inl no_typename
        else (case i of None \<Rightarrow> extractNestedListIDs rec_in c wa prev es (a\<lparr>ia_pos := Suc (ia_pos a)\<rparr>) (cs1, snd ws)
              | Some s \<Rightarrow> sbind (rec_in s (map_entries e) (inner_args wa) (cs1, snd ws))
                  (\<lambda>ws1. extractNestedListIDs rec_in c wa prev es (push_id (GStr s) [GStr s] a) ws1))))"
  using assms by (cases e) (auto simp: nullish_def)

lemma walks_extract:
  assumes rec: "rec_walks rec" and "extractNestedListIDs rec c wa prev es a ws = Inr (r, ws')"
  shows "W (wa_layer wa) (fst ws) (fst ws')"
  using assms(2)
proof (induction es arbitrary: prev a ws r ws' rule: flat_infinity.induct)
  case (2 xs es)
  from 2(3) obtain inner ws1 where "extractNestedListIDs rec c wa
        (case previous_at prev (ia_pos a) of GArr ps \<Rightarrow> Some ps | _ \<Rightarrow> None) xs start_ids ws = Inr (inner, ws1)"
      "extractNestedListIDs rec c wa prev es (push_id (GArr (ia_nested inner)) (ia_new inner) a) ws1 = Inr (r, ws')"
    by (auto simp: sbind_simps)
  from w.walks_trans [OF 2(1) [OF this(1)] 2(2) [OF this(2)]] show ?case .
next
  case (3 e es)
  show ?case
  proof (cases "nullish e")
    case True
    with 3(3) have "extractNestedListIDs rec c wa prev es (push_id GNull [GNull] a) ws = Inr (r, ws')"
      by (cases e) (simp_all add: nullish_def)
    then show ?thesis by (rule 3(2))
  next
    case False
    from 3(3) [unfolded extract_entry [OF 3(1) False]] show ?thesis
      by (rule walks_entry [OF rec]) (use 3(2) in fastforce)+
  qed
qed simp


lemma walks_guarded:
  "W (wa_layer wa) cs (if \<not> optimistic (layer_of cs (wa_layer wa)) \<and> b
     then on_stale (stale_deleteRecord l) (lifetimes_delete l (on_storage (removeEmbeddedRecord l) cs)) else cs)"
  by (simp add: walks_embedded)

lemma walks_lose_id: "W (wa_layer wa) cs (lose_id c inner wa kept lost cs)"
proof -
  let ?C = "forget_links c [js_string lost] inner wa cs"
  have "W (wa_layer wa) cs
     (case lost of
        GStr l \<Rightarrow> (if \<not> optimistic (layer_of ?C (wa_layer wa)) \<and> prefix (embedded_prefix c) l
          then on_stale (stale_deleteRecord l) (lifetimes_delete l (on_storage (removeEmbeddedRecord l) ?C)) else ?C)
      | _ \<Rightarrow> ?C)"
    by (rule gval.split [THEN iffD2])
      (intro conjI allI impI; rule w.walks_trans [OF walks_forget_links walks_guarded] walks_forget_links)
  then show ?thesis
    unfolding lose_id_def Let_def
    by (cases "\<not> truthy lost \<or> (\<not> is_arr lost \<and> lost \<in> set kept)") (simp_all only: if_True if_False w.walks_refl)
qed

lemma walks_run_action:
  assumes "run_action c wa action linkedIDs newIDs cs = Inr cs'"
  shows "W (wa_layer wa) cs cs'"
proof (cases action)
  case WriteLinks
  with assms show ?thesis by (simp add: run_action_def walks_write_link_at)
next
  case (InsertAt loc)
  have ins: "layer_step l l'" if "layer_insert i k loc t l = Inr l'" for i k t l l'
    using that by (auto simp: layer_insert_def intro: layer_step.list_op)
  show ?thesis
    by (rule w.walks_sfold [where g = "\<lambda>x. x", OF assms [unfolded run_action_def InsertAt list_action.case]])
      (erule walks_on_layer_err, erule ins)
qed

lemma walks_write_list:
  assumes rec: "rec_walks rec" and w: "write_list rec c inner vs wa (cs, ns) = Inr (cs', ns')"
  shows "W (wa_layer wa) cs cs'"
proof -
  let ?n = "wa_layer wa"
  define oldIDs where "oldIDs = old_ids c (cs_storage cs)"
  define prev where "prev = (case fc_previous c of GArr ps \<Rightarrow> (if (case wa_applyUpdates wa of None \<Rightarrow> False
      | Some as \<Rightarrow> list_ex (\<lambda>u. u \<noteq> ''replace'' \<and> accepts (fi_updates (f_info (fc_field c))) u) as) then None else Some ps) | _ \<Rightarrow> None)"
  note w' = w [unfolded write_list_def Let_def fst_conv, folded oldIDs_def, folded prev_def]
  obtain ids cs1 ns1 where ex: "extractNestedListIDs rec c wa prev vs start_ids (cs, ns) = Inr (ids, cs1, ns1)"
    using w' by (auto simp: sbind_simps simp del: split_paired_Ex)
  obtain linkedIDs action where la: "linked_ids c wa (cs_storage cs1) oldIDs (ia_nested ids) (ia_new ids) = (linkedIDs, action)"
    by fastforce
  let ?changed = "\<not> deepEquals (GArr linkedIDs) (GArr oldIDs) \<or> fc_previous c = GNull"
  obtain cs3 where act: "(if ?changed \<or> (oldIDs = [] \<and> ia_new ids = [])
        then run_action c wa action linkedIDs (ia_new ids) (fold (lose_id c inner wa (flat_infinity linkedIDs)) oldIDs cs1)
        else Inr (fold (lose_id c inner wa (flat_infinity linkedIDs)) oldIDs cs1)) = Inr cs3"
    and cs': "cs' = fold (\<lambda>v cs. case v of GStr t \<Rightarrow> (if GStr t \<in> set oldIDs then cs else adopt c wa t cs) | _ \<Rightarrow> cs) (ia_new ids) cs3"
    using w' unfolding ex sbind_Inr prod.case la by (auto simp: sbind_simps simp del: fold_simps)
  have "W (wa_layer wa) cs cs1" using walks_extract [OF rec ex] by simp
  also have "W (wa_layer wa) cs1 (fold (lose_id c inner wa (flat_infinity linkedIDs)) oldIDs cs1)"
    by (rule w.walks_fold [where g = "\<lambda>x. x"]) (rule walks_lose_id)
  also have "W (wa_layer wa) \<dots> cs3" using act by (auto split: if_splits intro: walks_run_action)
  also have "W (wa_layer wa) cs3 cs'"
    unfolding cs' by (rule w.walks_fold [where g = "\<lambda>x. x"]) (auto split: gval.split intro: walks_adopt)
  finally show ?thesis .
qed

lemma walks_write_value:
  assumes rec: "rec_walks rec" and w: "write_value rec c v wa (cs, ns) = Inr ((cs', ns'), b)"
  shows "W (wa_layer wa) cs cs'"
proof (cases "f_selection (fc_field c)")
  case None
  with w show ?thesis by (auto simp: write_value_def sbind_simps dest: walks_write_scalar)
next
  case (Some inner)
  consider (null) "v = GNull" | (map) "v \<noteq> GNull" "is_map v" | (list) vs where "v = GArr vs" | (other) "v \<noteq> GNull" "\<not> is_map v" "\<not> is_arr v"
    by (cases v) auto
  then show ?thesis
  proof cases
    case null
    with w Some show ?thesis by (auto simp: write_value_def dest: walks_write_null)
  next
    case map
    with w Some show ?thesis by (auto simp: write_value_def sbind_simps dest: walks_write_object [OF rec])
  next
    case list
    with w Some show ?thesis
      by (auto simp: write_value_def is_map_def sbind_simps split: if_splits dest: walks_write_list [OF rec])
  next
    case other
    with w Some show ?thesis by (cases v) (auto simp: write_value_def)
  qed
qed

subsection \<open>Operations\<close>

lemma walks_write_with:
  assumes "rec_walks (rec s)" and "write_with rec s p d wa extra cs = Inr (ns, cs')"
  shows "W (wa_layer wa) cs cs'"
proof -
  obtain cs1 ns1 where "rec s p d wa (cs, []) = Inr (cs1, ns1)" "cs' = notifySubscribers (ns1 @ extra) cs1"
    using assms(2) by (auto simp: write_with_def sbind_simps)
  moreover from this(1) have "W (wa_layer wa) cs cs1" using rec_walksD [OF assms(1)] by fastforce
  ultimately show ?thesis using w.walks_trans [OF _ w.walks_notifySubscribers] by simp
qed


lemma walks_addToList:
  assumes rec: "\<And>s. sel_ops s \<le> sel_ops sel \<Longrightarrow> rec_walks (rec s)"
    and "addToList rec h sel data wher wa cs = Inr cs'"
  shows "W (wa_layer wa) cs cs'"
proof -
  have w: "W (wa_layer wa) s t" if "write_with rec (insert_selection h ty sel) p d (op_args wa u) x s = Inr (y, t)" for ty p d u x s y t
    using walks_write_with [OF _ that] rec [OF insert_selection_ops] by (simp add: op_args_def)
  show ?thesis using assms(2) by (auto simp: addToList_def Let_def sbind_simps split: if_splits dest: w)
qed

lemma walks_toggleElement:
  assumes rec: "\<And>s. sel_ops s \<le> sel_ops sel \<Longrightarrow> rec_walks (rec s)"
    and "toggleElement rec h sel data wher wa cs = Inr cs'"
  shows "W (wa_layer wa) cs cs'"
proof -
  obtain b cs1 where r: "list_remove h data (wa_variables wa) (Some (wa_layer wa)) cs = Inr (b, cs1)"
    and a: "(if b then Inr cs1 else addToList rec h sel data wher wa cs1) = Inr cs'"
    using assms(2) by (auto simp: toggleElement_def sbind_simps)
  have "W (wa_layer wa) cs1 cs'" using a walks_addToList [OF rec] by (auto split: if_splits)
  with walks_list_remove [OF r] show ?thesis by (rule w.walks_trans)
qed

lemma walks_upsertInList:
  assumes rec: "\<And>s. sel_ops s \<le> sel_ops sel \<Longrightarrow> rec_walks (rec s)"
    and "upsertInList rec h sel data wher wa cs = Inr cs'"
  shows "W (wa_layer wa) cs cs'"
proof -
  have w: "W (wa_layer wa) s t" if "write_with rec sel p d (op_args wa u) x s = Inr (y, t)" for p d u x s y t
    using walks_write_with [OF _ that] rec [of sel] by (simp add: op_args_def)
  show ?thesis
    using assms(2) walks_addToList [OF rec]
    by (auto simp: upsertInList_def sbind_simps split: if_splits option.splits dest: w)
qed

lemma walks_apply_target:
  assumes rec: "\<And>sel s. fsel = Some sel \<Longrightarrow> sel_ops s \<le> sel_ops sel \<Longrightarrow> rec_walks (rec s)"
    and "apply_target rec op fsel parentID opaque processed wa target ws = Inr ws'"
  shows "W (wa_layer wa) (fst ws) (fst ws')"
proof -
  obtain cs ns where ws: "ws = (cs, ns)" by fastforce
  show ?thesis
  proof (cases "if is_object target \<and> given (mo_list op) \<noteq> None \<and> mo_action op \<noteq> OpDelete then fsel else None")
    case None
    then show ?thesis
      using assms(2)
      by (auto simp: ws apply_target_def delete_target_def sbind_simps split: if_splits option.splits dest: walks_cache_delete)
  next
    case (Some sel)
    then have fsel: "fsel = Some sel" by (auto split: if_splits)
    note rec' = rec [OF fsel]
    let ?step = "\<lambda>h cs. case mo_action op of
         OpInsert \<Rightarrow> addToList rec h sel target (op_position op) wa cs
       | OpToggle \<Rightarrow> toggleElement rec h sel target (op_position op) wa cs
       | OpUpsert \<Rightarrow> upsertInList rec h sel target (op_position op) wa cs
       | _ \<Rightarrow> sbind (list_remove h target (wa_variables wa) (Some (wa_layer wa)) cs) (\<lambda>r. Inr (snd r))"
    have step: "W (wa_layer wa) s t" if "?step h s = Inr t" for h s t
      using that walks_addToList [OF rec'] walks_toggleElement [OF rec'] walks_upsertInList [OF rec']
      by (cases "mo_action op") (auto simp: sbind_simps dest: walks_list_remove)
    obtain hs where "sfold ?step hs cs = Inr (fst ws')"
      using assms(2) unfolding apply_target_def ws prod.case Some option.case by (auto simp: sbind_simps Let_def)
    from w.walks_sfold [where g = "\<lambda>x. x", OF this step] show ?thesis by (simp add: ws)
  qed
qed

lemma walks_apply_operations:
  assumes rec: "\<And>sel s. f_selection f = Some sel \<Longrightarrow> sel_ops s \<le> sel_ops sel \<Longrightarrow> has_ops (f_info f) \<Longrightarrow> rec_walks (rec s)"
    and "apply_operations rec f v wa ws = Inr ws'"
  shows "W (wa_layer wa) (fst ws) (fst ws')"
proof (cases "has_ops (f_info f)")
  case True
  have one: "W (wa_layer wa) (fst (snd a)) (fst (snd b))" if "apply_operation rec (f_selection f) v wa op a = Inr b" for op a b
  proof -
    have t: "W (wa_layer wa) (fst s) (fst t)"
      if "sfold (apply_target rec op (f_selection f) p q pr wa) ts s = Inr t" for p q pr ts s t
      by (rule w.walks_sfold [where g = fst, OF that]) (rule walks_apply_target, use rec True in auto)
    show ?thesis
      using that by (cases a) (auto simp: apply_operation_def sbind_simps split: if_splits dest: t)
  qed
  obtain r where r: "sfold (apply_operation rec (f_selection f) v wa)
      (case fi_operations (f_info f) of None \<Rightarrow> [] | Some ops \<Rightarrow> ops) ([], ws) = Inr r" "ws' = snd r"
    using assms(2) by (auto simp: apply_operations_def sbind_simps)
  from w.walks_sfold [where g = "\<lambda>r. fst (snd r)", OF r(1) one] show ?thesis by (simp add: r(2))
next
  case False
  then show ?thesis using assms(2) by (auto simp: apply_operations_def has_ops_def split: option.splits)
qed

lemma walks_write_field:
  assumes rec_in: "rec_walks rec_in"
    and rec_op: "\<And>s. sel_ops s < field_ops_depth f \<Longrightarrow> rec_walks (rec_op s)"
    and "write_field rec_in rec_op parent f v wa ws = Inr ws'"
  shows "W (wa_layer wa) (fst ws) (fst ws')"
proof -
  define c where "c = field_context parent f v wa (fst ws)"
  obtain ws1 settled where w: "write_value rec_in c v wa (touch_field c wa (fst ws), snd ws) = Inr (ws1, settled)"
    and o': "(if settled then Inr ws1 else apply_operations rec_op f v wa ws1) = Inr ws'"
    using assms(3) by (auto simp: write_field_def Let_def c_def [symmetric] sbind_simps)
  have "W (wa_layer wa) (touch_field c wa (fst ws)) (fst ws1)"
    using walks_write_value [OF rec_in] w by (metis fst_conv surj_pair)
  with walks_touch_field have "W (wa_layer wa) (fst ws) (fst ws1)" by (rule w.walks_trans)
  moreover have "W (wa_layer wa) (fst ws1) (fst ws')"
  proof (cases settled)
    case False
    have "rec_walks (rec_op s)" if "f_selection f = Some sel" "sel_ops s \<le> sel_ops sel" "has_ops (f_info f)" for sel s
      by (rule rec_op) (use that in \<open>cases f, auto\<close>)
    with False o' show ?thesis using walks_apply_operations [where f = f and wa = wa and rec = rec_op] by simp
  qed (use o' in simp)
  ultimately show ?thesis by (rule w.walks_trans)
qed

lemma walks_writeSelection:
  "writeSelection sel parent data wa ws = Inr ws' \<Longrightarrow> W (wa_layer wa) (fst ws) (fst ws')"
proof (induction sel parent data wa ws arbitrary: ws' rule: writeSelection.induct)
  case (1 sel parent data wa ws)
  show ?case
  proof (cases "cs_disabled (fst ws)")
    case True
    with 1 show ?thesis by (simp add: writeSelection.simps)
  next
    case False
    let ?step = "\<lambda>(name, v) ws. case map_of (fields_for_type sel (tn_of (prop_of data ''__typename'')) False) name of
        None \<Rightarrow> Inr ws
      | Some f \<Rightarrow> write_field (\<lambda>p d wa ws. case f_selection f of None \<Rightarrow> Inr ws | Some inner \<Rightarrow> writeSelection inner p d wa ws)
          (\<lambda>s p d wa ws. writeSelection s p d wa ws) parent f v wa ws"
    have run: "sfold ?step data ws = Inr ws'" using 1(3) False by (simp add: writeSelection.simps [of sel])
    have "W (wa_layer wa) (fst s) (fst t)" if x: "x \<in> set data" and st: "?step x s = Inr t" for x s t
    proof -
      obtain name v where nv: "x = (name, v)" by fastforce
      show ?thesis
      proof (cases "map_of (fields_for_type sel (tn_of (prop_of data ''__typename'')) False) name")
        case None
        then show ?thesis using st by (simp add: nv)
      next
        case (Some f)
        have "rec_walks (\<lambda>p d wa ws. case f_selection f of None \<Rightarrow> Inr ws | Some inner \<Rightarrow> writeSelection inner p d wa ws)"
        proof (cases "f_selection f")
          case None
          then show ?thesis by (simp add: rec_walks_def)
        next
          case inner: (Some inner)
          show ?thesis unfolding rec_walks_def inner option.case using 1(1) [OF False x nv [symmetric] Some inner] by metis
        qed
        moreover have "rec_walks (\<lambda>p d wa ws. writeSelection s' p d wa ws)" if "sel_ops s' < field_ops_depth f" for s'
          unfolding rec_walks_def using 1(2) [OF False x nv [symmetric] Some that] by metis
        ultimately show ?thesis
          using st walks_write_field [where f = f and wa = wa and rec_op = "\<lambda>s p d wa ws. writeSelection s p d wa ws"] by (simp add: nv Some)
      qed
    qed
    with run show ?thesis by (rule w.walks_sfold [where g = fst])
  qed
qed

lemma walks_cache_write:
  assumes "cache_write w cs = Inr (ns, cs')" and "write_layer (wr_layer w) cs = (n, cs1)"
  shows "W n cs1 cs'"
proof -
  define wa where "wa = \<lparr>wa_variables = wr_variables w, wa_applyUpdates = wr_applyUpdates w, wa_layer = n,
    wa_forceNotify = wr_forceNotify w, wa_forceStale = wr_forceStale w\<rparr>"
  have "write_with writeSelection (wr_selection w) (wr_parent w) (wr_data w) wa (wr_notify w) cs1 = Inr (ns, cs')"
    using assms by (simp add: cache_write_def wa_def)
  moreover have "rec_walks (writeSelection s)" for s
    unfolding rec_walks_def using walks_writeSelection by metis
  ultimately show ?thesis using walks_write_with [of writeSelection] by (metis wa_def write_args.select_convs(3))
qed

end

subsection \<open>Relations that only look at the store\<close>

locale store_walk =
  fixes S :: "storage \<Rightarrow> storage \<Rightarrow> bool"
  assumes S_refl: "S st st"
    and S_trans: "S a b \<Longrightarrow> S b c \<Longrightarrow> S a c"
    and S_typename: "S st (snd (getTypename i st))"

sublocale store_walk \<subseteq> cache_walk "\<lambda>cs cs'. S (cs_storage cs) (cs_storage cs')"
  by unfold_locales (auto simp: S_refl S_typename on_subs_def on_lists_def resetLifetime_def intro: S_trans)

locale store_reader = store_walk +
  assumes S_default: "d = GUndef \<or> is_function d \<Longrightarrow> S st (snd (storage_get_default i f d st))"

begin

lemma reader_of_store: "cache_reader (\<lambda>cs cs'. S (cs_storage cs) (cs_storage cs'))"
  by unfold_locales (auto simp: S_refl S_default)

end

sublocale store_reader \<subseteq> cache_reader "\<lambda>cs cs'. S (cs_storage cs) (cs_storage cs')"
  by (rule reader_of_store)

text \<open>What a write does to the store alone.\<close>

locale store_writer =
  fixes S :: "nat \<Rightarrow> storage \<Rightarrow> storage \<Rightarrow> bool"
  assumes S_reader: "store_reader (S n)"
    and S_layer: "(\<And>l. layer_step l (f l)) \<Longrightarrow> S n st (on_layer n f st)"
    and S_layer_err: "on_layer_err n h st = Inr st' \<Longrightarrow> (\<And>l l'. h l = Inr l' \<Longrightarrow> layer_step l l') \<Longrightarrow> S n st st'"
    and S_typenames: "S n st (st\<lparr>typenames := oset i (GStr t) (typenames st)\<rparr>)"
    and S_rank: "S n st (snd (nextRank st))"
    and S_embedded: "\<not> optimistic (layer_of cs n) \<Longrightarrow> S n (cs_storage cs) (removeEmbeddedRecord i (cs_storage cs))"

sublocale store_writer \<subseteq> layer_writer "\<lambda>n cs cs'. S n (cs_storage cs) (cs_storage cs')"
proof (rule layer_writer.intro, goal_cases)
  case (1 n)
  show ?case by (rule store_reader.reader_of_store) (rule S_reader)
next
  case (3 n h cs cs')
  then show ?case by (auto simp: on_storage_err_def sbind_simps intro: S_layer_err)
qed (simp_all add: on_storage_def on_stale_def lifetimes_delete_def S_layer S_typenames S_rank S_embedded store_walk.S_refl [OF store_reader.axioms(1) [OF S_reader]])

subsection \<open>Subscribing leaves the data alone\<close>

definition same_data :: "storage \<Rightarrow> storage \<Rightarrow> bool" where
  "same_data st st' \<longleftrightarrow> sdata st' = sdata st \<and> idMaps st' = idMaps st \<and> idCount st' = idCount st \<and> rank st' = rank st"

lemma getTypename_data: "same_data st (snd (getTypename i st))"
  by (simp add: same_data_def getTypename_def Let_def split: option.split)

interpretation sd: store_walk same_data
  by unfold_locales (auto simp: same_data_def getTypename_data [unfolded same_data_def])

lemma same_data_reads: "same_data st st' \<Longrightarrow> storage_get st' i f = storage_get st i f"
  by (simp add: same_data_def storage_get_def read_pairs_def recordIDs_def)

end
