(* ===== verification/SubsLaws.thy ===== *)
theory SubsLaws
  imports CacheState
begin

section \<open>Laws of the subscriptions and of the garbage collector\<close>

text \<open>
  The invariant of the subscription table: the listeners of a field are listed once each, in the order of
  their reference counts, and every count is positive. A reference that is added and given back leaves
  the field as it was. The collector spares what is subscribed to and evicts the rest once the buffer
  runs out.
\<close>

subsection \<open>Reference counts\<close>

definition counts_ok :: "field_selection list \<Rightarrow> (nat, int) omap \<Rightarrow> bool" where
  "counts_ok sels counts \<longleftrightarrow>
     distinct (okeys counts) \<and> list_all (\<lambda>(m, c). 0 < c) counts \<and> map (\<lambda>s. sp_onMessage (fst s)) sels = okeys counts"

definition field_sub_ok :: "field_sub \<Rightarrow> bool" where
  "field_sub_ok fs \<longleftrightarrow>
     counts_ok (fs_selections fs) (fs_counts fs) \<and> counts_ok (fs_maskedSelections fs) (fs_maskedCounts fs)"

lemma fst_oset [simp]: "fst ` set (oset k v m) = insert k (fst ` set m)"
  using okeys_oset [of k v m] by simp

lemma fresh_lookup: "k \<notin> set (okeys m) \<Longrightarrow> map_of m k = None"
  by (simp add: map_of_eq_None_iff)

lemma okeys_oset_old: "k \<in> set (okeys m) \<Longrightarrow> okeys (oset k v m) = okeys m"
  by (induction m) auto

lemma oset_same: "map_of m k = Some v \<Longrightarrow> oset k v m = m"
  by (induction m) (auto split: if_splits)

lemma oset_oset: "oset k v (oset k w m) = oset k v m"
  by (induction m) auto

lemma odel_snoc: "k \<notin> set (okeys m) \<Longrightarrow> odel k (m @ [(k, v)]) = m"
  by (simp add: AList.delete_eq filter_id_conv) (force simp: image_iff)

lemma counts_ok_new: "counts_ok [] []"
  by (simp add: counts_ok_def)

lemma counts_ok_count:
  assumes "counts_ok sels counts" and "count_ref spec sel (sels, counts) = (sels', counts')"
  shows "counts_ok sels' counts'" and "counts' \<noteq> []"
proof -
  let ?m = "sp_onMessage spec"
  have pos: "0 \<le> oget 0 counts ?m"
    using assms(1) map_of_mem [of counts ?m] by (fastforce simp: counts_ok_def list_all_iff oget_def split: option.split)
  have e: "counts' = oset ?m (oget 0 counts ?m + 1) counts"
    "sels' = (if ?m \<in> set (okeys counts) then sels else sels @ [(spec, sel)])"
    using assms(2) by (auto simp: count_ref_def split: if_splits)
  show "counts' \<noteq> []" unfolding e(1) by (cases counts) auto
  show "counts_ok sels' counts'"
  proof (cases "?m \<in> set (okeys counts)")
    case True
    then show ?thesis
      using assms(1) pos unfolding e by (simp add: counts_ok_def okeys_oset_old list_all_oset)
  next
    case False
    then show ?thesis
      using assms(1) pos unfolding e by (simp add: counts_ok_def oset_new)
  qed
qed

text \<open>Dropping references takes listeners out of the counts and the same listeners out of the list.\<close>

definition dropped :: "nat list \<Rightarrow> (nat, int) omap \<Rightarrow> (nat, int) omap \<Rightarrow> bool" where
  "dropped gone before counts \<longleftrightarrow>
     okeys counts = filter (\<lambda>m. m \<notin> set gone) (okeys before) \<and> list_all (\<lambda>(m, c). 0 < c) counts"

lemma dropped_ref:
  assumes "dropped gone before counts" and "m \<in> set (okeys counts)" and "drop_ref m counts = (counts', b)"
  shows "dropped (if b then gone @ [m] else gone) before counts'"
proof (cases b)
  case True
  then have c: "counts' = odel m counts" using assms(3) by (auto simp: drop_ref_def Let_def split: if_splits)
  have "okeys counts' = filter (\<lambda>x. x \<noteq> m) (okeys counts)"
    unfolding c AList.delete_eq by (simp add: filter_map comp_def split_def eq_commute [of m])
  then show ?thesis
    using assms(1) True unfolding dropped_def c by (simp add: list_all_odel) (rule filter_cong, auto)
next
  case False
  then have "counts' = oset m (oget 0 counts m - 1) counts" "0 < oget 0 counts m - 1"
    using assms(3) by (auto simp: drop_ref_def Let_def split: if_splits)
  then show ?thesis using assms(1,2) False by (simp add: dropped_def okeys_oset_old list_all_oset)
qed

lemma dropped_start: "counts_ok sels counts \<Longrightarrow> dropped [] counts counts"
  by (simp add: dropped_def counts_ok_def)

lemma dropped_counts_ok:
  assumes "counts_ok sels before" and "dropped gone before counts"
  shows "counts_ok (filter (\<lambda>s. sp_onMessage (fst s) \<notin> set gone) sels) counts"
proof -
  have "map (\<lambda>s. sp_onMessage (fst s)) (filter (\<lambda>s. sp_onMessage (fst s) \<notin> set gone) sels)
      = filter (\<lambda>m. m \<notin> set gone) (map (\<lambda>s. sp_onMessage (fst s)) sels)"
    by (simp add: filter_map comp_def)
  then show ?thesis using assms by (simp only: counts_ok_def dropped_def distinct_filter simp_thms)
qed

lemma drop_specs_ok:
  assumes "field_sub_ok fs"
  shows "field_sub_ok (drop_specs pm specs fs)"
proof -
  let ?P = "\<lambda>rm. fs_selections (rm_sub rm) = fs_selections fs \<and> fs_maskedSelections (rm_sub rm) = fs_maskedSelections fs
    \<and> dropped (rm_targets rm) (fs_counts fs) (fs_counts (rm_sub rm))
    \<and> dropped (rm_maskedTargets rm) (fs_maskedCounts fs) (fs_maskedCounts (rm_sub rm))"
  have step: "?P (drop_spec pm spec rm)" if P: "?P rm" for spec rm
  proof -
    obtain c b where c: "drop_ref (sp_onMessage spec) (fs_maskedCounts (rm_sub rm)) = (c, b)" by fastforce
    obtain c' b' where c': "drop_ref (sp_onMessage spec) (fs_counts (rm_sub rm)) = (c', b')" by fastforce
    have m: "dropped (if b then rm_maskedTargets rm @ [sp_onMessage spec] else rm_maskedTargets rm) (fs_maskedCounts fs) c"
      if "sp_onMessage spec \<in> set (okeys (fs_maskedCounts (rm_sub rm)))" using P dropped_ref [OF _ that c] by blast
    have p: "dropped (if b' then rm_targets rm @ [sp_onMessage spec] else rm_targets rm) (fs_counts fs) c'"
      if "sp_onMessage spec \<in> set (okeys (fs_counts (rm_sub rm)))" using P dropped_ref [OF _ that c'] by blast
    show ?thesis
    proof (cases "(pm \<and> sp_onMessage spec \<in> set (okeys (fs_maskedCounts (rm_sub rm))))
        \<or> (\<not> pm \<and> sp_onMessage spec \<notin> set (okeys (fs_counts (rm_sub rm))) \<and> sp_onMessage spec \<in> set (okeys (fs_maskedCounts (rm_sub rm))))")
      case True
      then have "sp_onMessage spec \<in> set (okeys (fs_maskedCounts (rm_sub rm)))" by blast
      from P m [OF this] True show ?thesis
        unfolding drop_spec_def Let_def c if_P [OF True] prod.case by simp
    next
      case False
      show ?thesis
      proof (cases "sp_onMessage spec \<in> set (okeys (fs_counts (rm_sub rm)))")
        case True
        from P p [OF True] show ?thesis
          unfolding drop_spec_def Let_def c' if_not_P [OF False] if_P [OF True] prod.case by simp
      next
        case out: False
        from P show ?thesis unfolding drop_spec_def Let_def if_not_P [OF False] if_not_P [OF out] .
      qed
    qed
  qed
  define rm where "rm = fold (drop_spec pm) specs \<lparr>rm_sub = fs, rm_targets = [], rm_maskedTargets = []\<rparr>"
  have "?P rm"
    unfolding rm_def using assms
    by (intro fold_invariant_list [where P = ?P] step) (simp_all add: field_sub_ok_def dropped_start [OF conjunct1] dropped_start [OF conjunct2])
  then have "counts_ok (filter (\<lambda>s. sp_onMessage (fst s) \<notin> set (rm_targets rm)) (fs_selections fs)) (fs_counts (rm_sub rm))"
    "counts_ok (filter (\<lambda>s. sp_onMessage (fst s) \<notin> set (rm_maskedTargets rm)) (fs_maskedSelections fs)) (fs_maskedCounts (rm_sub rm))"
    using assms by (auto simp: field_sub_ok_def intro: dropped_counts_ok)
  with \<open>?P rm\<close> show ?thesis
    unfolding drop_specs_def rm_def [symmetric] Let_def by (simp add: field_sub_ok_def)
qed

text \<open>A reference that is added and given back with the same visibility leaves everything as it was.\<close>

lemma drop_count:
  assumes ok: "counts_ok sels counts" and c: "count_ref spec sel (sels, counts) = (sels', counts')"
  shows "\<exists>b. drop_ref (sp_onMessage spec) counts' = (counts, b)
    \<and> filter (\<lambda>s. sp_onMessage (fst s) \<notin> set (if b then [sp_onMessage spec] else [])) sels' = sels"
proof (cases "sp_onMessage spec \<in> set (okeys counts)")
  case True
  then obtain n where n: "map_of counts (sp_onMessage spec) = Some n" by (metis map_of_eq_None_iff not_Some_eq list.set_map)
  then have "0 < n" using ok map_of_mem by (fastforce simp: counts_ok_def list_all_iff)
  moreover have "counts' = oset (sp_onMessage spec) (n + 1) counts" "sels' = sels"
    using c True n by (simp_all add: count_ref_def oget_def)
  ultimately show ?thesis using n by (intro exI [of _ False]) (simp add: drop_ref_def Let_def omap_simps oset_oset oset_same)
next
  case False
  then have "counts' = counts @ [(sp_onMessage spec, 1)]" "sels' = sels @ [(spec, sel)]"
    using c fresh_lookup [OF False] by (auto simp: count_ref_def oset_new oget_def)
  moreover have "s \<in> set sels \<Longrightarrow> sp_onMessage (fst s) \<noteq> sp_onMessage spec" for s
    using ok False by (metis (mono_tags, lifting) counts_ok_def image_eqI list.set_map)
  moreover have "oget 0 (counts @ [(sp_onMessage spec, 1)]) (sp_onMessage spec) = 1"
    using fresh_lookup [OF False] by (simp add: oget_def map_add_def)
  ultimately show ?thesis using False by (intro exI [of _ True]) (simp add: drop_ref_def Let_def odel_snoc filter_id_conv)
qed

text \<open>
  A reference to a field that is added and given back with the same visibility leaves the
  subscribers and the counts of the field as they were.
\<close>

lemma add_remove_reference:
  assumes "field_sub_ok fs"
  shows "drop_specs masked [spec] (add_ref (spec, sel) masked fs) = fs"
proof (cases masked)
  case True
  obtain s c where a: "count_ref spec sel (fs_maskedSelections fs, fs_maskedCounts fs) = (s, c)" by fastforce
  have ok: "counts_ok (fs_maskedSelections fs) (fs_maskedCounts fs)" using assms by (simp add: field_sub_ok_def)
  obtain b where d: "drop_ref (sp_onMessage spec) c = (fs_maskedCounts fs, b)"
      "filter (\<lambda>s. sp_onMessage (fst s) \<notin> set (if b then [sp_onMessage spec] else [])) s = fs_maskedSelections fs"
    using drop_count [OF ok a] by blast
  have "sp_onMessage spec \<in> set (okeys c)" using a by (auto simp: count_ref_def)
  with True a d show ?thesis
    by (cases b) (simp_all add: add_ref_def drop_specs_def drop_spec_def Let_def)
next
  case False
  obtain s c where a: "count_ref spec sel (fs_selections fs, fs_counts fs) = (s, c)" by fastforce
  have ok: "counts_ok (fs_selections fs) (fs_counts fs)" using assms by (simp add: field_sub_ok_def)
  obtain b where d: "drop_ref (sp_onMessage spec) c = (fs_counts fs, b)"
      "filter (\<lambda>s. sp_onMessage (fst s) \<notin> set (if b then [sp_onMessage spec] else [])) s = fs_selections fs"
    using drop_count [OF ok a] by blast
  have "sp_onMessage spec \<in> set (okeys c)" using a by (auto simp: count_ref_def)
  with False a d show ?thesis
    by (cases b) (simp_all add: add_ref_def drop_specs_def drop_spec_def Let_def)
qed

subsection \<open>The table\<close>

definition live_sub :: "field_sub \<Rightarrow> bool" where
  "live_sub fs \<longleftrightarrow> field_sub_ok fs \<and> \<not> (fs_counts fs = [] \<and> fs_maskedCounts fs = [])"

definition subs_ok :: "sub_store \<Rightarrow> bool" where
  "subs_ok ss \<longleftrightarrow>
     distinct (okeys (ss_index ss)) \<and> ewf (ss_heap ss) \<and> (\<forall>(i, r)\<in>set (ss_index ss). r < ss_next ss)
     \<and> list_all (\<lambda>(r, flds). r < ss_next ss \<and> list_all (\<lambda>(key, fs). live_sub fs) flds) (ss_heap ss)"

lemma field_sub_ok_new: "field_sub_ok new_field_sub"
  by (simp add: field_sub_ok_def new_field_sub_def counts_ok_new)

lemma live_add_ref:
  assumes "field_sub_ok fs"
  shows "live_sub (add_ref sel masked fs)"
proof (cases masked)
  case True
  obtain s c where a: "count_ref (fst sel) (snd sel) (fs_maskedSelections fs, fs_maskedCounts fs) = (s, c)" by fastforce
  have "counts_ok s c" "c \<noteq> []" using assms counts_ok_count [OF _ a] by (simp_all add: field_sub_ok_def)
  with True a assms show ?thesis by (simp add: live_sub_def field_sub_ok_def add_ref_def)
next
  case False
  obtain s c where a: "count_ref (fst sel) (snd sel) (fs_selections fs, fs_counts fs) = (s, c)" by fastforce
  have "counts_ok s c" "c \<noteq> []" using assms counts_ok_count [OF _ a] by (simp_all add: field_sub_ok_def)
  with False a assms show ?thesis by (simp add: live_sub_def field_sub_ok_def add_ref_def)
qed

lemma subs_ok_new: "subs_ok new_subs"
  by (simp add: subs_ok_def new_subs_def)

lemma subs_ok_heap:
  assumes "subs_ok ss" and "map_of (ss_heap ss) r = Some flds"
  shows "r < ss_next ss" and "distinct (okeys flds)" and "list_all (\<lambda>(key, fs). live_sub fs) flds"
  using assms map_of_mem [OF assms(2)] by (auto simp: subs_ok_def list_all_iff ewf_def)

lemma subs_ok_lookup: "subs_ok ss \<Longrightarrow> eget (ss_heap ss) r key = Some fs \<Longrightarrow> live_sub fs"
  using subs_ok_heap(3) map_of_mem by (fastforce simp: eget_def list_all_iff split: option.splits)

lemma subs_ok_set_heap:
  assumes "subs_ok ss" and "r < ss_next ss" and "distinct (okeys flds)" and "list_all (\<lambda>(key, fs). live_sub fs) flds"
  shows "subs_ok (ss\<lparr>ss_heap := oset r flds (ss_heap ss)\<rparr>)"
  using assms by (simp add: subs_ok_def ewf_oset list_all_oset)

lemma subs_ok_fresh:
  assumes "subs_ok ss"
  shows "subs_ok (ss\<lparr>ss_index := oset i (ss_next ss) (ss_index ss), ss_heap := oset (ss_next ss) [] (ss_heap ss),
    ss_next := Suc (ss_next ss)\<rparr>)"
proof -
  have "r < Suc (ss_next ss)" if "(j, r) \<in> set (oset i (ss_next ss) (ss_index ss))" for j r
    using that assms list_all_oset [of "\<lambda>(j, r). r < Suc (ss_next ss)" "ss_index ss" i "ss_next ss"]
    by (fastforce simp: subs_ok_def list_all_iff)
  moreover have "list_all (\<lambda>(r, flds). r < Suc (ss_next ss) \<and> list_all (\<lambda>(key, fs). live_sub fs) flds) (ss_heap ss)"
    using assms by (auto simp: subs_ok_def list_all_iff less_Suc_eq)
  ultimately show ?thesis using assms by (auto simp: subs_ok_def distinct_oset ewf_oset intro: list_all_oset)
qed

lemma oget_heap_ok:
  assumes "subs_ok ss"
  shows "distinct (okeys (oget [] (ss_heap ss) r))" and "list_all (\<lambda>(key, fs). live_sub fs) (oget [] (ss_heap ss) r)"
  using subs_ok_heap(2,3) [OF assms, of r] by (auto simp: oget_def split: option.split)

lemma subs_ok_versions [simp]: "subs_ok (ss\<lparr>ss_keyVersions := kv\<rparr>) = subs_ok ss"
  by (simp add: subs_ok_def)

lemma subs_ok_addField:
  assumes "subs_ok ss"
  shows "subs_ok (subs_addField i key sel masked ss)"
proof -
  define ss1 where "ss1 = (case map_of (ss_index ss) i of
            Some r \<Rightarrow> ss
          | None \<Rightarrow> ss\<lparr>ss_index := oset i (ss_next ss) (ss_index ss), ss_heap := oset (ss_next ss) [] (ss_heap ss),
                      ss_next := Suc (ss_next ss)\<rparr>)"
  define ref where "ref = oget 0 (ss_index ss1) i"
  have ok: "subs_ok ss1" using assms subs_ok_fresh [OF assms] by (simp add: ss1_def split: option.split)
  have ref: "ref < ss_next ss1"
    using assms map_of_mem [of "ss_index ss" i]
    by (fastforce simp: ref_def ss1_def oget_def omap_simps subs_ok_def split: option.split)
  have fs: "field_sub_ok (case eget (ss_heap ss1) ref key of None \<Rightarrow> new_field_sub | Some fs \<Rightarrow> fs)"
    using subs_ok_lookup [OF ok, of ref key] field_sub_ok_new by (auto simp: live_sub_def split: option.split)
  let ?e = "add_ref sel masked (case eget (ss_heap ss1) ref key of None \<Rightarrow> new_field_sub | Some fs \<Rightarrow> fs)"
  have "subs_ok (ss1\<lparr>ss_heap := oset ref (oset key ?e (oget [] (ss_heap ss1) ref)) (ss_heap ss1)\<rparr>)"
    by (intro subs_ok_set_heap ok ref distinct_oset list_all_oset oget_heap_ok) (simp add: live_add_ref [OF fs])
  then have "subs_ok (ss1\<lparr>ss_heap := eset ref key ?e (ss_heap ss1),
      ss_keyVersions := oset key (sadd key (oget [] (ss_keyVersions ss1) key)) (ss_keyVersions ss1)\<rparr>)"
    by (simp add: eset_def subs_ok_def)
  then show ?thesis
    unfolding subs_addField_def Let_def ss1_def [symmetric] ref_def [symmetric] .
qed

lemma subs_ok_index:
  assumes "subs_ok ss" and "subseq index (ss_index ss)"
  shows "subs_ok (ss\<lparr>ss_index := index\<rparr>)"
proof -
  have "subseq (okeys index) (okeys (ss_index ss))" using assms(2) by (rule subseq_map)
  moreover have "set index \<subseteq> set (ss_index ss)" using assms(2) by (auto dest: list_emb_set)
  ultimately show ?thesis using assms(1) distinct_subseq by (fastforce simp: subs_ok_def)
qed

lemma subs_ok_removeSubscribers:
  assumes "subs_ok ss"
  shows "subs_ok (removeSubscribers i key specs pm ss)"
proof (cases "map_of (ss_index ss) i")
  case None
  with assms show ?thesis by (simp add: removeSubscribers_def)
next
  case (Some ref)
  show ?thesis
  proof (cases "eget (ss_heap ss) ref key")
    case None
    with assms Some show ?thesis by (simp add: removeSubscribers_def)
  next
    case fs: (Some fs)
    define fs1 where "fs1 = drop_specs pm specs fs"
    define record1 where "record1 = (if fs_counts fs1 = [] \<and> fs_maskedCounts fs1 = []
      then odel key (oget [] (ss_heap ss) ref) else oset key fs1 (oget [] (ss_heap ss) ref))"
    have ref: "ref < ss_next ss" using map_of_mem [OF Some] assms by (auto simp: subs_ok_def)
    have "field_sub_ok fs1"
      unfolding fs1_def using subs_ok_lookup [OF assms fs] by (intro drop_specs_ok) (simp add: live_sub_def)
    then have "list_all (\<lambda>(key, fs). live_sub fs) record1"
      unfolding record1_def using oget_heap_ok(2) [OF assms]
      by (auto intro!: list_all_oset list_all_odel simp: live_sub_def)
    moreover have "distinct (okeys record1)"
      unfolding record1_def using oget_heap_ok(1) [OF assms] by (simp add: distinct_oset distinct_odel)
    ultimately have ok: "subs_ok (ss\<lparr>ss_heap := oset ref record1 (ss_heap ss)\<rparr>)"
      using assms ref by (intro subs_ok_set_heap)
    have "subs_ok (ss\<lparr>ss_heap := oset ref record1 (ss_heap ss), ss_index := odel i (ss_index ss)\<rparr>)"
      using subs_ok_index [OF ok, of "odel i (ss_index ss)"] by (simp add: AList.delete_eq)
    with ok show ?thesis
      unfolding removeSubscribers_def Some fs option.case Let_def fs1_def [symmetric] record1_def [symmetric]
      by (cases "record1 = []") simp_all
  qed
qed

lemma subs_ok_reset: "subs_ok ss \<Longrightarrow> subs_ok (snd (subs_reset ss))"
  by (simp add: subs_reset_def Let_def subs_ok_index)

lemma subs_ok_copy: "subs_ok ss \<Longrightarrow> subs_ok (copySubscribers frm to ss)"
proof (cases "map_of (ss_index ss) frm")
  case None
  assume "subs_ok ss"
  with None show ?thesis using subs_ok_fresh [of ss to] by (simp add: copySubscribers_def)
next
  case (Some r)
  assume ok: "subs_ok ss"
  have "r < ss_next ss" using ok map_of_mem [OF Some] by (auto simp: subs_ok_def)
  then have "list_all (\<lambda>(j, r). r < ss_next ss) (oset to r (ss_index ss))"
    using ok by (intro list_all_oset) (auto simp: subs_ok_def list_all_iff)
  with ok Some show ?thesis by (auto simp: copySubscribers_def subs_ok_def distinct_oset list_all_iff)
qed

text \<open>So every listener of a field is listed once.\<close>

lemma listeners_distinct:
  assumes "subs_ok ss"
  shows "distinct (map (\<lambda>s. sp_onMessage (fst s)) (subs_get ss i key))"
proof -
  have "live_sub fs" if f: "field_sub_of ss i key = Some fs" for fs
  proof -
    obtain r where "map_of (ss_index ss) i = Some r" "map_of (oget [] (ss_heap ss) r) key = Some fs"
      using f unfolding field_sub_of_def subscribers_def by (cases "map_of (ss_index ss) i") simp_all
    then have "eget (ss_heap ss) r key = Some fs" by (auto simp: eget_def oget_def split: option.splits)
    then show ?thesis using assms by (rule subs_ok_lookup [rotated])
  qed
  then show ?thesis
    by (auto simp: subs_get_def live_sub_def field_sub_ok_def counts_ok_def split: option.split)
qed

subsection \<open>The garbage collector\<close>

text \<open>A field of a record that no other id stands for.\<close>

lemma deleteField_view:
  assumes "g \<noteq> f \<or> k \<noteq> i"
  shows "same_view g (layer_deleteField i f l, k) (l, k)"
  using assms by (auto simp: same_view_def layer_deleteField_def layer_get_def getOperations_def undone_in_def omap_simps fun_eq_iff)

lemma deleteField_frame:
  assumes "g \<noteq> f \<or> i \<notin> set (recordIDs st j)"
  shows "storage_get (storage_deleteField i f st) j g = storage_get st j g"
  unfolding storage_deleteField_def by (rule on_top_view) (use assms in \<open>auto intro!: deleteField_view\<close>)

lemma tick_field_state:
  "cs_subs (tick_field i f n cs) = cs_subs cs \<and> cs_config (tick_field i f n cs) = cs_config cs
     \<and> idMaps (cs_storage (tick_field i f n cs)) = idMaps (cs_storage cs)"
proof -
  have "idMaps (storage_deleteField i f st) = idMaps st" for st
    by (simp add: storage_deleteField_def on_top_idMaps ensure_top_def createLayer_eq Let_def)
  then show ?thesis
    by (simp add: tick_field_def expire_field_def evict_field_def Let_def on_lists_def on_storage_def on_stale_def split: option.split)
qed

lemma tick_field_storage:
  "cs_storage (tick_field i f n cs) =
     (if \<not> is_subscribed cs i f \<and> cacheBufferSize (cs_config cs) < int (Suc n) then storage_deleteField i f (cs_storage cs)
      else cs_storage cs)"
  by (simp add: tick_field_def expire_field_def evict_field_def Let_def on_lists_def on_storage_def on_stale_def split: option.split)

lemma is_subscribed_cong: "cs_subs cs' = cs_subs cs \<Longrightarrow> is_subscribed cs' i f = is_subscribed cs i f"
  by (simp add: is_subscribed_def)

text \<open>What is subscribed to survives every tick.\<close>

text \<open>
  A field that somebody subscribes to keeps its value and its subscribers through a tick of the
  collector.
\<close>

lemma gc_spares:
  assumes "is_subscribed cs i f" and "oget [] (idMaps (cs_storage cs)) i = []"
  shows "storage_get (cs_storage (gc_tick cs)) i f = storage_get (cs_storage cs) i f \<and> is_subscribed (gc_tick cs) i f"
proof -
  let ?P = "\<lambda>s. storage_get (cs_storage s) i f = storage_get (cs_storage cs) i f \<and> cs_subs s = cs_subs cs
    \<and> idMaps (cs_storage s) = idMaps (cs_storage cs)"
  have step: "?P (tick_field j g n s)" if P: "?P s" for j g n s
  proof -
    have "storage_get (cs_storage (tick_field j g n s)) i f = storage_get (cs_storage s) i f"
    proof (cases "j = i \<and> g = f")
      case True
      then have "is_subscribed s j g" using P assms(1) is_subscribed_cong by metis
      then show ?thesis by (simp add: tick_field_storage)
    next
      case False
      then have "f \<noteq> g \<or> j \<notin> set (recordIDs (cs_storage s) i)" using P assms(2) by (auto simp: recordIDs_def)
      then show ?thesis by (simp add: tick_field_storage deleteField_frame)
    qed
    then show ?thesis using P tick_field_state by simp
  qed
  have "?P (gc_tick cs)"
    unfolding gc_tick_def by (rule fold_invariant_list [where P = ?P]) (auto simp: step simp del: split_paired_All)
  then show ?thesis using assms(1) is_subscribed_cong by blast
qed

text \<open>A field that was unsubscribed for longer than the buffer is gone after the tick.\<close>

definition one_layer :: "string \<Rightarrow> storage \<Rightarrow> layer \<Rightarrow> bool" where
  "one_layer i st l \<longleftrightarrow> sdata st = [l] \<and> \<not> optimistic l \<and> layer_ok l \<and> map_of (operations l) i = None \<and> oget [] (idMaps st) i = []"

lemma one_layer_deleteField:
  assumes "one_layer i st l"
  shows "one_layer i (storage_deleteField j g st) (layer_deleteField j g l)"
  using assms layer_ok_deleteField [of l j g]
  by (auto simp: one_layer_def storage_deleteField_def on_top_def ensure_top_def Let_def layer_deleteField_def)

lemma drop_undefined_clears:
  assumes "(f, GUndef) \<in> set r \<or> (eget (lfields l) i f = None \<and> eget (llinks l) i f = None)"
  shows "eget (lfields (drop_undefined i r l)) i f = None \<and> eget (llinks (drop_undefined i r l)) i f = None"
  using assms unfolding drop_undefined_def
proof (induction r arbitrary: l)
  case (Cons e r)
  obtain g v where e: "e = (g, v)" by fastforce
  let ?l = "if v = GUndef then l\<lparr>lfields := edel i g (lfields l), llinks := edel i g (llinks l)\<rparr> else l"
  have "(f, GUndef) \<in> set r \<or> (eget (lfields ?l) i f = None \<and> eget (llinks ?l) i f = None)"
    using Cons.prems by (auto simp: e omap_simps)
  from Cons.IH [OF this] show ?case by (simp add: e)
qed simp

lemma drop_undefined_keeps:
  "eget (lfields l) j f = None \<and> eget (llinks l) j f = None
     \<Longrightarrow> eget (lfields (drop_undefined i r l)) j f = None \<and> eget (llinks (drop_undefined i r l)) j f = None"
  unfolding drop_undefined_def
  by (induction r arbitrary: l) (auto simp: omap_simps)

lemma drop_empty_keeps:
  "eget (lfields l) j f = None \<and> eget (llinks l) j f = None
     \<Longrightarrow> eget (lfields (drop_empty_record i l)) j f = None \<and> eget (llinks (drop_empty_record i l)) j f = None"
  by (cases "j = i") (auto simp: drop_empty_record_def Let_def omap_simps)

lemma removeUndefined_clears:
  assumes "eget (lfields l) i f = Some GUndef"
  shows "eget (lfields (removeUndefinedFields l)) i f = None \<and> eget (llinks (removeUndefinedFields l)) i f = None"
proof -
  obtain r where r: "map_of (lfields l) i = Some r" "map_of r f = Some GUndef"
    using assms by (auto simp: eget_def split: option.splits)
  have "(i, r) \<in> set (lfields l)" "(f, GUndef) \<in> set r" using r by (simp_all add: map_of_mem)
  moreover have "eget (lfields s) i f = None \<and> eget (llinks s) i f = None"
    if s: "s = fold (\<lambda>(i, r) l. drop_empty_record i (drop_undefined i r l)) m l" and m: "(i, r) \<in> set m" "(f, GUndef) \<in> set r" for m s
    using m unfolding s
  proof (induction m rule: rev_induct)
    case (snoc e m)
    obtain j q where e: "e = (j, q)" by fastforce
    let ?l = "fold (\<lambda>(i, r) l. drop_empty_record i (drop_undefined i r l)) m l"
    have "eget (lfields (drop_undefined j q ?l)) i f = None \<and> eget (llinks (drop_undefined j q ?l)) i f = None"
    proof (cases "(i, r) \<in> set m")
      case True
      from drop_undefined_keeps [OF snoc.IH [OF True snoc.prems(2)]] show ?thesis .
    next
      case False
      then have "j = i" "q = r" using snoc.prems(1) e by auto
      then show ?thesis using snoc.prems(2) by (simp add: drop_undefined_clears)
    qed
    from drop_empty_keeps [OF this] show ?case by (simp add: e)
  qed simp
  ultimately show ?thesis unfolding removeUndefinedFields_def by blast
qed

lemma removeUndefined_operations: "operations (removeUndefinedFields l) = operations l"
proof -
  have "operations (drop_undefined i r l) = operations l" for i r l
    unfolding drop_undefined_def by (induction r arbitrary: l) auto
  then have "operations (fold (\<lambda>(i, r) l. drop_empty_record i (drop_undefined i r l)) m l) = operations l" for m
    by (induction m arbitrary: l) (auto simp: drop_empty_record_def Let_def)
  then show ?thesis by (simp add: removeUndefinedFields_def)
qed


end
