(* ===== verification/ListLaws.thy ===== *)
theory ListLaws
  imports ListStore
begin

section \<open>Laws of the list registry\<close>

text \<open>
  The invariant of \<open>ListManager\<close>: a collection that can be found is not empty, holds one list per field
  key, and every list in it carries the name and the parent that it is found under; every list is also
  known by its field; an opaque id leads to a collection that the name and the parent lead to as well.
\<close>

definition collection_ok :: "list_manager \<Rightarrow> string \<Rightarrow> string \<Rightarrow> nat \<Rightarrow> bool" where
  "collection_ok lm n p r \<longleftrightarrow>
     r < lm_next lm \<and> collection lm r \<noteq> [] \<and> distinct (map lh_key (collection lm r))
     \<and> (\<forall>h\<in>set (collection lm r). lh_name h = n \<and> lh_recordID h = p
          \<and> (\<exists>hs. eget (lm_byField lm) p (lh_key h) = Some hs \<and> n \<in> lh_name ` set hs))"

definition lists_ok :: "list_manager \<Rightarrow> bool" where
  "lists_ok lm \<longleftrightarrow>
     (\<forall>n p r. eget (lm_lists lm) n p = Some r \<longrightarrow> collection_ok lm n p r)
     \<and> (\<forall>p k hs. eget (lm_byField lm) p k = Some hs \<longrightarrow> (\<forall>h\<in>set hs. lh_recordID h = p \<and> lh_key h = k))
     \<and> (\<forall>i r. map_of (lm_byOpaque lm) i = Some r \<longrightarrow> (\<exists>n p. i = opaqueListID p n \<and> eget (lm_lists lm) n p = Some r))"

lemma collection_okI:
  assumes "r < lm_next lm" and "collection lm r \<noteq> []" and "distinct (map lh_key (collection lm r))"
    and "\<And>h. h \<in> set (collection lm r) \<Longrightarrow> lh_name h = n \<and> lh_recordID h = p
          \<and> (\<exists>hs. eget (lm_byField lm) p (lh_key h) = Some hs \<and> n \<in> lh_name ` set hs)"
  shows "collection_ok lm n p r"
  using assms unfolding collection_ok_def by blast

lemma collection_okD:
  assumes "collection_ok lm n p r"
  shows "r < lm_next lm" and "collection lm r \<noteq> []" and "distinct (map lh_key (collection lm r))"
    and "h \<in> set (collection lm r) \<Longrightarrow> lh_name h = n \<and> lh_recordID h = p
          \<and> (\<exists>hs. eget (lm_byField lm) p (lh_key h) = Some hs \<and> n \<in> lh_name ` set hs)"
  using assms unfolding collection_ok_def by blast+

lemma lists_okI:
  assumes "\<And>n p r. eget (lm_lists lm) n p = Some r \<Longrightarrow> collection_ok lm n p r"
    and "\<And>p k hs h. eget (lm_byField lm) p k = Some hs \<Longrightarrow> h \<in> set hs \<Longrightarrow> lh_recordID h = p \<and> lh_key h = k"
    and "\<And>i r. map_of (lm_byOpaque lm) i = Some r \<Longrightarrow> \<exists>n p. i = opaqueListID p n \<and> eget (lm_lists lm) n p = Some r"
  shows "lists_ok lm"
  using assms unfolding lists_ok_def by blast

lemma lists_ok_collection: "lists_ok lm \<Longrightarrow> eget (lm_lists lm) n p = Some r \<Longrightarrow> collection_ok lm n p r"
  by (simp add: lists_ok_def)

lemma lists_ok_field: "lists_ok lm \<Longrightarrow> eget (lm_byField lm) p k = Some hs \<Longrightarrow> h \<in> set hs \<Longrightarrow> lh_recordID h = p \<and> lh_key h = k"
  by (simp add: lists_ok_def)

lemma lists_ok_opaque: "lists_ok lm \<Longrightarrow> map_of (lm_byOpaque lm) i = Some r \<Longrightarrow> \<exists>n p. i = opaqueListID p n \<and> eget (lm_lists lm) n p = Some r"
  by (simp add: lists_ok_def)

text \<open>Two names never share a collection.\<close>

lemma collection_unique:
  assumes "lists_ok lm" and "eget (lm_lists lm) n p = Some r" and "eget (lm_lists lm) n' p' = Some r"
  shows "n' = n \<and> p' = p"
proof -
  have "collection_ok lm n p r" "collection_ok lm n' p' r" using assms lists_ok_collection by blast+
  moreover from this obtain h where "h \<in> set (collection lm r)" unfolding collection_ok_def by (meson list.set_sel(1))
  ultimately show ?thesis by (auto simp: collection_ok_def)
qed

lemma lists_ok_new: "lists_ok new_lists"
  by (simp add: lists_ok_def new_lists_def)

lemma lists_ok_reset: "lists_ok (lists_reset lm)"
  by (simp add: lists_ok_def lists_reset_def)

lemma lists_ok_remove:
  assumes "lists_ok lm"
  shows "lists_ok (lists_remove n i lm)"
proof (rule lists_okI)
  fix m p r assume "eget (lm_lists (lists_remove n i lm)) m p = Some r"
  then have "collection_ok lm m p r" using assms
    by (auto simp: lists_remove_def Let_def omap_simps lists_ok_def split: if_splits)
  then show "collection_ok (lists_remove n i lm) m p r"
    by (simp add: collection_ok_def lists_remove_def collection_def Let_def)
next
  fix o' r assume "map_of (lm_byOpaque (lists_remove n i lm)) o' = Some r"
  then have m: "map_of (lm_byOpaque lm) o' = Some r" "o' \<noteq> opaqueListID (if i = [] then rootID else i) n"
    by (auto simp: lists_remove_def Let_def omap_simps split: if_splits)
  obtain m p where "o' = opaqueListID p m" "eget (lm_lists lm) m p = Some r" using lists_ok_opaque [OF assms m(1)] by blast
  with m(2) show "\<exists>m p. o' = opaqueListID p m \<and> eget (lm_lists (lists_remove n i lm)) m p = Some r"
    by (intro exI [of _ m] exI [of _ p]) (auto simp: lists_remove_def Let_def omap_simps)
qed (use assms in \<open>auto simp: lists_remove_def Let_def lists_ok_def\<close>)

subsection \<open>Registering a list\<close>

definition open_collection :: "string \<Rightarrow> string \<Rightarrow> list_manager \<Rightarrow> nat \<times> list_manager" where
  "open_collection n p lm =
     (case eget (lm_lists lm) n p of
        Some r \<Rightarrow> (r, lm)
      | None \<Rightarrow> (lm_next lm, lm\<lparr>lm_lists := eset n p (lm_next lm) (lm_lists lm),
                      lm_heap := oset (lm_next lm) [] (lm_heap lm), lm_next := Suc (lm_next lm)\<rparr>))"

definition known_name :: "string \<Rightarrow> list_manager \<Rightarrow> list_manager" where
  "known_name n lm = (if map_of (lm_lists lm) n = None then lm\<lparr>lm_lists := oset n [] (lm_lists lm)\<rparr> else lm)"

definition registered :: "list_handler \<Rightarrow> list_manager \<Rightarrow> bool" where
  "registered h lm \<longleftrightarrow> (\<exists>r g. eget (lm_lists lm) (lh_name h) (lh_recordID h) = Some r \<and> g \<in> set (collection lm r) \<and> lh_key g = lh_key h)"

lemma known_name_simps [simp]:
  "eget (lm_lists (known_name n lm)) m p = eget (lm_lists lm) m p" "lm_byField (known_name n lm) = lm_byField lm"
  "lm_byOpaque (known_name n lm) = lm_byOpaque lm" "collection (known_name n lm) r = collection lm r"
  "lm_next (known_name n lm) = lm_next lm" "lm_heap (known_name n lm) = lm_heap lm"
  by (auto simp: known_name_def eget_def omap_simps collection_def)

lemma known_name_ok: "lists_ok lm \<Longrightarrow> lists_ok (known_name n lm)"
  by (simp add: lists_ok_def collection_ok_def)

lemma lists_add_cases:
  "lists_add h lm =
     (let lm1 = known_name (lh_name h) lm; (r, lm2) = open_collection (lh_name h) (lh_recordID h) lm1;
          known = (case eget (lm_byField lm2) (lh_recordID h) (lh_key h) of None \<Rightarrow> [] | Some hs \<Rightarrow> hs)
      in if registered h lm then lm1
         else lm2\<lparr>lm_heap := oset r (collection lm2 r @ [h]) (lm_heap lm2),
                  lm_byField := eset (lh_recordID h) (lh_key h) (known @ [h]) (lm_byField lm2),
                  lm_byOpaque := oset (opaqueListID (lh_recordID h) (lh_name h)) r (lm_byOpaque lm2)\<rparr>)"
proof -
  have "(case eget (lm_lists lm) (lh_name h) (lh_recordID h) of None \<Rightarrow> False
     | Some r \<Rightarrow> list_ex (\<lambda>g. lh_key g = lh_key h) (collection lm r)) = registered h lm"
    by (auto simp: registered_def list_ex_iff split: option.split)
  then show ?thesis
    unfolding lists_add_def Let_def known_name_def [symmetric]
    by (auto simp: open_collection_def omap_simps split: option.splits)
qed

lemma open_collection_ok:
  assumes o: "open_collection n p lm = (r, lm2)" and ok: "lists_ok lm"
  shows "eget (lm_lists lm2) m q = (if m = n \<and> q = p then Some r else eget (lm_lists lm) m q)
      \<and> lm_byField lm2 = lm_byField lm \<and> lm_byOpaque lm2 = lm_byOpaque lm \<and> r < lm_next lm2 \<and> lm_next lm \<le> lm_next lm2
      \<and> collection lm2 r = (case eget (lm_lists lm) n p of None \<Rightarrow> [] | Some r \<Rightarrow> collection lm r)
      \<and> (r' \<noteq> r \<longrightarrow> collection lm2 r' = collection lm r') \<and> (eget (lm_lists lm) m q = Some r \<longrightarrow> m = n \<and> q = p)"
proof (cases "eget (lm_lists lm) n p")
  case None
  then have e: "r = lm_next lm" "lm2 = lm\<lparr>lm_lists := eset n p (lm_next lm) (lm_lists lm),
      lm_heap := oset (lm_next lm) [] (lm_heap lm), lm_next := Suc (lm_next lm)\<rparr>"
    using o by (auto simp: open_collection_def)
  have "eget (lm_lists lm) m q \<noteq> Some (lm_next lm)"
    using lists_ok_collection [OF ok, of m q "lm_next lm"] by (auto simp: collection_ok_def)
  with None show ?thesis unfolding e by (simp add: omap_simps collection_def)
next
  case (Some s)
  then have e: "lm2 = lm" "s = r" using o by (auto simp: open_collection_def)
  have "r < lm_next lm" using lists_ok_collection [OF ok Some] by (simp add: collection_ok_def e)
  moreover have "eget (lm_lists lm) m q = Some r \<longrightarrow> m = n \<and> q = p"
    using collection_unique [OF ok Some, of m q] unfolding e by blast
  moreover have "eget (lm_lists lm) m q = (if m = n \<and> q = p then Some r else eget (lm_lists lm) m q)"
    using Some unfolding e(2) by (cases "m = n \<and> q = p") (elim conjE, simp, simp only: if_False)
  ultimately show ?thesis
    unfolding e(1) Some [unfolded e(2)] option.case by blast
qed

lemma lists_ok_add:
  assumes ok: "lists_ok lm"
  shows "lists_ok (lists_add h lm)"
proof (cases "registered h lm")
  case True
  then show ?thesis using known_name_ok [OF ok] by (simp add: lists_add_cases Let_def case_prod_unfold)
next
  case False
  let ?n = "lh_name h" and ?p = "lh_recordID h"
  define lm1 where "lm1 = known_name ?n lm"
  have ok1: "lists_ok lm1" unfolding lm1_def using ok by (rule known_name_ok)
  obtain r lm2 where o: "open_collection ?n ?p lm1 = (r, lm2)" by fastforce
  note oc = open_collection_ok [OF o ok1]
  have oc1: "eget (lm_lists lm2) m q = (if m = ?n \<and> q = ?p then Some r else eget (lm_lists lm1) m q)" for m q using oc by blast
  have oc2: "lm_byField lm2 = lm_byField lm1" "lm_byOpaque lm2 = lm_byOpaque lm1" "r < lm_next lm2" "lm_next lm1 \<le> lm_next lm2"
    "collection lm2 r = (case eget (lm_lists lm1) ?n ?p of None \<Rightarrow> [] | Some r \<Rightarrow> collection lm1 r)" using oc by blast+
  have oc7: "collection lm2 r' = collection lm1 r'" if "r' \<noteq> r" for r' using oc that by blast
  have oc8: "m = ?n \<and> q = ?p" if "eget (lm_lists lm1) m q = Some r" for m q using oc that by blast
  define known where "known = (case eget (lm_byField lm2) ?p (lh_key h) of None \<Rightarrow> [] | Some hs \<Rightarrow> hs)"
  define lm3 where "lm3 = lists_add h lm"
  have lm3: "lm3 = lm2\<lparr>lm_heap := oset r (collection lm2 r @ [h]) (lm_heap lm2),
                  lm_byField := eset ?p (lh_key h) (known @ [h]) (lm_byField lm2),
                  lm_byOpaque := oset (opaqueListID ?p ?n) r (lm_byOpaque lm2)\<rparr>"
    using False o by (simp add: lm3_def lists_add_cases Let_def lm1_def [symmetric] known_def)
  have names: "eget (lm_lists lm3) m q = (if m = ?n \<and> q = ?p then Some r else eget (lm_lists lm1) m q)" for m q
    using oc1 by (simp add: lm3)
  have coll: "collection lm3 s = (if s = r then collection lm2 r @ [h] else collection lm2 s)" for s
    by (simp add: lm3 collection_def omap_simps)
  have field: "\<exists>hs'. eget (lm_byField lm3) q k = Some hs' \<and> m \<in> lh_name ` set hs'"
    if "eget (lm_byField lm1) q k = Some hs" "m \<in> lh_name ` set hs" for q k hs m
    using that by (auto simp: lm3 omap_simps known_def oc2(1))
  have key: "lh_key h \<notin> lh_key ` set (collection lm2 r)"
    using False oc2(5) by (auto simp: registered_def lm1_def split: option.splits)
  have "lists_ok lm3"
  proof (rule lists_okI)
    fix m q s assume "eget (lm_lists lm3) m q = Some s"
    then have "if m = ?n \<and> q = ?p then s = r else eget (lm_lists lm1) m q = Some s"
      unfolding names by (cases "m = ?n \<and> q = ?p") (elim conjE, simp, simp only: if_False)
    then consider "m = ?n" "q = ?p" "s = r" | "eget (lm_lists lm1) m q = Some s" "\<not> (m = ?n \<and> q = ?p)"
      by (metis (full_types))
    then show "collection_ok lm3 m q s"
    proof cases
      case 1
      have old: "collection_ok lm1 ?n ?p s" "collection lm2 r = collection lm1 s" if "eget (lm_lists lm1) ?n ?p = Some s" for s
        using lists_ok_collection [OF ok1 that] oc2(5) that by simp_all
      have elems: "lh_name g = ?n \<and> lh_recordID g = ?p \<and> (\<exists>hs. eget (lm_byField lm1) ?p (lh_key g) = Some hs \<and> ?n \<in> lh_name ` set hs)"
        if "g \<in> set (collection lm2 r)" for g
        using that oc2(5) old collection_okD(4) by (cases "eget (lm_lists lm1) ?n ?p") auto
      have "distinct (map lh_key (collection lm2 r))"
        using oc2(5) old collection_okD(3) by (cases "eget (lm_lists lm1) ?n ?p") auto
      moreover have "\<exists>hs. eget (lm_byField lm3) ?p (lh_key h) = Some hs \<and> ?n \<in> lh_name ` set hs"
        by (simp add: lm3 omap_simps)
      moreover have "r < lm_next lm3" using oc2(3) by (simp add: lm3)
      moreover have "\<exists>hs. eget (lm_byField lm3) ?p (lh_key g) = Some hs \<and> ?n \<in> lh_name ` set hs"
        if "g \<in> set (collection lm2 r)" for g using elems [OF that] field by blast
      ultimately show ?thesis
        unfolding 1 using key elems by (intro collection_okI) (auto simp: coll)
    next
      case 2
      then have "s \<noteq> r" using oc8 by blast
      moreover have "collection_ok lm1 m q s" using ok1 2(1) by (rule lists_ok_collection)
      moreover have "lm_next lm1 \<le> lm_next lm3" using oc2(4) by (simp add: lm3)
      ultimately show ?thesis
        unfolding collection_ok_def coll using field oc7 [of s] by fastforce
    qed
  next
    fix p' k hs g assume "eget (lm_byField lm3) p' k = Some hs" "g \<in> set hs"
    moreover have "set known \<subseteq> {g. \<exists>hs'. eget (lm_byField lm1) ?p (lh_key h) = Some hs' \<and> g \<in> set hs'}"
      unfolding known_def oc2(1) by (cases "eget (lm_byField lm1) ?p (lh_key h)") simp_all
    moreover have "eget (lm_byField lm3) p' k = (if p' = ?p \<and> k = lh_key h then Some (known @ [h]) else eget (lm_byField lm1) p' k)"
      unfolding lm3 oc2(1) by (simp add: eget_eset)
    ultimately have "(g = h \<and> p' = ?p \<and> k = lh_key h) \<or> (\<exists>hs'. eget (lm_byField lm1) p' k = Some hs' \<and> g \<in> set hs')"
      by (cases "p' = ?p \<and> k = lh_key h") auto
    then show "lh_recordID g = p' \<and> lh_key g = k"
      using lists_ok_field [OF ok1] by blast
  next
    fix i s assume "map_of (lm_byOpaque lm3) i = Some s"
    then have "(if i = opaqueListID ?p ?n then Some r else map_of (lm_byOpaque lm1) i) = Some s"
      unfolding lm3 oc2(2) by (simp add: map_of_oset)
    then consider "i = opaqueListID ?p ?n" "s = r" | "map_of (lm_byOpaque lm1) i = Some s"
      by (metis option.inject)
    then show "\<exists>n p. i = opaqueListID p n \<and> eget (lm_lists lm3) n p = Some s"
    proof cases
      case 2
      then obtain n p where np: "i = opaqueListID p n" "eget (lm_lists lm1) n p = Some s" using lists_ok_opaque [OF ok1] by blast
      have "eget (lm_lists lm3) n p = Some s"
        using np(2) o by (cases "n = ?n \<and> p = ?p") (auto simp: names open_collection_def)
      with np(1) show ?thesis by blast
    qed (auto simp: names)
  qed
  then show ?thesis by (simp add: lm3_def)
qed

subsection \<open>Forgetting the lists of a field\<close>

lemma drop_handler_simps [simp]: "lm_byField (drop_handler f h lm) = lm_byField lm" "lm_next (drop_handler f h lm) = lm_next lm"
  by (auto simp: drop_handler_def Let_def split: option.split)

lemma drop_handler_lists:
  assumes "lists_ok lm" and "eget (lm_lists (drop_handler f h lm)) n p = Some r"
  shows "eget (lm_lists lm) n p = Some r"
    and "collection (drop_handler f h lm) r = (if n = lh_name h \<and> p = lh_recordID h
      then filter (\<lambda>g. lh_key g \<noteq> f) (collection lm r) else collection lm r)"
    and "collection (drop_handler f h lm) r \<noteq> []"
proof -
  have "eget (lm_lists lm) n p = Some r \<and> collection (drop_handler f h lm) r = (if n = lh_name h \<and> p = lh_recordID h
      then filter (\<lambda>g. lh_key g \<noteq> f) (collection lm r) else collection lm r) \<and> collection (drop_handler f h lm) r \<noteq> []"
  proof (cases "eget (lm_lists lm) (lh_name h) (lh_recordID h)")
    case None
    then have "drop_handler f h lm = lm" by (simp add: drop_handler_def)
    moreover from this have "collection lm r \<noteq> []" using assms lists_ok_collection collection_okD(2) by metis
    ultimately show ?thesis using None assms(2) by auto
  next
    case (Some s)
    define left where "left = filter (\<lambda>g. lh_key g \<noteq> f) (collection lm s)"
    have l: "lm_lists (drop_handler f h lm) = (if left = [] then edel (lh_name h) (lh_recordID h) (lm_lists lm) else lm_lists lm)"
      and c: "collection (drop_handler f h lm) t = (if t = s then left else collection lm t)" for t
      by (simp_all add: drop_handler_def Some Let_def left_def collection_def omap_simps)
    have e: "eget (lm_lists lm) n p = Some r" and d: "left = [] \<Longrightarrow> \<not> (n = lh_name h \<and> p = lh_recordID h)"
      using assms(2) by (auto simp: l omap_simps split: if_splits)
    have ne: "collection lm r \<noteq> []" using lists_ok_collection [OF assms(1) e] by (rule collection_okD)
    have rs: "r = s \<longleftrightarrow> n = lh_name h \<and> p = lh_recordID h"
      using collection_unique [OF assms(1) Some, of n p] e Some by auto
    show ?thesis
    proof (cases "r = s")
      case True
      then have "n = lh_name h \<and> p = lh_recordID h" "left \<noteq> []" using d rs by blast+
      with True e show ?thesis unfolding c by (simp add: left_def)
    next
      case False
      with e ne show ?thesis by (auto simp: c rs)
    qed
  qed
  then show "eget (lm_lists lm) n p = Some r"
    and "collection (drop_handler f h lm) r = (if n = lh_name h \<and> p = lh_recordID h
      then filter (\<lambda>g. lh_key g \<noteq> f) (collection lm r) else collection lm r)"
    and "collection (drop_handler f h lm) r \<noteq> []" by blast+
qed

lemma drop_handler_opaque:
  assumes "map_of (lm_byOpaque (drop_handler f h lm)) i = Some r"
  shows "map_of (lm_byOpaque lm) i = Some r \<and> (eget (lm_lists (drop_handler f h lm)) (lh_name h) (lh_recordID h) = None
    \<longrightarrow> eget (lm_lists lm) (lh_name h) (lh_recordID h) = None \<or> i \<noteq> opaqueListID (lh_recordID h) (lh_name h))"
  using assms by (auto simp: drop_handler_def Let_def omap_simps split: option.splits if_splits)

lemma drop_handler_other:
  "\<not> (n = lh_name h \<and> p = lh_recordID h) \<Longrightarrow> eget (lm_lists (drop_handler f h lm)) n p = eget (lm_lists lm) n p"
  by (auto simp: drop_handler_def Let_def omap_simps split: option.splits)

lemma drop_handler_same:
  "eget (lm_lists (drop_handler f h lm)) (lh_name h) (lh_recordID h) \<in> {None, eget (lm_lists lm) (lh_name h) (lh_recordID h)}"
  by (auto simp: drop_handler_def Let_def omap_simps split: option.splits)

lemma lists_ok_drop_handler:
  assumes ok: "lists_ok lm"
  shows "lists_ok (drop_handler f h lm)"
proof (rule lists_okI)
  fix n p r assume e: "eget (lm_lists (drop_handler f h lm)) n p = Some r"
  note d = drop_handler_lists [OF ok e]
  have c: "collection_ok lm n p r" using ok d(1) by (rule lists_ok_collection)
  have sub: "set (collection (drop_handler f h lm) r) \<subseteq> set (collection lm r)"
    and di: "distinct (map lh_key (collection (drop_handler f h lm) r))"
    using collection_okD(3) [OF c] by (simp_all add: d(2) distinct_map_filter filter_is_subset)
  show "collection_ok (drop_handler f h lm) n p r"
    using collection_okD(1) [OF c] d(3) di collection_okD(4) [OF c] sub by (intro collection_okI) (simp, assumption, assumption, auto)
next
  fix p k hs g assume "eget (lm_byField (drop_handler f h lm)) p k = Some hs" "g \<in> set hs"
  then show "lh_recordID g = p \<and> lh_key g = k" using lists_ok_field [OF ok] by simp
next
  fix i r assume i: "map_of (lm_byOpaque (drop_handler f h lm)) i = Some r"
  note o = drop_handler_opaque [OF i]
  obtain n p where np: "i = opaqueListID p n" "eget (lm_lists lm) n p = Some r" using o lists_ok_opaque [OF ok] by blast
  have "eget (lm_lists (drop_handler f h lm)) n p = Some r"
  proof (cases "n = lh_name h \<and> p = lh_recordID h")
    case True
    then show ?thesis using o np drop_handler_same [of f h lm] by auto
  qed (simp add: drop_handler_other np(2))
  with np(1) show "\<exists>n p. i = opaqueListID p n \<and> eget (lm_lists (drop_handler f h lm)) n p = Some r" by blast
qed

lemma drop_handlers:
  assumes "lists_ok lm"
  shows "lists_ok (fold (drop_handler f) hs lm) \<and> lm_byField (fold (drop_handler f) hs lm) = lm_byField lm
    \<and> (\<forall>h\<in>set hs. \<forall>r. eget (lm_lists (fold (drop_handler f) hs lm)) (lh_name h) (lh_recordID h) = Some r
         \<longrightarrow> f \<notin> lh_key ` set (collection (fold (drop_handler f) hs lm) r))"
  using assms
proof (induction hs rule: rev_induct)
  case (snoc h hs)
  let ?l = "fold (drop_handler f) hs lm"
  have ok: "lists_ok ?l" and fd: "lm_byField ?l = lm_byField lm" using snoc by blast+
  have "f \<notin> lh_key ` set (collection (drop_handler f h ?l) r)"
    if g: "g \<in> set (hs @ [h])" and e: "eget (lm_lists (drop_handler f h ?l)) (lh_name g) (lh_recordID g) = Some r" for g r
  proof (cases "lh_name g = lh_name h \<and> lh_recordID g = lh_recordID h")
    case True
    then show ?thesis using drop_handler_lists(2) [OF ok e] by auto
  next
    case False
    then have "g \<in> set hs" using g by auto
    moreover have "eget (lm_lists ?l) (lh_name g) (lh_recordID g) = Some r" using drop_handler_lists(1) [OF ok e] .
    ultimately have "f \<notin> lh_key ` set (collection ?l r)" using snoc by blast
    then show ?thesis using drop_handler_lists(2) [OF ok e] False by auto
  qed
  with lists_ok_drop_handler [OF ok] fd show ?case by auto
qed simp

lemma deleteField_gone:
  assumes ok: "lists_ok lm" and e: "eget (lm_lists (lists_deleteField p f lm)) n p = Some r"
  shows "f \<notin> lh_key ` set (collection (lists_deleteField p f lm) r)"
proof (cases "eget (lm_byField lm) p f")
  case None
  then have d: "lists_deleteField p f lm = lm" by (simp add: lists_deleteField_def)
  have "collection_ok lm n p r" using ok e by (simp add: d lists_ok_collection)
  then show ?thesis unfolding d using None collection_okD(4) by fastforce
next
  case (Some hs)
  define lm1 where "lm1 = fold (drop_handler f) hs lm"
  have d: "lists_deleteField p f lm = lm1\<lparr>lm_byField := edel p f (lm_byField lm1)\<rparr>"
    by (simp add: lists_deleteField_def Some Let_def lm1_def)
  note dh = drop_handlers [OF ok, of f hs, folded lm1_def]
  have e1: "eget (lm_lists lm1) n p = Some r" using e by (simp add: d)
  have "f \<notin> lh_key ` set (collection lm1 r)"
  proof
    assume "f \<in> lh_key ` set (collection lm1 r)"
    then obtain g where g: "g \<in> set (collection lm1 r)" "lh_key g = f" by blast
    have "collection_ok lm1 n p r" using dh e1 lists_ok_collection by blast
    from collection_okD(4) [OF this g(1)] g(2) have "n \<in> lh_name ` set hs" using dh Some by auto
    then obtain h where h: "h \<in> set hs" "lh_name h = n" by blast
    then have "lh_recordID h = p" using lists_ok_field [OF ok Some] by blast
    with h e1 dh g show False by blast
  qed
  then show ?thesis by (simp add: d collection_def)
qed

lemma lists_ok_deleteField:
  assumes ok: "lists_ok lm"
  shows "lists_ok (lists_deleteField p f lm)"
proof (cases "eget (lm_byField lm) p f")
  case None
  then show ?thesis using ok by (simp add: lists_deleteField_def)
next
  case (Some hs)
  define lm1 where "lm1 = fold (drop_handler f) hs lm"
  let ?l = "lm1\<lparr>lm_byField := edel p f (lm_byField lm1)\<rparr>"
  have d: "lists_deleteField p f lm = ?l"
    by (simp add: lists_deleteField_def Some Let_def lm1_def)
  have ok1: "lists_ok lm1" using drop_handlers [OF ok] unfolding lm1_def by blast
  have "lists_ok ?l"
  proof (rule lists_okI)
    fix n q r assume "eget (lm_lists ?l) n q = Some r"
    then have e: "eget (lm_lists lm1) n q = Some r" by simp
    have c: "collection_ok lm1 n q r" using ok1 e by (rule lists_ok_collection)
    have gone: "f \<notin> lh_key ` set (collection lm1 r)" if "q = p"
      using deleteField_gone [OF ok, of p f n r] e that unfolding d by (simp add: collection_def)
    have co: "collection ?l r = collection lm1 r" by (simp add: collection_def)
    have el: "lh_name h = n \<and> lh_recordID h = q \<and> (\<exists>hs. eget (lm_byField ?l) q (lh_key h) = Some hs \<and> n \<in> lh_name ` set hs)"
      if "h \<in> set (collection lm1 r)" for h
    proof -
      have "\<not> (q = p \<and> lh_key h = f)" using gone that by blast
      then have "eget (lm_byField ?l) q (lh_key h) = eget (lm_byField lm1) q (lh_key h)" by (auto simp: omap_simps)
      then show ?thesis using collection_okD(4) [OF c that] by simp
    qed
    show "collection_ok ?l n q r"
      using collection_okD(1,2,3) [OF c] el by (intro collection_okI) (simp_all only: co lm_next_update_def, simp_all)
  next
    fix q k hs g assume "eget (lm_byField ?l) q k = Some hs" "g \<in> set hs"
    then show "lh_recordID g = q \<and> lh_key g = k"
      using lists_ok_field [OF ok1] by (auto simp: omap_simps split: if_splits)
  next
    fix i r assume "map_of (lm_byOpaque ?l) i = Some r"
    then show "\<exists>n p. i = opaqueListID p n \<and> eget (lm_lists ?l) n p = Some r" using lists_ok_opaque [OF ok1] by simp
  qed
  then show ?thesis by (simp add: d)
qed

subsection \<open>Lookups are total\<close>

lemma getLists_total:
  assumes "lists_ok lm"
  shows "\<exists>res. getLists cfg lm n i allLists = Inr res"
proof (cases "oget [] (lm_lists lm) n")
  case (Cons e rest)
  obtain k r where e: "e = (k, r)" by fastforce
  have "eget (lm_lists lm) n k = Some r" using Cons by (auto simp: eget_def oget_def e split: option.splits)
  then have "collection lm r \<noteq> []" using lists_ok_collection [OF assms] collection_okD(2) by blast
  then obtain h hs where "collection lm r = h # hs" by (auto simp: neq_Nil_conv)
  then show ?thesis by (auto simp: getLists_def Cons e Let_def split: option.split list.split)
qed (simp add: getLists_def)

lemma lists_get_total: "lists_ok lm \<Longrightarrow> \<exists>res. lists_get cfg lm n i allLists skip = Inr res"
  using getLists_total [of lm cfg n i allLists] by (auto simp: lists_get_def sbind_simps)

end
