(* ===== verification/CacheSteps.thy ===== *)
theory CacheSteps
  imports CacheWalks SubsLaws ListLaws
begin

section \<open>The life of a cache\<close>

text \<open>
  Every operation of the cache as a step of one state machine, and the invariant of the whole state: the
  store, the subscription table, the list registry, the lifetimes and the field times are well formed in
  every state that a run can reach. Writing, reading and the walks keep it because they stay inside the
  contracts of \<^verbatim>\<open>CacheWalks\<close>, which are interpreted here twice: for sequences of steps of the store, and
  for the invariant.
\<close>

subsection \<open>Steps of the store\<close>

abbreviation steps :: "storage \<Rightarrow> storage \<Rightarrow> bool" where
  "steps \<equiv> storage_step\<^sup>*\<^sup>*"

lemma steps_inv: "steps st st' \<Longrightarrow> store_inv st \<Longrightarrow> store_inv st'"
  by (induction rule: rtranclp_induct) (auto intro: storage_step_inv)

lemma steps_one: "storage_step st st' \<Longrightarrow> steps st st'"
  by (rule r_into_rtranclp)

lemma steps_getTypename: "steps st (snd (getTypename i st))"
proof -
  have "snd (getTypename i st) = st \<or> (\<exists>t. snd (getTypename i st) = st\<lparr>typenames := oset i t (typenames st)\<rparr>)"
    by (auto simp: getTypename_def Let_def split: option.split)
  then show ?thesis by (metis steps_one storage_step.typename rtranclp.rtrancl_refl)
qed

lemma steps_layers:
  assumes "list_all2 (\<lambda>l l'. l' = l \<or> layer_step l l') ls ls'" and "sdata st = pre @ ls"
  shows "steps st (st\<lparr>sdata := pre @ ls'\<rparr>)"
  using assms
proof (induction arbitrary: st pre rule: list_all2_induct)
  case Nil
  then have "st\<lparr>sdata := pre @ []\<rparr> = st" by simp
  then show ?case by (metis rtranclp.rtrancl_refl)
next
  case (Cons l ls l' ls')
  have "steps st (st\<lparr>sdata := pre @ l' # ls\<rparr>)"
  proof (cases "l' = l")
    case True
    then have "st\<lparr>sdata := pre @ l' # ls\<rparr> = st" using Cons.prems by simp
    then show ?thesis by (metis rtranclp.rtrancl_refl)
  next
    case False
    then show ?thesis using Cons.hyps Cons.prems by (blast intro: steps_one storage_step.layer)
  qed
  also have "steps (st\<lparr>sdata := pre @ l' # ls\<rparr>) (st\<lparr>sdata := pre @ l' # ls, sdata := (pre @ [l']) @ ls'\<rparr>)"
    by (rule Cons.IH) simp
  finally show ?case by simp
qed

lemma steps_on_layer:
  assumes "\<And>l. layer_step l (f l)"
  shows "steps st (on_layer n f st)"
proof -
  have "list_all2 (\<lambda>l l'. l' = l \<or> layer_step l l') (sdata st) (map (\<lambda>l. if lid l = n then f l else l) (sdata st))"
    using assms by (simp add: list_all2_map2 list_all2_same)
  from steps_layers [OF this, of st "[]"] show ?thesis by (simp add: on_layer_def)
qed

lemma steps_on_layer_err:
  assumes "on_layer_err n h st = Inr st'" and "\<And>l l'. h l = Inr l' \<Longrightarrow> layer_step l l'"
  shows "steps st st'"
proof -
  obtain ls where ls: "smap (\<lambda>l. if lid l = n then h l else Inr l) (sdata st) = Inr ls" "st' = st\<lparr>sdata := ls\<rparr>"
    using assms(1) by (auto simp: on_layer_err_def sbind_simps)
  have "list_all2 (\<lambda>l l'. l' = l \<or> layer_step l l') xs ys"
    if "smap (\<lambda>l. if lid l = n then h l else Inr l) xs = Inr ys" for xs ys
    using that assms(2) by (induction xs arbitrary: ys) (auto simp: sbind_simps split: if_splits)
  from steps_layers [OF this [OF ls(1)], of st "[]"] show ?thesis by (simp add: ls(2))
qed

lemma steps_on_top:
  assumes "\<And>l. layer_step l (g l)"
  shows "steps st (on_top g st)"
proof -
  have "sdata (ensure_top st) = butlast (sdata (ensure_top st)) @ last (sdata (ensure_top st)) # []"
    using ensure_top_ne by simp
  from storage_step.layer [OF this assms] have "storage_step (ensure_top st) (on_top g st)" by (simp add: on_top_def Let_def)
  then show ?thesis using storage_step.top by (rule converse_rtranclp_into_rtranclp [rotated, OF steps_one])
qed

lemma steps_default: "steps st (snd (storage_get_default i f d st))"
  by (auto simp: storage_get_default_def Let_def case_prod_unfold storage_writeField_def split: option.split
      intro: steps_on_top layer_step.field)

interpretation sw: store_writer "\<lambda>n. steps"
proof (rule store_writer.intro, goal_cases)
  case 1
  show ?case by unfold_locales (auto intro: steps_getTypename steps_default)
next
  case (3 n h st st')
  then show ?case by (rule steps_on_layer_err)
next
  case (5 n st)
  then show ?case by (simp add: nextRank_def steps_one storage_step.rank)
qed (auto intro: steps_on_layer steps_one storage_step.typename storage_step.embedded)

subsection \<open>The invariant of the cache\<close>

definition cache_ok :: "cache_state \<Rightarrow> bool" where
  "cache_ok cs \<longleftrightarrow>
     store_inv (cs_storage cs) \<and> subs_ok (cs_subs cs) \<and> lists_ok (cs_lists cs) \<and> stale_ok (cs_stale cs) \<and> ewf (cs_lifetimes cs)"

lemma stale_ok_deleteRecord: "stale_ok s \<Longrightarrow> stale_ok (stale_deleteRecord i s)"
  by (simp add: stale_ok_def stale_deleteRecord_def ewf_odel)

lemma cache_ok_store: "cache_ok cs \<Longrightarrow> steps (cs_storage cs) st \<Longrightarrow> cache_ok (cs\<lparr>cs_storage := st\<rparr>)"
  by (simp add: cache_ok_def steps_inv)

text \<open>The table of names and the messages are not constrained.\<close>

lemma cache_ok_simps [simp]:
  "cache_ok (cs\<lparr>cs_outbox := ms\<rparr>) = cache_ok cs" "cache_ok (cs\<lparr>cs_epoch := n\<rparr>) = cache_ok cs"
  "cache_ok (cs\<lparr>cs_now := t\<rparr>) = cache_ok cs" "cache_ok (cs\<lparr>cs_disabled := b\<rparr>) = cache_ok cs"
  by (simp_all add: cache_ok_def)

lemma cache_ok_parts:
  "cache_ok cs \<Longrightarrow> cache_ok (on_subs (subs_addField i k sel m) cs)"
  "cache_ok cs \<Longrightarrow> cache_ok (on_subs (removeSubscribers i k targets m) cs)"
  "cache_ok cs \<Longrightarrow> cache_ok (on_subs (copySubscribers i j) cs)"
  "cache_ok cs \<Longrightarrow> cache_ok (on_lists (lists_add h) cs)"
  "cache_ok cs \<Longrightarrow> cache_ok (on_lists (lists_remove n i) cs)"
  "cache_ok cs \<Longrightarrow> cache_ok (on_lists (lists_deleteField i k) cs)"
  "cache_ok cs \<Longrightarrow> cache_ok (resetLifetime i k cs)"
  "cache_ok cs \<Longrightarrow> cache_ok (lifetimes_delete i cs)"
  "cache_ok cs \<Longrightarrow> cache_ok (on_stale (markFieldStale i k) cs)"
  "cache_ok cs \<Longrightarrow> cache_ok (on_stale (setFieldTimeToNow t i k) cs)"
  "cache_ok cs \<Longrightarrow> cache_ok (on_stale (stale_deleteRecord i) cs)"
  "cache_ok cs \<Longrightarrow> cache_ok (on_stale (stale_delete i k) cs)"
  "cache_ok cs \<Longrightarrow> steps (cs_storage cs) (f (cs_storage cs)) \<Longrightarrow> cache_ok (on_storage f cs)"
  by (simp_all add: cache_ok_def on_subs_def on_lists_def on_stale_def on_storage_def resetLifetime_def lifetimes_delete_def
      subs_ok_addField subs_ok_removeSubscribers subs_ok_copy lists_ok_add lists_ok_remove lists_ok_deleteField ewf_eset ewf_odel
      stale_ok_mark stale_ok_set stale_ok_deleteRecord stale_ok_delete steps_inv)

lemma cache_ok_on_storage_err:
  assumes "cache_ok cs" and "on_storage_err f cs = Inr cs'" and "\<And>st. f (cs_storage cs) = Inr st \<Longrightarrow> steps (cs_storage cs) st"
  shows "cache_ok cs'"
  using assms by (auto simp: on_storage_err_def sbind_simps intro: cache_ok_store)

abbreviation keeps_ok :: "nat \<Rightarrow> cache_state \<Rightarrow> cache_state \<Rightarrow> bool" where
  "keeps_ok n cs cs' \<equiv> (cache_ok cs \<longrightarrow> cache_ok cs')"

interpretation ok: layer_writer keeps_ok
proof (rule layer_writer.intro, goal_cases)
  case 1
  show ?case
    by unfold_locales (auto intro: cache_ok_parts cache_ok_store steps_getTypename steps_default)
next
  case (2 f n cs)
  then show ?case by (auto intro: cache_ok_parts(13) steps_on_layer)
next
  case (3 n f cs cs')
  then show ?case by (auto elim!: cache_ok_on_storage_err intro: steps_on_layer_err)
next
  case (6 cs n i)
  show ?case by (auto intro!: cache_ok_parts(8,11,13) steps_one storage_step.embedded)
qed (auto intro: cache_ok_parts cache_ok_store steps_one storage_step.typename storage_step.rank simp: nextRank_def)

subsection \<open>Every operation of the cache is a step\<close>

inductive cache_step :: "cache_state \<Rightarrow> cache_state \<Rightarrow> bool" where
  merge: "cache_write w cs = Inr (ns, cs') \<Longrightarrow> cache_step cs cs'"
| read: "cache_step cs (snd (cache_read opts sel p cs))"
| subscribe: "cache_step cs (cache_subscribe spec vars cs)"
| unsubscribe: "cache_step cs (cache_unsubscribe spec vars cs)"
| delete: "cache_delete i layer cs = Inr cs' \<Longrightarrow> cache_step cs cs'"
| optimistic: "cache_step cs (on_storage (\<lambda>st. snd (createLayer True st)) cs)"
| clear: "clearLayer n cs = Inr cs' \<Longrightarrow> cache_step cs cs'"
| resolve: "cache_resolveLayer n cs = Inr cs' \<Longrightarrow> cache_step cs cs'"
| refetch: "cache_step cs (refresh ids cs)"
| refetch_all: "cache_step cs (refreshAll session cs)"
| stale_type: "cache_markTypeStale options cs = Inr cs' \<Longrightarrow> cache_step cs cs'"
| stale_record: "cache_markRecordStale i field wn cs = Inr cs' \<Longrightarrow> cache_step cs cs'"
| hydrate: "(case snap of None \<Rightarrow> True | Some s \<Rightarrow> ewf (sn_fields s) \<and> ewf (sn_links s)) \<Longrightarrow> cache_step cs (snd (cache_hydrate snap layer cs))"
| collect: "cache_step cs (collectGarbage cs)"
| key_map: "cache_step cs (registerKeyMap source mapped cs)"
| forget_list: "cache_step cs (on_lists (lists_remove n i) cs)"
| reset: "cache_step cs (cache_reset cs)"
| time: "cache_step cs (cs\<lparr>cs_now := t\<rparr>)"
| disable: "cache_step cs (cs\<lparr>cs_disabled := b\<rparr>)"

text \<open>Deleting and removing from lists on the top layer, which \<open>layer_writer\<close> does not cover.\<close>

lemma steps_on_top_err:
  assumes "on_top_err h st = Inr st'" and "\<And>l l'. h l = Inr l' \<Longrightarrow> layer_step l l'"
  shows "steps st st'"
proof -
  obtain l' where l: "h (last (sdata (ensure_top st))) = Inr l'"
      "st' = (ensure_top st)\<lparr>sdata := butlast (sdata (ensure_top st)) @ [l']\<rparr>"
    using assms(1) by (auto simp: on_top_err_def Let_def sbind_simps)
  have "sdata (ensure_top st) = butlast (sdata (ensure_top st)) @ last (sdata (ensure_top st)) # []"
    using ensure_top_ne by simp
  from storage_step.layer [OF this assms(2) [OF l(1)]] have "storage_step (ensure_top st) st'" by (simp add: l(2))
  then show ?thesis using storage_step.top by (rule converse_rtranclp_into_rtranclp [rotated, OF steps_one])
qed

lemma steps_storage_remove: "storage_remove i f target layer st = Inr st' \<Longrightarrow> steps st st'"
  unfolding storage_remove_def layer_remove_def
  by (cases layer) (auto elim!: steps_on_top_err steps_on_layer_err intro: layer_step.list_op)

lemma steps_storage_delete: "steps st (storage_delete i layer st)"
  by (simp add: storage_delete_def split: option.split add: steps_on_top steps_on_layer layer_step.del)

lemma ok_fold_updates: "cache_ok cs \<Longrightarrow> cache_ok (fold update_message subs cs)"
  using ok.w.walks_fold_id [of subs update_message cs] ok.w.walks_update_message by blast

lemma ok_list_removeID:
  assumes "list_removeID h i variables layer cs = Inr (b, cs')" and ok: "cache_ok cs"
  shows "cache_ok cs'"
proof -
  have rm: "cache_ok (subs_remove j sel subs variables m s)" if "cache_ok s" for j sel subs m s
    using that ok.w.walks_subs_remove by blast
  have sr: "cache_ok t" if "on_storage_err (storage_remove p k x layer) s = Inr t" "cache_ok s" for p k x s t
    using that by (auto elim!: cache_ok_on_storage_err intro: steps_storage_remove)
  from assms show ?thesis
    by (auto simp: list_removeID_def Let_def sbind_simps split: if_splits option.splits intro!: ok_fold_updates elim!: sr intro!: rm)
qed

lemma ok_cache_delete:
  assumes "cache_delete i layer cs = Inr cs'" and ok: "cache_ok cs"
  shows "cache_ok cs'"
proof -
  have one: "cache_ok t" if "delete_record layer j s = Inr t" "cache_ok s" for j s t
  proof -
    obtain s1 where s1: "removeIDFromAllLists j layer (removeAllSubscribers j None s) = Inr s1"
        "t = on_storage (storage_delete j layer) s1"
      using \<open>delete_record layer j s = Inr t\<close> by (auto simp: delete_record_def sbind_simps)
    have "cache_ok (removeAllSubscribers j None s)" using that(2) ok.w.walks_removeAllSubscribers by blast
    with s1(1) [unfolded removeIDFromAllLists_def lists_removeID_def] have "cache_ok s1"
      by (rule sfold_invariant [where P = cache_ok]) (auto simp: sbind_simps intro: ok_list_removeID)
    then show ?thesis unfolding s1(2) by (intro cache_ok_parts(13) steps_storage_delete)
  qed
  from assms(1) [unfolded cache_delete_def] ok show ?thesis
    by (rule sfold_invariant [where P = cache_ok]) (rule one)
qed

lemma ok_notify: "cache_ok cs \<Longrightarrow> cache_ok (notifySubscribers specs cs)"
  using ok.w.walks_notifySubscribers by blast

lemma ok_send: "cache_ok (send spec msg cs) = cache_ok cs"
  by (simp add: send_def)

lemma ok_refresh: "cache_ok cs \<Longrightarrow> cache_ok (refresh ids cs)"
proof -
  assume "cache_ok cs"
  moreover have "cache_ok (snd (fold refresh_one specs a)) = cache_ok (snd a)" for specs a
    by (induction specs arbitrary: a) (auto simp: refresh_one_def ok_send)
  ultimately show ?thesis by (simp add: refresh_def)
qed

lemma ok_refreshAll: "cache_ok cs \<Longrightarrow> cache_ok (refreshAll session cs)"
  unfolding refreshAll_def by (rule fold_invariant_list) (simp_all add: ok_send)

lemma steps_ensure_top: "steps st (ensure_top st)"
  by (simp add: steps_one storage_step.top)

lemma ok_cache_write:
  assumes "cache_write w cs = Inr (ns, cs')" and "cache_ok cs"
  shows "cache_ok cs'"
proof -
  obtain n cs1 where n: "write_layer (wr_layer w) cs = (n, cs1)" by fastforce
  then have "cs1 = cs \<or> cs1 = on_storage ensure_top cs"
    by (auto simp: write_layer_def Let_def split: option.splits nat.splits)
  then have "cache_ok cs1" using assms(2) by (auto intro: cache_ok_parts(13) steps_ensure_top)
  then show ?thesis using ok.walks_cache_write [OF assms(1) n] by blast
qed

lemma ok_clearLayer: "clearLayer n cs = Inr cs' \<Longrightarrow> cache_ok cs \<Longrightarrow> cache_ok cs'"
  by (auto simp: clearLayer_def Let_def sbind_simps intro!: ok_notify cache_ok_parts(13) steps_on_layer layer_step.clear)

lemma ok_resolve: "cache_resolveLayer n cs = Inr cs' \<Longrightarrow> cache_ok cs \<Longrightarrow> cache_ok cs'"
  unfolding cache_resolveLayer_def by (erule cache_ok_on_storage_err [rotated]) (auto intro: steps_one storage_step.resolve)

lemma stale_ok_fold_marks: "stale_ok s \<Longrightarrow> stale_ok (fold (\<lambda>(f, t) s. markFieldStale i f s) r s)"
  by (rule fold_invariant_list [where P = stale_ok]) (auto simp: stale_ok_mark)

lemma stale_ok_marks:
  "stale_ok s \<Longrightarrow> stale_ok (markAllStale now s)" "stale_ok s \<Longrightarrow> stale_ok (markTypeStale now ty s)"
  "stale_ok s \<Longrightarrow> stale_ok (markRecordStale now i s)" "markTypeFieldStale now ty f wn s = Inr s' \<Longrightarrow> stale_ok s \<Longrightarrow> stale_ok s'"
proof -
  have rec: "stale_ok (mark_record i r s)" if "stale_ok s" for i r s
    using stale_ok_fold_marks [OF that] by (simp add: mark_record_def)
  show "stale_ok s \<Longrightarrow> stale_ok (markAllStale now s)" "stale_ok s \<Longrightarrow> stale_ok (markTypeStale now ty s)"
    unfolding markAllStale_def markTypeStale_def Let_def
    by (rule fold_invariant_list [where P = stale_ok], erule stale_ok_flush, auto simp: rec)+
  show "stale_ok s \<Longrightarrow> stale_ok (markRecordStale now i s)"
    by (auto simp: markRecordStale_def Let_def rec stale_ok_flush split: option.split)
  have inner: "stale_ok (fold (\<lambda>(lf, t) s. if lf = key then markFieldStale i f s else s) r s)" if "stale_ok s" for key i r s
    using that by (rule fold_invariant_list [where P = stale_ok]) (auto simp: stale_ok_mark)
  show "markTypeFieldStale now ty f wn s = Inr s' \<Longrightarrow> stale_ok s \<Longrightarrow> stale_ok s'"
    by (auto simp: markTypeFieldStale_def Let_def sbind_simps intro!: fold_invariant_list [where P = stale_ok] stale_ok_flush inner)
qed

lemma ok_collect: "cache_ok cs \<Longrightarrow> cache_ok (collectGarbage cs)"
proof -
  have del: "steps st (storage_deleteField i f st)" for st i f
    unfolding storage_deleteField_def by (rule steps_on_top) (rule layer_step.del_field)
  have evict: "cache_ok (evict_field i f s)" if "cache_ok s" for i f s
  proof -
    let ?s = "on_lists (lists_deleteField i f) (on_storage (storage_deleteField i f) s)"
    have "cache_ok ?s" using that by (intro cache_ok_parts del)
    moreover from this have "ewf (cs_lifetimes ?s)" by (simp add: cache_ok_def)
    moreover have "distinct (okeys (odel f (oget [] m i)))" if "ewf m" for m :: "(string, string, nat) emap"
      using ewf_lookup [OF that] by (auto simp: oget_def distinct_odel split: option.split)
    ultimately show ?thesis
      unfolding evict_field_def Let_def by (intro cache_ok_parts) (auto simp: cache_ok_def ewf_odel ewf_oset)
  qed
  have expire: "cache_ok (expire_field i f s)" if "cache_ok s" for i f s
    using that cache_ok_parts(9) by (simp add: expire_field_def split: option.split)
  have tick: "cache_ok (tick_field i f n s)" if "cache_ok s" for i f n s
  proof -
    have "cache_ok (s\<lparr>cs_lifetimes := eset i f (Suc n) (cs_lifetimes s)\<rparr>)" using that by (simp add: cache_ok_def ewf_eset)
    then show ?thesis using that by (simp add: tick_field_def Let_def expire evict)
  qed
  assume "cache_ok cs"
  then have "cache_ok (gc_tick cs)"
    unfolding gc_tick_def by (rule fold_invariant_list [where P = cache_ok]) (auto intro: tick)
  then show ?thesis
    by (auto simp: collectGarbage_def Let_def intro!: cache_ok_parts(13) steps_on_top layer_step.undef)
qed

lemma steps_hydrate:
  assumes "case snap of None \<Rightarrow> True | Some s \<Rightarrow> ewf (sn_fields s) \<and> ewf (sn_links s)"
  shows "steps st (snd (hydrate snap layer st))"
proof (cases snap)
  case (Some s)
  let ?st = "st\<lparr>rank := sn_rank s\<rparr>"
  have st: "steps st ?st" by (simp add: steps_one storage_step.rank)
  have ch: "steps x (on_layer n (\<lambda>l. l\<lparr>lfields := sn_fields s, llinks := sn_links s\<rparr>) x)" for x n
    using assms Some by (intro steps_on_layer layer_step.snap) simp_all
  show ?thesis
  proof (cases layer)
    case None
    have "steps ?st (snd (createLayer True ?st))" by (simp add: steps_one storage_step.create)
    with st ch show ?thesis
      by (auto simp: hydrate_def Some None Let_def case_prod_unfold intro: rtranclp_trans)
  next
    case (Some n)
    with st ch \<open>snap = Some s\<close> show ?thesis by (auto simp: hydrate_def intro: rtranclp_trans)
  qed
qed (simp add: hydrate_def)

lemma cache_step_ok:
  assumes "cache_step cs cs'" and "cache_ok cs"
  shows "cache_ok cs'"
  using assms
proof (induction rule: cache_step.induct)
  case (merge w cs ns cs')
  then show ?case by (rule ok_cache_write)
next
  case (read cs opts sel p)
  then show ?case using ok.w.walks_cache_read by blast
next
  case (subscribe cs spec vars)
  then show ?case using ok.w.walks_subs_add by (simp add: cache_subscribe_def)
next
  case (unsubscribe cs spec vars)
  then show ?case using ok.w.walks_subs_remove by (simp add: cache_unsubscribe_def)
next
  case (delete i layer cs cs')
  then show ?case by (rule ok_cache_delete)
next
  case (optimistic cs)
  then show ?case by (intro cache_ok_parts(13)) (simp_all add: steps_one storage_step.create)
next
  case (clear n cs cs')
  then show ?case by (rule ok_clearLayer)
next
  case (resolve n cs cs')
  then show ?case by (rule ok_resolve)
next
  case (refetch cs ids)
  then show ?case by (rule ok_refresh)
next
  case (refetch_all cs session)
  then show ?case by (rule ok_refreshAll)
next
  case (stale_type options cs cs')
  then show ?case
    by (auto simp: cache_markTypeStale_def sbind_simps on_stale_def cache_ok_def stale_ok_marks split: option.splits)
next
  case (stale_record i field wn cs cs')
  then show ?case
    by (auto simp: cache_markRecordStale_def sbind_simps on_stale_def cache_ok_def stale_ok_marks stale_ok_mark split: option.splits)
next
  case (hydrate snap cs layer)
  have "cache_ok (cs\<lparr>cs_storage := snd (hydrate snap layer (cs_storage cs))\<rparr>)"
    using hydrate by (intro cache_ok_store steps_hydrate)
  then show ?case
    by (auto simp: cache_hydrate_def Let_def case_prod_unfold cache_ok_def on_stale_def stale_ok_def registerHydration_def split: option.split)
next
  case (collect cs)
  then show ?case by (rule ok_collect)
next
  case (key_map cs source mapped)
  then show ?case unfolding registerKeyMap_def by (intro cache_ok_parts steps_one storage_step.mapping)
next
  case (forget_list cs n i)
  then show ?case by (rule cache_ok_parts)
next
  case (reset cs)
  obtain specs ss where r: "subs_reset (cs_subs cs) = (specs, ss)" by fastforce
  have "subs_ok ss" using subs_ok_reset [of "cs_subs cs"] reset r by (simp add: cache_ok_def)
  moreover have "store_inv (storage_reset (cs_storage cs))"
    using reset storage_step_inv [OF storage_step.reset] by (simp add: cache_ok_def)
  ultimately show ?case
    using reset unfolding cache_reset_def r prod.case
    by (intro ok_notify) (simp add: cache_ok_def lists_ok_reset stale_ok_def stale_reset_def new_stale_def)
qed simp_all

definition reachable_cache :: "config \<Rightarrow> cache_state \<Rightarrow> bool" where
  "reachable_cache cfg cs \<longleftrightarrow> cache_step\<^sup>*\<^sup>* (new_cache cfg) cs"

lemma cache_ok_new: "cache_ok (new_cache cfg)"
  using reachable_storage_inv [OF reachable_new]
  by (simp add: cache_ok_def new_cache_def subs_ok_new lists_ok_new stale_ok_def new_stale_def)

lemma reachable_cache_ok: "reachable_cache cfg cs \<Longrightarrow> cache_ok cs"
  unfolding reachable_cache_def by (induction rule: rtranclp_induct) (auto intro: cache_ok_new cache_step_ok)

end
