(* ===== verification/Rollback.thy ===== *)
theory Rollback
  imports CacheWalks
begin

section \<open>Optimistic layers\<close>

text \<open>
  What a write on a pending layer does to everything below it: nothing. \<open>erase n\<close> is the store without
  the layer \<open>n\<close>; two stores are \<open>similar\<close> when every read agrees, except that a component field may have
  been filled with its function, which reading a selection does. Every operation that the writer
  performs on an optimistic layer keeps the erased store similar.
\<close>

subsection \<open>Erasing a layer\<close>

definition erase :: "nat \<Rightarrow> storage \<Rightarrow> storage" where
  "erase n st = st\<lparr>sdata := filter (\<lambda>l. lid l \<noteq> n) (sdata st)\<rparr>"

definition similar :: "storage \<Rightarrow> storage \<Rightarrow> bool" where
  "similar st st' \<longleftrightarrow> (\<forall>i f. storage_get st' i f = storage_get st i f \<or> is_function (read_value st' i f))"

text \<open>The layer exists and is optimistic.\<close>

definition pending :: "nat \<Rightarrow> storage \<Rightarrow> bool" where
  "pending n st \<longleftrightarrow> n < idCount st \<and> n \<in> lid ` set (sdata st) \<and> (\<forall>l\<in>set (sdata st). lid l = n \<longrightarrow> optimistic l)"

abbreviation tag :: "layer \<Rightarrow> nat \<times> bool" where
  "tag l \<equiv> (lid l, optimistic l)"

lemma pending_tags: "pending n st \<longleftrightarrow> n < idCount st \<and> (n, True) \<in> tag ` set (sdata st) \<and> (n, False) \<notin> tag ` set (sdata st)"
  by (auto simp: pending_def image_iff)

lemma pending_cong: "map tag (sdata st') = map tag (sdata st) \<Longrightarrow> idCount st' = idCount st \<Longrightarrow> pending n st' = pending n st"
proof -
  assume "map tag (sdata st') = map tag (sdata st)" and c: "idCount st' = idCount st"
  then have "set (map tag (sdata st')) = set (map tag (sdata st))" by simp
  then have "tag ` set (sdata st') = tag ` set (sdata st)" by simp
  with c show "pending n st' = pending n st" by (simp only: pending_tags)
qed

text \<open>What an operation does that only reads: whatever layer is left out, the reads stay.\<close>

definition like :: "storage \<Rightarrow> storage \<Rightarrow> bool" where
  "like st st' \<longleftrightarrow> (\<forall>n. similar (erase n st) (erase n st') \<and> (pending n st \<longrightarrow> pending n st'))"

lemma similar_refl [simp, intro]: "similar st st"
  by (simp add: similar_def)

lemma similar_trans [trans]: "similar a b \<Longrightarrow> similar b c \<Longrightarrow> similar a c"
  unfolding similar_def by metis

lemma like_refl [simp, intro]: "like st st"
  by (simp add: like_def)

lemma like_trans [trans]: "like a b \<Longrightarrow> like b c \<Longrightarrow> like a c"
  unfolding like_def by (blast intro: similar_trans)

lemma similar_same: "sdata st' = sdata st \<Longrightarrow> idMaps st' = idMaps st \<Longrightarrow> similar st st'"
  by (simp add: similar_def storage_get_def read_pairs_def recordIDs_def)

lemma like_same: "sdata st' = sdata st \<Longrightarrow> idMaps st' = idMaps st \<Longrightarrow> idCount st' = idCount st \<Longrightarrow> like st st'"
  by (simp add: like_def erase_def pending_def similar_same)

lemma like_similar: "like st st' \<Longrightarrow> similar st st'"
proof -
  assume l: "like st st'"
  define n where "n = Suc (Max (insert 0 (lid ` set (sdata st) \<union> lid ` set (sdata st'))))"
  have "finite (insert 0 (lid ` set (sdata st) \<union> lid ` set (sdata st')))" by simp
  then have "m < n" if "m \<in> lid ` set (sdata st) \<union> lid ` set (sdata st')" for m
    using that unfolding n_def by (simp add: less_Suc_eq_le)
  then have "erase n st = st" "erase n st' = st'"
    by (force simp: erase_def filter_id_conv intro!: storage.equality)+
  with l show ?thesis unfolding like_def by metis
qed

subsection \<open>Filling in component functions\<close>

lemma get_loop_function:
  assumes "list_all2 (\<lambda>p q. same_view f p q \<or> is_function (fst (layer_get (fst q) (snd q) f))) ps qs"
  shows "fst (get_loop ids f GUndef qs a) = fst (get_loop ids f GUndef ps a)
     \<or> is_function (rr_value (fst (get_loop ids f GUndef qs a)))"
  using assms
proof (induction arbitrary: a)
  case (Cons p ps q qs)
  obtain m j where q: "q = (m, j)" by fastforce
  obtain w k where w: "layer_get m j f = (w, k)" by fastforce
  show ?case
  proof (cases "is_function w")
    case True
    then have "w \<noteq> GUndef" "\<not> is_arr w" by (cases w; simp)+
    from get_loop_scalar [OF w this, of ids GUndef qs a] True show ?thesis by (simp add: q del: get_loop.simps)
  next
    case False
    obtain l i where p: "p = (l, i)" by fastforce
    have v: "layer_get l i f = (w, k)" "getOperations l i f = getOperations m j f" "deletedIDs l = deletedIDs m"
        "lid l = lid m" "undone_in l f = undone_in m f"
      using Cons.hyps(1) False w by (auto simp: same_view_def p q)
    have c: "collect_deleted ids l f = collect_deleted ids m f" by (rule ext) (simp add: collect_deleted_def v)
    show ?thesis
      unfolding p q get_loop.simps Let_def v(1,2,3,4) w c
      using Cons.IH by (auto split: option.split gval.split)
  qed
qed simp

lemma writeField_view [simp]:
  "getOperations (layer_writeField w g d l) = getOperations l" "undone_in (layer_writeField w g d l) = undone_in l"
  "deletedIDs (layer_writeField w g d l) = deletedIDs l" "lid (layer_writeField w g d l) = lid l"
  by (simp_all add: fun_eq_iff getOperations_def undone_in_def layer_writeField_def)

lemma writeField_sees:
  assumes "is_function d" and "or_undef (eget (llinks l) w g) = GUndef"
  shows "same_view f (l, x) (layer_writeField w g d l, x) \<or> is_function (fst (layer_get (layer_writeField w g d l) x f))"
proof (cases "x = w \<and> f = g")
  case True
  with assms show ?thesis by (simp add: layer_get_def layer_writeField_def omap_simps)
next
  case False
  then have "layer_get (layer_writeField w g d l) x f = layer_get l x f"
    by (auto simp: layer_get_def layer_writeField_def omap_simps)
  then show ?thesis by (simp add: same_view_def)
qed

lemma like_writeField:
  assumes "is_function d" and "\<And>l. l \<in> set (sdata (ensure_top st)) \<Longrightarrow> l = last (sdata (ensure_top st))
    \<Longrightarrow> or_undef (eget (llinks l) w g) = GUndef"
  shows "like st (storage_writeField w g d st)"
proof -
  let ?t = "ensure_top st"
  let ?l = "last (sdata ?t)"
  let ?st = "storage_writeField w g d st"
  have t: "sdata ?t = butlast (sdata ?t) @ [?l]" using ensure_top_ne by simp
  then have lk: "or_undef (eget (llinks ?l) w g) = GUndef" using assms(2) by (metis in_set_conv_decomp)
  have st: "sdata ?st = butlast (sdata ?t) @ [layer_writeField w g d ?l]" "idMaps ?st = idMaps st"
    by (simp_all add: storage_writeField_def on_top_sdata on_top_idMaps)
  have ids: "idMaps ?t = idMaps st" by (simp add: ensure_top_def createLayer_eq Let_def)
  have "similar (erase n st) (erase n ?st)" for n
    unfolding similar_def
  proof (intro allI)
    fix i f
    have "storage_get (erase n ?t) i f = storage_get (erase n st) i f"
      by (rule storage_get_blank) (auto simp: erase_def ensure_top_def createLayer_eq Let_def)
    moreover have "list_all2 (\<lambda>p q. same_view f p q \<or> is_function (fst (layer_get (fst q) (snd q) f)))
        (read_pairs (erase n ?t) i) (read_pairs (erase n ?st) i)" (is "list_all2 ?R _ _")
    proof -
      have same: "list_all2 ?R xs xs" for xs by (rule list.rel_refl) (simp add: same_view_def)
      have one: "list_all2 ?R (map (Pair ?l) ks) (map (Pair (layer_writeField w g d ?l)) ks)" for ks
        using writeField_sees [OF assms(1) lk] by (simp add: list_all2_map1 list_all2_map2 list_all2_same)
      have "recordIDs (erase n ?t) i = recordIDs (erase n ?st) i" by (simp add: recordIDs_def erase_def st ids)
      moreover have "sdata (erase n ?t) = filter (\<lambda>l. lid l \<noteq> n) (butlast (sdata ?t)) @ (if lid ?l = n then [] else [?l])"
        unfolding erase_def by (subst t) simp
      moreover have "sdata (erase n ?st) = filter (\<lambda>l. lid l \<noteq> n) (butlast (sdata ?t))
          @ (if lid ?l = n then [] else [layer_writeField w g d ?l])"
        by (simp add: erase_def st layer_writeField_def)
      ultimately show ?thesis
        by (simp add: read_pairs_def list_all2_appendI same one)
    qed
    moreover have "idMaps (erase n ?t) = idMaps (erase n ?st)" by (simp add: erase_def st ids)
    ultimately show "storage_get (erase n ?st) i f = storage_get (erase n st) i f \<or> is_function (read_value (erase n ?st) i f)"
      using get_loop_function [of f "read_pairs (erase n ?t) i" "read_pairs (erase n ?st) i" "idMaps (erase n ?t)" no_acc]
      by (simp add: storage_get_def)
  qed
  moreover have "pending n ?st" if "pending n st" for n
  proof -
    have "pending n ?t" using that by (auto simp: pending_def ensure_top_def createLayer_eq Let_def)
    moreover have "map tag (sdata ?st) = map tag (sdata ?t)"
      unfolding st(1) by (subst (3) t) (simp add: layer_writeField_def)
    moreover have "idCount ?st = idCount ?t" by (simp add: storage_writeField_def on_top_def Let_def)
    ultimately show ?thesis using pending_cong by blast
  qed
  ultimately show ?thesis unfolding like_def by blast
qed

lemma get_loop_wrote:
  assumes "is_function d" and "snd (get_loop ids f d ((l, i) # ps) a) = Some w"
  shows "w = i \<and> fst (layer_get l i f) = GUndef"
proof -
  obtain v k where v: "layer_get l i f = (v, k)" by fastforce
  have d: "truthy d" "d \<noteq> GUndef" "\<not> is_arr d" using assms(1) by (cases d; simp)+
  show ?thesis
  proof (cases "v = GUndef")
    case True
    with assms(2) d v show ?thesis by (simp add: Let_def)
  next
    case False
    then have False using assms(2) by (auto simp: v Let_def split: if_splits option.splits gval.splits)
    then show ?thesis ..
  qed
qed

lemma like_get_default:
  assumes "d = GUndef \<or> is_function d"
  shows "like st (snd (storage_get_default i f d st))"
proof -
  obtain r wrote where r: "get_loop (idMaps st) f d (read_pairs st i) no_acc = (r, wrote)" by fastforce
  show ?thesis
  proof (cases wrote)
    case None
    then show ?thesis by (simp add: storage_get_default_def r)
  next
    case (Some w)
    have fn: "is_function d"
    proof (rule ccontr)
      have "snd (get_loop ids f GUndef ps a) = None" for ids ps a
        by (induction ps arbitrary: a) (auto simp: Let_def split: prod.split option.split gval.split)
      moreover assume "\<not> is_function d"
      ultimately show False using assms r Some by (metis option.distinct(1) snd_conv)
    qed
    have "sdata st \<noteq> []" using r Some by (auto simp: read_pairs_def)
    then have l: "sdata st = butlast (sdata st) @ [last (sdata st)]" by simp
    obtain k ps where ps: "read_pairs st i = (last (sdata st), k) # ps" using read_pairs_Cons [OF l] by blast
    have w: "w = k" "fst (layer_get (last (sdata st)) k f) = GUndef"
      using get_loop_wrote [OF fn, of "idMaps st" f "last (sdata st)" k ps no_acc w] r Some by (simp_all add: ps)
    have "or_undef (eget (llinks (last (sdata (ensure_top st)))) w f) = GUndef"
    proof (cases "optimistic (last (sdata st))")
      case True
      then show ?thesis using \<open>sdata st \<noteq> []\<close> by (simp add: ensure_top_def createLayer_eq new_layer_def Let_def)
    next
      case False
      then show ?thesis using \<open>sdata st \<noteq> []\<close> w by (auto simp: ensure_top_def layer_get_def split: if_splits)
    qed
    then show ?thesis using fn by (simp add: storage_get_default_def r Some like_writeField)
  qed
qed

lemma like_getTypename: "like st (snd (getTypename i st))"
  using getTypename_data [of st i] by (intro like_same) (simp_all add: same_data_def)

interpretation lk: store_reader like
  by unfold_locales (auto intro: like_trans like_getTypename like_get_default)

subsection \<open>Writing on one layer\<close>

definition rolls_back :: "nat \<Rightarrow> storage \<Rightarrow> storage \<Rightarrow> bool" where
  "rolls_back n st st' \<longleftrightarrow> (pending n st \<longrightarrow> pending n st' \<and> similar (erase n st) (erase n st'))"

lemma rolls_back_like: "like st st' \<Longrightarrow> rolls_back n st st'"
  by (simp add: rolls_back_def like_def)

lemma rolls_back_reader: "store_reader (rolls_back n)"
proof
  show "rolls_back n a c" if "rolls_back n a b" "rolls_back n b c" for a b c
    using that unfolding rolls_back_def by (blast intro: similar_trans)
qed (auto intro: rolls_back_like like_getTypename like_get_default)

lemma rolls_back_tags:
  assumes "map tag (sdata st') = map tag (sdata st)" and "idCount st' = idCount st" and "idMaps st' = idMaps st"
    and "filter (\<lambda>l. lid l \<noteq> n) (sdata st') = filter (\<lambda>l. lid l \<noteq> n) (sdata st)"
  shows "rolls_back n st st'"
  using pending_cong [OF assms(1,2)] similar_same [of "erase n st'" "erase n st"] assms(3,4)
  by (simp add: rolls_back_def erase_def)

lemma rolls_back_on_layer:
  assumes "\<And>l. layer_step l (f l)"
  shows "rolls_back n st (on_layer n f st)"
proof (rule rolls_back_tags)
  have f: "tag (f l) = tag l" for l using layer_step_frame [OF assms] by simp
  then show "map tag (sdata (on_layer n f st)) = map tag (sdata st)" by (simp add: on_layer_def)
  have "filter (\<lambda>l. lid l \<noteq> n) (map (\<lambda>l. if lid l = n then f l else l) ls) = filter (\<lambda>l. lid l \<noteq> n) ls" for ls
    using f by (induction ls) auto
  then show "filter (\<lambda>l. lid l \<noteq> n) (sdata (on_layer n f st)) = filter (\<lambda>l. lid l \<noteq> n) (sdata st)"
    by (simp add: on_layer_def)
qed (simp_all add: on_layer_def)

lemma rolls_back_on_layer_err:
  assumes "on_layer_err n f st = Inr st'" and step: "\<And>l l'. f l = Inr l' \<Longrightarrow> layer_step l l'"
  shows "rolls_back n st st'"
proof -
  obtain ls where ls: "smap (\<lambda>l. if lid l = n then f l else Inr l) (sdata st) = Inr ls" "st' = st\<lparr>sdata := ls\<rparr>"
    using assms(1) by (auto simp: on_layer_err_def sbind_simps)
  have tag: "tag l' = tag l" if "f l = Inr l'" for l l' using layer_step_frame [OF step [OF that]] by simp
  have "map tag ys = map tag xs" if all: "smap (\<lambda>l. if lid l = n then f l else Inr l) xs = Inr ys" for xs ys
    using all
  proof (induction xs arbitrary: ys)
    case (Cons x xs)
    then obtain y zs where y: "(if lid x = n then f x else Inr x) = Inr y" and z: "smap (\<lambda>l. if lid l = n then f l else Inr l) xs = Inr zs"
      and ys: "ys = y # zs" by (auto simp: sbind_simps)
    have "tag y = tag x" using y tag [of x y] by (cases "lid x = n") auto
    with Cons.IH [OF z] ys show ?case by simp
  qed simp
  moreover have "filter (\<lambda>l. lid l \<noteq> n) ls = filter (\<lambda>l. lid l \<noteq> n) (sdata st)"
    by (rule smap_other_layers [OF ls(1)]) (use tag in simp)
  ultimately show ?thesis using ls by (intro rolls_back_tags) simp_all
qed

text \<open>The branch of the writer for layers that are not optimistic is not taken on a pending layer.\<close>

lemma pending_optimistic: "pending n (cs_storage cs) \<Longrightarrow> optimistic (layer_of cs n)"
  by (force simp: pending_def layer_of_def find_None_iff find_Some_iff split: option.split)

interpretation rb: store_writer rolls_back
proof (rule store_writer.intro, goal_cases)
  case (1 n)
  show ?case by (rule rolls_back_reader)
next
  case (2 f n st)
  then show ?case by (rule rolls_back_on_layer)
next
  case (3 n h st st')
  then show ?case by (rule rolls_back_on_layer_err)
next
  case (6 cs n i)
  then show ?case using pending_optimistic by (auto simp: rolls_back_def)
qed (rule rolls_back_like, rule like_same; simp add: nextRank_def)+

subsection \<open>The life of a mutation\<close>

text \<open>A layer is created for a mutation, written to any number of times, and cleared again.\<close>

definition write_each :: "write_request list \<Rightarrow> cache_state \<Rightarrow> js_error + cache_state" where
  "write_each = sfold (\<lambda>w cs. sbind (cache_write w cs) (\<lambda>r. Inr (snd r)))"

lemma clearLayer_reads:
  assumes "clearLayer n cs = Inr cs'" and "pending n (cs_storage cs)"
  shows "similar (erase n (cs_storage cs)) (cs_storage cs')"
proof -
  let ?cs1 = "on_storage (on_layer n layer_clear) cs"
  obtain specs where cs': "cs' = notifySubscribers specs ?cs1"
    using assms(1) by (auto simp: clearLayer_def Let_def sbind_simps)
  have "storage_get (cs_storage ?cs1) i f = storage_get (erase n (cs_storage cs)) i f" for i f
    unfolding on_storage_def by (simp add: on_layer_clear_reads erase_def)
  then have "similar (erase n (cs_storage cs)) (cs_storage ?cs1)" by (simp add: similar_def)
  also have "similar (cs_storage ?cs1) (cs_storage cs')"
    unfolding cs' using lk.walks_notifySubscribers by (intro like_similar) simp
  finally show ?thesis .
qed

lemma storage_step_counter: "storage_step st st' \<Longrightarrow> idCount st \<le> idCount st'"
  by (induction rule: storage_step.induct)
     (auto simp: createLayer_eq ensure_top_def removeEmbeddedRecord_def registerIDMapping_def resolveLayer_def
        storage_reset_def Let_def sbind_simps split: option.splits)

lemma reachable_counter: "reachable_storage st \<Longrightarrow> 0 < idCount st"
  unfolding reachable_storage_def
proof (induction rule: rtranclp_induct)
  case (step s t)
  then show ?case using storage_step_counter by fastforce
qed (simp add: new_storage_def)

lemma layer_rollback:
  assumes "reachable_storage (cs_storage cs)" and "createLayer True (cs_storage cs) = (l, st)"
    and "\<forall>w\<in>set ws. wr_layer w = Some (lid l)"
    and "write_each ws (cs\<lparr>cs_storage := st\<rparr>) = Inr cs1" and "clearLayer (lid l) cs1 = Inr cs2"
  shows "storage_get (cs_storage cs2) i f = storage_get (cs_storage cs) i f \<or> is_function (read_value (cs_storage cs2) i f)"
proof -
  let ?n = "lid l"
  let ?cs0 = "cs\<lparr>cs_storage := st\<rparr>"
  have ok: "storage_ok (cs_storage cs)" using reachable_storage_inv [OF assms(1)] by (simp add: store_inv_def)
  have l: "?n = idCount (cs_storage cs)" "st = (cs_storage cs)\<lparr>idCount := Suc ?n, sdata := sdata (cs_storage cs) @ [l]\<rparr>"
    "optimistic l"
    using assms(2) by (auto simp: createLayer_eq)
  have n: "0 < ?n" using l reachable_counter [OF assms(1)] by simp
  have fresh: "lid x \<noteq> ?n" if "x \<in> set (sdata (cs_storage cs))" for x
    using ok that l(1) by (auto simp: storage_ok_def)
  then have "pending ?n (cs_storage ?cs0)" using l(3) by (auto simp: pending_def l(2))
  moreover have "rolls_back ?n (cs_storage ?cs0) (cs_storage cs1)"
  proof (rule rb.w.walks_sfold_id [OF assms(4) [unfolded write_each_def]])
    fix w s t assume "w \<in> set ws" "sbind (cache_write w s) (\<lambda>r. Inr (snd r)) = Inr t"
    moreover from this have "write_layer (wr_layer w) s = (?n, s)"
      using assms(3) n by (cases ?n) (auto simp: write_layer_def)
    ultimately show "rolls_back ?n (cs_storage s) (cs_storage t)" by (auto simp: sbind_simps intro: rb.walks_cache_write)
  qed
  ultimately have p: "pending ?n (cs_storage cs1)" "similar (erase ?n st) (erase ?n (cs_storage cs1))"
    by (simp_all add: rolls_back_def)
  have "filter (\<lambda>x. lid x \<noteq> ?n) (sdata st) = sdata (cs_storage cs)" using fresh by (simp add: l(2))
  then have "similar (cs_storage cs) (erase ?n st)" by (intro similar_same) (simp_all add: erase_def l(2))
  also note p(2)
  also have "similar (erase ?n (cs_storage cs1)) (cs_storage cs2)" using assms(5) p(1) by (rule clearLayer_reads)
  finally show ?thesis by (simp add: similar_def)
qed

end
