(* ===== verification/Scenario.thy ===== *)
theory Scenario
  imports CacheApi
begin

section \<open>Two small programs over the cache\<close>

text \<open>
  Concrete documents and states that the witnesses evaluate: a query for a title, and a query for a list of
  users, each with its subscription and a first response.
\<close>

definition sample_field :: "string \<Rightarrow> string \<Rightarrow> selection option \<Rightarrow> field" where
  "sample_field ty key so = Field ((plain_info ty key)\<lparr>fi_visible := Some True, fi_nullable := Some True\<rparr>) so"

definition title_selection :: selection where
  "title_selection = fields_only [(''t'', sample_field ''S'' ''t'' None)]"

definition users_selection :: selection where
  "users_selection = fields_only [(''us'', Field ((plain_info ''U'' ''us'')\<lparr>fi_visible := Some True, fi_nullable := Some True,
     fi_list := Some \<lparr>li_name = ''Us'', li_connection = False, li_type = ''U'', li_includeListID = None\<rparr>\<rparr>)
     (Some (fields_only [(''id'', sample_field ''ID'' ''id'' None)])))]"

definition sample_write :: "selection \<Rightarrow> gobj \<Rightarrow> nat option \<Rightarrow> write_request" where
  "sample_write sel data layer = \<lparr>wr_selection = sel, wr_data = data, wr_variables = [], wr_parent = rootID,
     wr_layer = layer, wr_applyUpdates = None, wr_forceNotify = False, wr_forceStale = False, wr_notify = []\<rparr>"

definition title_write :: "string \<Rightarrow> nat option \<Rightarrow> write_request" where
  "title_write t = sample_write title_selection [(''t'', GStr t)]"

definition users_write :: "string list \<Rightarrow> nat option \<Rightarrow> write_request" where
  "users_write us = sample_write users_selection [(''us'', GArr (map (\<lambda>u. GObj [(''id'', GStr u)]) us))]"

definition sample_spec :: "selection \<Rightarrow> subscription_spec" where
  "sample_spec sel = \<lparr>sp_rootType = ''Q'', sp_kind = Some HoudiniQuery, sp_selection = sel,
     sp_onMessage = 1, sp_parentID = None, sp_variables = None\<rparr>"

definition ran :: "js_error + 'a \<Rightarrow> 'a \<Rightarrow> 'a" where
  "ran r d = (case r of Inr x \<Rightarrow> x | Inl e \<Rightarrow> d)"

definition loaded :: "selection \<Rightarrow> write_request \<Rightarrow> cache_state" where
  "loaded sel w =
     (let cs0 = cache_subscribe (sample_spec sel) [] (new_cache empty_config)
      in snd (ran (cache_write w cs0) ([], cs0)))"

definition title_cache :: cache_state where
  "title_cache = loaded title_selection (title_write ''A'' None)"

definition users_cache :: cache_state where
  "users_cache = loaded users_selection (users_write [''2''] None)"

end
