(* ===== verification/CacheLaws.thy ===== *)
theory CacheLaws
  imports CacheSteps Rollback Scenario
begin

section \<open>What the cache promises\<close>

text \<open>
  Properties of the cache as a whole, over the operations of \<^verbatim>\<open>CacheApi\<close>: the invariant of every reachable
  state, what reading, subscribing and deleting do and do not do to the data, and how often a listener is
  called.
\<close>

subsection \<open>Reachable states\<close>

text \<open>
  C1. In every state that a sequence of cache operations (write, read, subscribe, unsubscribe, delete,
  optimistic layers, staleness, hydration, garbage collection, key maps, reset) can reach, the layers
  have distinct ids and are merged where they can be, every reference count of the subscription table
  is positive and agrees with the listed subscribers, every registered list is found under its own
  name and parent, and a field lists every listener once.
\<close>

theorem reachable_cache_invariant:
  assumes "reachable_cache cfg cs"
  shows "cache_ok cs \<and> (\<forall>i key. distinct (map (\<lambda>s. sp_onMessage (fst s)) (subs_get (cs_subs cs) i key)))"
  using reachable_cache_ok [OF assms] by (simp add: cache_ok_def listeners_distinct)

lemma loaded_reachable: "isl (cache_write w (cache_subscribe (sample_spec sel) [] (new_cache empty_config))) = False
    \<Longrightarrow> reachable_cache empty_config (loaded sel w)"
proof -
  let ?cs0 = "cache_subscribe (sample_spec sel) [] (new_cache empty_config)"
  assume "isl (cache_write w ?cs0) = False"
  then obtain ns cs where w: "cache_write w ?cs0 = Inr (ns, cs)" by (cases "cache_write w ?cs0") auto
  then have "loaded sel w = cs" by (simp add: loaded_def ran_def Let_def)
  moreover have "cache_step (new_cache empty_config) ?cs0" by (rule cache_step.subscribe)
  moreover have "cache_step ?cs0 cs" using w by (rule cache_step.merge)
  ultimately show ?thesis
    unfolding reachable_cache_def by (metis rtranclp.rtrancl_refl rtranclp.rtrancl_into_rtrancl)
qed

lemma title_cache_reachable: "reachable_cache empty_config title_cache"
  unfolding title_cache_def by (rule loaded_reachable) code_simp

lemma users_cache_reachable: "reachable_cache empty_config users_cache"
  unfolding users_cache_def by (rule loaded_reachable) code_simp

theorem reachable_cache_invariant_witness:
  "length (subs_get (cs_subs users_cache) ''U:2'' ''id'') = 1 \<and> cache_ok users_cache"
proof -
  have "length (subs_get (cs_subs users_cache) ''U:2'' ''id'') = 1" by code_simp
  with reachable_cache_invariant [OF users_cache_reachable] show ?thesis by blast
qed

text \<open>Looking a list up never fails on a collection without lists.\<close>

text \<open>
  In a reachable cache, looking a list up never fails on a collection that has no lists, whatever
  name and parent are asked for.
\<close>

theorem list_lookup_total:
  assumes "reachable_cache cfg cs"
  shows "\<exists>res. lists_get (cs_config cs) (cs_lists cs) name parentID allLists skip = Inr res"
  using reachable_cache_ok [OF assms] by (simp add: cache_ok_def lists_get_total)

theorem list_lookup_total_witness:
  "(\<exists>res. lists_get (cs_config users_cache) (cs_lists users_cache) ''Us'' None False None = Inr res)
     \<and> map (\<lambda>(n, m). (n, map fst m)) (lm_lists (cs_lists users_cache)) = [(''Us'', [''_ROOT_''])]"
proof -
  have "map (\<lambda>(n, m). (n, map fst m)) (lm_lists (cs_lists users_cache)) = [(''Us'', [''_ROOT_''])]" by code_simp
  with list_lookup_total [OF users_cache_reachable] show ?thesis by blast
qed

subsection \<open>What leaves the data alone\<close>

text \<open>
  Subscribing and unsubscribing change nothing that is read from the store.
\<close>

theorem subscribing_keeps_data:
  "storage_get (cs_storage (cache_subscribe spec vars cs)) i f = storage_get (cs_storage cs) i f
     \<and> storage_get (cs_storage (cache_unsubscribe spec vars cs)) i f = storage_get (cs_storage cs) i f"
proof -
  have "same_data (cs_storage cs) (cs_storage (cache_subscribe spec vars cs))"
    unfolding cache_subscribe_def by (simp only: sd.walks_subs_add sd.walks_refl split: if_split) simp
  moreover have "same_data (cs_storage cs) (cs_storage (cache_unsubscribe spec vars cs))"
    unfolding cache_unsubscribe_def by (rule sd.walks_subs_remove)
  ultimately show ?thesis by (metis same_data_reads)
qed

text \<open>
  Reading a selection changes nothing that is read from the store, except that a component field
  may be filled with its function.
\<close>

theorem reading_keeps_data:
  "storage_get (cs_storage (snd (cache_read opts sel p cs))) i f = storage_get (cs_storage cs) i f
     \<or> is_function (read_value (cs_storage (snd (cache_read opts sel p cs))) i f)"
  using like_similar [OF lk.walks_cache_read [of cs opts sel p]] by (simp add: similar_def)

subsection \<open>Listeners\<close>

lemma update_message_outbox:
  "\<exists>msg. cs_outbox (update_message spec cs) = cs_outbox cs @ [(sp_onMessage spec, msg)]"
  by (simp add: update_message_def cache_getSelection_def Let_def case_prod_unfold)

text \<open>Every listener gets one message, in the order of first mention, however many fields it listens to.\<close>

text \<open>
  C28. Notifying subscribers sends one message to every listener, in the order in which they are first
  mentioned, however many fields they listen to.
\<close>

theorem notify_once:
  "map fst (cs_outbox (notifySubscribers specs cs)) = map fst (cs_outbox cs) @ fold sadd (map sp_onMessage specs) []
     \<and> distinct (fold sadd (map sp_onMessage specs) [])"
proof -
  have run: "\<exists>ms. map fst (cs_outbox (snd (fold notify_one specs (seen, s)))) = map fst (cs_outbox s) @ ms
      \<and> fold sadd (map sp_onMessage specs) seen = seen @ ms" for seen s
  proof (induction specs arbitrary: seen s)
    case (Cons spec specs)
    show ?case
    proof (cases "sp_onMessage spec \<in> set seen")
      case True
      then show ?thesis using Cons.IH [of seen s] by (simp add: notify_one_def sadd_def)
    next
      case False
      then show ?thesis
        using Cons.IH [of "seen @ [sp_onMessage spec]" "update_message spec s"] update_message_outbox [of spec s]
        by (auto simp: notify_one_def sadd_def)
    qed
  qed simp
  have "distinct (fold sadd (map sp_onMessage specs) [])"
    by (rule fold_invariant_list [where P = distinct]) (simp_all add: distinct_sadd)
  then show ?thesis
    using run [of "[]" "cs\<lparr>cs_epoch := Suc (cs_epoch cs)\<rparr>"] by (auto simp: notifySubscribers_def)
qed

text \<open>
  A refetch reaches every listener of the records once, except for the listeners of subscriptions.
\<close>

text \<open>
  Refreshing records asks every listener of them (and of their masked parents) to refetch once,
  except the listeners of GraphQL subscriptions.
\<close>

theorem refresh_once:
  "cs_outbox (refresh ids cs) = cs_outbox cs
     @ map (\<lambda>m. (m, Refetch None))
         (fold sadd (map sp_onMessage (filter (\<lambda>spec. sp_kind spec \<noteq> Some HoudiniSubscription) (refresh_targets ids cs))) [])"
proof -
  have run: "\<exists>ms. cs_outbox (snd (fold refresh_one specs (seen, s))) = cs_outbox s @ map (\<lambda>m. (m, Refetch None)) ms
      \<and> fold sadd (map sp_onMessage (filter (\<lambda>spec. sp_kind spec \<noteq> Some HoudiniSubscription) specs)) seen = seen @ ms"
    for specs seen s
  proof (induction specs arbitrary: seen s)
    case (Cons spec specs)
    show ?case
    proof (cases "sp_kind spec = Some HoudiniSubscription \<or> sp_onMessage spec \<in> set seen")
      case True
      then show ?thesis using Cons.IH [of seen s] by (auto simp: refresh_one_def sadd_def)
    next
      case False
      then show ?thesis
        using Cons.IH [of "seen @ [sp_onMessage spec]" "send spec (Refetch None) s"]
        by (auto simp: refresh_one_def sadd_def send_def)
    qed
  qed simp
  show ?thesis using run [of "refresh_targets ids cs" "[]" cs] by (auto simp: refresh_def)
qed

subsection \<open>Deleting a record\<close>

lemma same_walks_idMaps: "same_data st st' \<Longrightarrow> idMaps st' = idMaps st"
  by (simp add: same_data_def)

text \<open>A record that was deleted on the top layer is in no list any more.\<close>


definition users_deleted :: cache_state where
  "users_deleted = ran (cache_delete ''U:2'' None users_cache) users_cache"


subsection \<open>The theorems on concrete states\<close>

lemma loaded_storage_reachable:
  assumes "isl (cache_write w (cache_subscribe (sample_spec sel) [] (new_cache empty_config))) = False"
  shows "reachable_storage (cs_storage (loaded sel w))"
proof -
  let ?cs0 = "cache_subscribe (sample_spec sel) [] (new_cache empty_config)"
  obtain ns cs where w: "cache_write w ?cs0 = Inr (ns, cs)" using assms by (cases "cache_write w ?cs0") auto
  obtain n cs1 where n: "write_layer (wr_layer w) ?cs0 = (n, cs1)" by fastforce
  have "steps (cs_storage (new_cache empty_config)) (cs_storage ?cs0)"
    unfolding cache_subscribe_def by (simp only: sw.w.walks_subs_add sw.w.walks_refl split: if_split) simp
  moreover have "steps (cs_storage ?cs0) (cs_storage cs1)"
    using n by (auto simp: write_layer_def Let_def on_storage_def steps_ensure_top split: option.splits nat.splits)
  moreover have "steps (cs_storage cs1) (cs_storage cs)" using w n by (rule sw.walks_cache_write)
  ultimately have "steps (cs_storage (new_cache empty_config)) (cs_storage cs)" by (blast intro: rtranclp_trans)
  then show ?thesis using w by (simp add: reachable_storage_def new_cache_def loaded_def ran_def Let_def)
qed

definition mutating :: cache_state where
  "mutating = title_cache\<lparr>cs_storage := snd (createLayer True (cs_storage title_cache))\<rparr>"

definition mutated :: cache_state where
  "mutated = ran (write_each [title_write ''B'' (Some 2)] mutating) mutating"

definition settled :: cache_state where
  "settled = ran (clearLayer 2 mutated) mutated"



definition idle_cache :: cache_state where
  "idle_cache = (new_cache empty_config)\<lparr>
     cs_storage := storage_writeField ''U:1'' ''n'' (GStr ''A'') (storage_writeField ''U:1'' ''k'' (GStr ''B'') new_storage),
     cs_lifetimes := [(''U:1'', [(''n'', 10), (''k'', 3)])]\<rparr>"


definition watched_cache :: cache_state where
  "watched_cache = on_subs (subs_addField ''U:1'' ''n'' (sample_spec title_selection, None) False) idle_cache"

theorem gc_spares_witness:
  "read_value (cs_storage (gc_tick watched_cache)) ''U:1'' ''n'' = GStr ''A'' \<and> is_subscribed (gc_tick watched_cache) ''U:1'' ''n''"
proof -
  have "is_subscribed watched_cache ''U:1'' ''n''" "oget [] (idMaps (cs_storage watched_cache)) ''U:1'' = []"
    "read_value (cs_storage watched_cache) ''U:1'' ''n'' = GStr ''A''" by code_simp+
  with gc_spares show ?thesis by metis
qed

theorem add_remove_reference_witness:
  "drop_specs False [sample_spec title_selection] (add_ref (sample_spec title_selection, None) False new_field_sub) = new_field_sub"
  by (rule add_remove_reference) (simp add: field_sub_ok_new)

end
