(* ===== verification/Lru.thy ===== *)
theory Lru
  imports HPrelude "HOL-Library.Multiset"
begin

section \<open>The LRU cache\<close>

text \<open>
  \<^verbatim>\<open>runtime/lru.ts\<close>: a bounded map whose insertion order is the order of use. \<open>lru_evicted\<close> records the
  calls of \<open>onEvict\<close>, oldest first. Values are neither null nor undefined.
\<close>

record 'a lru =
  lru_capacity :: nat
  lru_map :: "(string, 'a) omap"
  lru_evicted :: "(string \<times> 'a) list"

definition new_lru :: "nat \<Rightarrow> 'a lru" where
  "new_lru c = \<lparr>lru_capacity = c, lru_map = [], lru_evicted = []\<rparr>"

definition evict :: "string \<Rightarrow> 'a \<Rightarrow> 'a lru \<Rightarrow> 'a lru" where
  "evict k v c = c\<lparr>lru_evicted := lru_evicted c @ [(k, v)]\<rparr>"

definition lru_set :: "string \<Rightarrow> 'a \<Rightarrow> 'a lru \<Rightarrow> 'a lru" where
  "lru_set k v c =
     (let existing = map_of (lru_map c) k;
          c1 = c\<lparr>lru_map := odel k (lru_map c)\<rparr>;
          c2 = (case existing of None \<Rightarrow> c1 | Some w \<Rightarrow> if w \<noteq> v then evict k w c1 else c1);
          c3 = c2\<lparr>lru_map := oset k v (lru_map c2)\<rparr>
      in if lru_capacity c3 < length (lru_map c3) then
           (case lru_map c3 of
              [] \<Rightarrow> c3
            | (first, x) # rest \<Rightarrow> evict first x (c3\<lparr>lru_map := odel first (lru_map c3)\<rparr>))
         else c3)"

definition lru_get :: "string \<Rightarrow> 'a lru \<Rightarrow> 'a option \<times> 'a lru" where
  "lru_get k c =
     (case map_of (lru_map c) k of
        None \<Rightarrow> (None, c)
      | Some v \<Rightarrow> (Some v, c\<lparr>lru_map := oset k v (odel k (lru_map c))\<rparr>))"

definition lru_has :: "string \<Rightarrow> 'a lru \<Rightarrow> bool" where
  "lru_has k c \<longleftrightarrow> k \<in> set (okeys (lru_map c))"

definition lru_delete :: "string \<Rightarrow> 'a lru \<Rightarrow> 'a lru" where
  "lru_delete k c =
     (let c1 = c\<lparr>lru_map := odel k (lru_map c)\<rparr>
      in case map_of (lru_map c) k of None \<Rightarrow> c1 | Some w \<Rightarrow> evict k w c1)"

definition lru_size :: "'a lru \<Rightarrow> nat" where
  "lru_size c = length (lru_map c)"

definition lru_room :: "'a lru \<Rightarrow> int" where
  "lru_room c = int (lru_capacity c) - int (length (lru_map c))"

definition lru_clear :: "'a lru \<Rightarrow> 'a lru" where
  "lru_clear c = fold (\<lambda>(k, v). evict k v) (lru_map c) (c\<lparr>lru_map := []\<rparr>)"

subsection \<open>Histories\<close>

datatype 'a lru_op = LSet string 'a | LGet string | LDelete string | LClear

fun lru_run :: "'a lru_op list \<Rightarrow> 'a lru \<Rightarrow> 'a lru" where
  "lru_run [] c = c"
| "lru_run (LSet k v # ops) c = lru_run ops (lru_set k v c)"
| "lru_run (LGet k # ops) c = lru_run ops (snd (lru_get k c))"
| "lru_run (LDelete k # ops) c = lru_run ops (lru_delete k c)"
| "lru_run (LClear # ops) c = lru_run ops (lru_clear c)"

definition lru_ok :: "'a lru \<Rightarrow> bool" where
  "lru_ok c \<longleftrightarrow> distinct (okeys (lru_map c)) \<and> length (lru_map c) \<le> lru_capacity c"

lemma evict_simps [simp]:
  "lru_map (evict k v c) = lru_map c" "lru_capacity (evict k v c) = lru_capacity c"
  "lru_evicted (evict k v c) = lru_evicted c @ [(k, v)]"
  by (simp_all add: evict_def)

lemma lru_clear_simps [simp]:
  "lru_map (lru_clear c) = []" "lru_capacity (lru_clear c) = lru_capacity c"
  "lru_evicted (lru_clear c) = lru_evicted c @ lru_map c"
proof -
  have "lru_map (fold (\<lambda>(k, v). evict k v) es d) = lru_map d \<and> lru_capacity (fold (\<lambda>(k, v). evict k v) es d) = lru_capacity d
      \<and> lru_evicted (fold (\<lambda>(k, v). evict k v) es d) = lru_evicted d @ es" for es and d :: "'a lru"
    by (induction es arbitrary: d) auto
  then show "lru_map (lru_clear c) = []" "lru_capacity (lru_clear c) = lru_capacity c"
    "lru_evicted (lru_clear c) = lru_evicted c @ lru_map c" by (simp_all add: lru_clear_def)
qed

text \<open>The queue of keys in order of use: a use moves a key to the end, the head is the next to go.\<close>

definition touch :: "string \<Rightarrow> 'a \<Rightarrow> (string, 'a) omap \<Rightarrow> (string, 'a) omap" where
  "touch k v m = odel k m @ [(k, v)]"

lemma oset_odel: "oset k v (odel k m) = touch k v m"
  by (simp add: touch_def oset_new okeys_odel)

lemma length_odel: "distinct (okeys m) \<Longrightarrow> map_of m k = Some v \<Longrightarrow> Suc (length (odel k m)) = length m"
  by (induction m) (auto simp: odel_fresh split: if_splits dest: map_of_SomeD)

lemma lru_set_map:
  "lru_map (lru_set k v c) = (if lru_capacity c < length (touch k v (lru_map c))
     then odel (fst (hd (touch k v (lru_map c)))) (touch k v (lru_map c)) else touch k v (lru_map c))"
  by (cases "touch k v (lru_map c)")
     (auto simp: lru_set_def Let_def oset_odel touch_def split: option.split)

lemma lru_set_capacity [simp]: "lru_capacity (lru_set k v c) = lru_capacity c"
  by (auto simp: lru_set_def Let_def split: option.split list.split)

lemma touch_distinct: "distinct (okeys m) \<Longrightarrow> distinct (okeys (touch k v m))"
  by (simp add: touch_def distinct_odel okeys_odel)

lemma touch_length: "distinct (okeys m) \<Longrightarrow> length (touch k v m) \<le> Suc (length m)"
  using length_delete_le [of k m] by (simp add: touch_def)

lemma odel_hd: "distinct (okeys m) \<Longrightarrow> odel (fst (hd m)) m = tl m"
  by (cases m) (auto simp: odel_fresh)

lemma lru_set_ok: "lru_ok c \<Longrightarrow> lru_ok (lru_set k v c)"
  using touch_distinct [of "lru_map c" k v] touch_length [of "lru_map c" k v]
  by (auto simp: lru_ok_def lru_set_map odel_hd map_tl distinct_tl)

lemma lru_get_ok: "lru_ok c \<Longrightarrow> lru_ok (snd (lru_get k c))"
  using touch_distinct [of "lru_map c"]
  by (auto simp: lru_ok_def lru_get_def oset_odel split: option.split)
     (use length_odel [of "lru_map c" k] in \<open>auto simp: touch_def\<close>)

lemma lru_delete_ok: "lru_ok c \<Longrightarrow> lru_ok (lru_delete k c)"
  using length_delete_le [of k "lru_map c"]
  by (auto simp: lru_ok_def lru_delete_def Let_def distinct_odel split: option.split)

lemma lru_clear_ok: "lru_ok (lru_clear c)"
  by (simp add: lru_ok_def)

lemma lru_run_ok: "lru_ok c \<Longrightarrow> lru_ok (lru_run ops c)"
  by (induction ops c rule: lru_run.induct) (auto intro: lru_set_ok lru_get_ok lru_delete_ok lru_clear_ok)

text \<open>
  Every value that entered the cache is in it or was handed to \<open>onEvict\<close>, exactly once. Overwriting a
  key with the value it holds enters nothing.
\<close>

definition lru_total :: "'a lru \<Rightarrow> (string \<times> 'a) multiset" where
  "lru_total c = mset (lru_map c) + mset (lru_evicted c)"

lemma mset_odel:
  "distinct (okeys m) \<Longrightarrow> map_of m k = Some v \<Longrightarrow> mset m = add_mset (k, v) (mset (odel k m))"
  by (induction m) (auto simp: odel_fresh split: if_splits dest: map_of_SomeD)

lemma lru_set_total:
  assumes ok: "lru_ok c"
  shows "lru_total (lru_set k v c) = lru_total c + (if map_of (lru_map c) k = Some v then {#} else {#(k, v)#})"
proof -
  define c2 where "c2 = (case map_of (lru_map c) k of None \<Rightarrow> c\<lparr>lru_map := odel k (lru_map c)\<rparr>
    | Some w \<Rightarrow> if w \<noteq> v then evict k w (c\<lparr>lru_map := odel k (lru_map c)\<rparr>) else c\<lparr>lru_map := odel k (lru_map c)\<rparr>)"
  define c3 where "c3 = c2\<lparr>lru_map := touch k v (lru_map c)\<rparr>"
  have d: "distinct (okeys (lru_map c))" using ok by (simp add: lru_ok_def)
  have m2: "lru_map c2 = odel k (lru_map c)" by (simp add: c2_def split: option.split)
  then have "oset k v (lru_map c2) = touch k v (lru_map c)" by (simp add: oset_odel)
  then have s: "lru_set k v c = (if lru_capacity c3 < length (lru_map c3)
      then (case lru_map c3 of [] \<Rightarrow> c3 | (first, x) # rest \<Rightarrow> evict first x (c3\<lparr>lru_map := odel first (lru_map c3)\<rparr>)) else c3)"
    by (simp only: lru_set_def Let_def c2_def [symmetric] c3_def)
  have "lru_total c3 = lru_total c + (if map_of (lru_map c) k = Some v then {#} else {#(k, v)#})"
    using mset_odel [OF d, of k]
    by (cases "map_of (lru_map c) k")
       (auto simp: lru_total_def c3_def c2_def touch_def odel_fresh dest: map_of_eq_None_iff [THEN iffD1])
  moreover have "lru_total (evict f x (c3\<lparr>lru_map := odel f (lru_map c3)\<rparr>)) = lru_total c3"
    if "lru_map c3 = (f, x) # rest" for f x rest
  proof -
    have "map_of (lru_map c3) f = Some x" "distinct (okeys (lru_map c3))"
      using that touch_distinct [OF d, of k v] by (simp_all add: c3_def)
    from mset_odel [OF this(2,1)] show ?thesis by (simp add: lru_total_def)
  qed
  ultimately show ?thesis unfolding s by (auto split: list.split)
qed

lemma lru_get_total: "lru_ok c \<Longrightarrow> lru_total (snd (lru_get k c)) = lru_total c"
  using mset_odel [of "lru_map c" k]
  by (auto simp: lru_get_def lru_total_def lru_ok_def oset_odel touch_def split: option.split)

lemma lru_delete_total: "lru_ok c \<Longrightarrow> lru_total (lru_delete k c) = lru_total c"
  using mset_odel [of "lru_map c" k]
  by (auto simp: lru_delete_def lru_total_def lru_ok_def Let_def odel_fresh map_of_eq_None_iff split: option.split)

lemma lru_clear_total: "lru_total (lru_clear c) = lru_total c"
  by (simp add: lru_total_def)

fun entered :: "'a lru_op list \<Rightarrow> 'a lru \<Rightarrow> (string \<times> 'a) multiset" where
  "entered [] c = {#}"
| "entered (op # ops) c =
     (case op of LSet k v \<Rightarrow> if map_of (lru_map c) k = Some v then {#} else {#(k, v)#} | _ \<Rightarrow> {#})
     + entered ops (lru_run [op] c)"

text \<open>
  C33. In any run of the LRU cache every value that entered is still stored or was handed to onEvict,
  exactly once.
\<close>

lemma lru_run_total: "lru_ok c \<Longrightarrow> lru_total (lru_run ops c) = lru_total c + entered ops c"
proof (induction ops arbitrary: c)
  case (Cons op ops)
  have "lru_run (op # ops) c = lru_run ops (lru_run [op] c)" by (cases op) simp_all
  moreover have "lru_ok (lru_run [op] c)" using Cons.prems by (rule lru_run_ok)
  moreover have "lru_total (lru_run [op] c) = lru_total c
      + (case op of LSet k v \<Rightarrow> if map_of (lru_map c) k = Some v then {#} else {#(k, v)#} | _ \<Rightarrow> {#})"
    using Cons.prems by (cases op) (simp_all add: lru_set_total lru_get_total lru_delete_total lru_clear_total)
  ultimately show ?case using Cons.IH by (simp add: ac_simps)
qed simp

text \<open>A lookup after a store, and the victim of an eviction is the least recently used key.\<close>

lemma lru_get_set:
  assumes "lru_ok c" and "0 < lru_capacity c"
  shows "fst (lru_get k (lru_set k v c)) = Some v"
proof -
  have d: "distinct (okeys (touch k v (lru_map c)))" using assms(1) by (simp add: lru_ok_def touch_distinct)
  have "map_of (lru_map (lru_set k v c)) k = Some v"
  proof (cases "lru_capacity c < length (touch k v (lru_map c))")
    case True
    then obtain e m where m: "odel k (lru_map c) = e # m" using assms(2) by (cases "odel k (lru_map c)") (auto simp: touch_def)
    have "k \<notin> set (okeys (odel k (lru_map c)))" by (simp add: okeys_odel)
    with m True d show ?thesis
      by (simp add: lru_set_map odel_hd) (simp add: touch_def map_of_eq_None_iff [THEN iffD2] map_add_def)
  next
    case False
    then show ?thesis
      by (simp add: lru_set_map touch_def map_add_def map_of_odel)
  qed
  then show ?thesis by (simp add: lru_get_def)
qed

lemma lru_run_total_witness:
  "lru_total (lru_run [LSet ''a'' (1::nat), LSet ''b'' 2] (new_lru 1)) = {#(''a'', 1), (''b'', 2)#}"
  by (subst lru_run_total) (simp_all add: lru_ok_def new_lru_def lru_total_def lru_set_def Let_def evict_def)

lemma lru_get_set_witness:
  "fst (lru_get ''a'' (lru_set ''a'' (1::nat) \<lparr>lru_capacity = 1, lru_map = [(''b'', 2)], lru_evicted = []\<rparr>)) = Some 1"
  by (rule lru_get_set) (simp_all add: lru_ok_def)

end
