(* ===== verification/Artifacts.thy ===== *)
theory Artifacts
  imports Documents
begin

section \<open>Artifacts and results\<close>

text \<open>
  What the document stores work with (\<^verbatim>\<open>runtime/types.ts\<close>): the compiled document, cache policies and
  data sources, the result of a query. The refetch spec belongs to paginated documents. GraphQL errors
  are opaque values.
\<close>

datatype cache_policy = CacheOrNetwork | CacheOnly | NetworkOnly | CacheAndNetwork | NoCache

datatype data_source = FromCache | FromNetwork | FromSsr

record query_result =
  qr_data :: gval
  qr_errors :: "gval list option"
  qr_fetching :: bool
  qr_partial :: bool
  qr_stale :: bool
  qr_source :: "data_source option"
  qr_variables :: "gobj option"

datatype paginate_mode = Infinite | SinglePage
datatype direction = Forward | Backward | Both

record refetch_info =
  rf_path :: "string list"
  rf_pageSize :: gval
  rf_start :: gval
  rf_targetType :: string
  rf_direction :: direction
  rf_mode :: paginate_mode

text \<open>\<open>{ ...a, ...b }\<close>.\<close>

definition spread :: "gobj \<Rightarrow> gobj \<Rightarrow> gobj" where
  "spread a b = fold (\<lambda>(k, v). oset k v) b a"

text \<open>Every key of an object is unique.\<close>

lemma spread_prop: "distinct (okeys b) \<Longrightarrow> prop_of (spread a b) k = (case map_of b k of None \<Rightarrow> prop_of a k | Some v \<Rightarrow> v)"
proof (induction b arbitrary: a)
  case (Cons e b)
  obtain j v where e: "e = (j, v)" by fastforce
  have "map_of b j = None" using Cons.prems by (simp add: e map_of_eq_None_iff)
  with Cons show ?case by (auto simp: spread_def e prop_of_def omap_simps split: option.split)
qed (simp add: spread_def)

lemma spread_keys: "set (okeys (spread a b)) = set (okeys a) \<union> set (okeys b)"
  by (induction b arbitrary: a) (auto simp: spread_def okeys_oset simp del: set_map list.set_map)

lemma spread_distinct: "distinct (okeys a) \<Longrightarrow> distinct (okeys (spread a b))"
  by (induction b arbitrary: a) (auto simp: spread_def distinct_oset)

text \<open>The properties of an object, none of anything else.\<close>

fun obj_entries :: "gval \<Rightarrow> gobj" where
  "obj_entries (GObj ps) = ps"
| "obj_entries _ = []"

end
