(* ===== verification/Pagination.thy ===== *)
theory Pagination
  imports Artifacts
begin

section \<open>Pagination\<close>

text \<open>
  \<^verbatim>\<open>runtime/pagination.ts\<close> and \<^verbatim>\<open>runtime/pageInfo.ts\<close>: the handlers of paginated documents. A handler
  either settles with the current state, or sends a request through one of the two functions it was
  given; the request is the result here, and what the store does with it is in another theory. The fetch
  function, the metadata and the session are passed on untouched and left out; so is the warning on the
  console. Handlers exist for documents with a refetch spec only. Integers stand for page sizes and
  offsets; \<open>undefined\<close> plus a number, which is NaN in the source, is \<open>GUndef\<close>.
\<close>

subsection \<open>Page info\<close>

definition nullPageInfo :: gval where
  "nullPageInfo = GObj [(''startCursor'', GNull), (''endCursor'', GNull), (''hasNextPage'', GBool False), (''hasPreviousPage'', GBool False)]"

definition missingPageSizeError :: "string \<Rightarrow> js_error" where
  "missingPageSizeError fnName =
     Thrown (fnName @ '' is missing the required page arguments. For more information, please visit this link: SITE_URL/guides/pagination'')"

fun walk_path :: "gval \<Rightarrow> string list \<Rightarrow> gval" where
  "walk_path current [] = current"
| "walk_path current (k # path) = (if truthy current then walk_path (gprop current k) path else current)"

definition extractPageInfo :: "gval \<Rightarrow> string list \<Rightarrow> gval" where
  "extractPageInfo data path =
     (if \<not> truthy data then nullPageInfo
      else or_default (gprop (walk_path data path) ''pageInfo'') nullPageInfo)"

fun count_loop :: "string list \<Rightarrow> gval \<Rightarrow> js_error + nat" where
  "count_loop [] data = Inr 0"
| "count_loop (f # source) data =
     (case gprop data f of
        GArr xs \<Rightarrow> if truthy data then Inr (length xs) else Inl (Thrown ''Could not count page size'')
      | obj \<Rightarrow> if truthy obj then count_loop source obj
               else if \<not> truthy data then Inl (Thrown ''Could not count page size'')
               else count_loop source data)"

definition countPage :: "string list \<Rightarrow> gval \<Rightarrow> js_error + nat" where
  "countPage source value = (if nullish value then Inr 0 else count_loop source value)"

subsection \<open>Cursors\<close>

record page_env =
  pe_refetch :: refetch_info
  pe_policy :: "cache_policy option"
  pe_defaults :: gobj              \<comment> \<open>\<open>artifact.input?.defaults ?? {}\<close>\<close>
  pe_config :: config
  pe_state :: gval                 \<comment> \<open>\<open>getState()\<close>\<close>
  pe_variables :: gval             \<comment> \<open>\<open>getVariables()\<close>\<close>
  pe_loading :: bool               \<comment> \<open>\<open>getLoading?.()\<close>\<close>

datatype page_target = ParentFetch | ParentUpdate "string list"

record page_request =
  rq_target :: page_target
  rq_variables :: "gobj option"
  rq_policy :: "cache_policy option"

datatype page_outcome = Settled query_result | Send page_request | SendAsGiven

record cursors =
  previousCursors :: "gval list"
  nextCursors :: "gval list"

definition single_page :: "page_env \<Rightarrow> bool" where
  "single_page env \<longleftrightarrow> rf_mode (pe_refetch env) = SinglePage"

definition loadingNoOp :: "page_env \<Rightarrow> query_result" where
  "loadingNoOp env = \<lparr>qr_data = pe_state env, qr_errors = None, qr_fetching = False, qr_partial = False,
     qr_stale = False, qr_source = Some FromCache, qr_variables = Some (obj_entries (pe_variables env))\<rparr>"

definition getEntityVars :: "page_env \<Rightarrow> gobj" where
  "getEntityVars env =
     (let targetType = rf_targetType (pe_refetch env) in
      if targetType = [] \<or> targetType = ''Query'' then []
      else if \<not> truthy (pe_state env) then []
      else
        (let config = defaultConfigValues (pe_config env) in
         case Option.bind (map_of (cf_types config) targetType) tc_resolve of
           Some f \<Rightarrow> f (pe_state env)
         | None \<Rightarrow> fold (\<lambda>k. oset k (gprop (pe_state env) k)) (keyFieldsForType config targetType) []))"

definition loadPage :: "page_env \<Rightarrow> string \<Rightarrow> string \<Rightarrow> gobj \<Rightarrow> bool \<Rightarrow> js_error + page_outcome" where
  "loadPage env pageSizeVar functionName input atStart =
     (let loadVariables = spread (spread (spread (pe_defaults env) (getEntityVars env)) (obj_entries (pe_variables env))) input
      in if \<not> truthy (prop_of loadVariables pageSizeVar) \<and> \<not> truthy (rf_pageSize (pe_refetch env))
         then Inl (missingPageSizeError functionName)
         else Inr (Send
           \<lparr>rq_target = (if single_page env then ParentFetch else ParentUpdate [if atStart then ''prepend'' else ''append'']),
            rq_variables = Some loadVariables,
            rq_policy = (if single_page env then pe_policy env else Some NetworkOnly)\<rparr>))"

definition getPageInfo :: "page_env \<Rightarrow> gval" where
  "getPageInfo env = extractPageInfo (pe_state env) (rf_path (pe_refetch env))"

definition backward_input :: "page_env \<Rightarrow> gval \<Rightarrow> gval \<Rightarrow> gobj" where
  "backward_input env before n =
     [(''before'', before), (''last'', or_default n (rf_pageSize (pe_refetch env))), (''first'', GNull), (''after'', GNull)]"

definition forward_input :: "page_env \<Rightarrow> gval \<Rightarrow> gval \<Rightarrow> gobj" where
  "forward_input env after n =
     [(''first'', or_default n (rf_pageSize (pe_refetch env))), (''after'', after), (''before'', GNull), (''last'', GNull)]"

text \<open>The arguments \<open>first\<close> and \<open>after\<close> (\<open>last\<close> and \<open>before\<close>) are \<open>GUndef\<close> when they are not given.\<close>

definition loadNextPage :: "page_env \<Rightarrow> gval \<Rightarrow> gval \<Rightarrow> cursors \<Rightarrow> (js_error + page_outcome) \<times> cursors" where
  "loadNextPage env first after cs =
     (let dir = rf_direction (pe_refetch env) in
      if pe_loading env then (Inr (Settled (loadingNoOp env)), cs)
      else if single_page env \<and> dir = Backward \<and> nextCursors cs = [] then (Inr (Settled (loadingNoOp env)), cs)
      else if single_page env \<and> (dir = Backward \<or> dir = Both) \<and> nextCursors cs \<noteq> [] then
        (loadPage env ''last'' ''loadNextPage'' (backward_input env (last (nextCursors cs)) first) True,
         cs\<lparr>nextCursors := butlast (nextCursors cs)\<rparr>)
      else
        (let info = getPageInfo env in
         if \<not> truthy (gprop info ''hasNextPage'') then (Inr (Settled (loadingNoOp env)), cs)
         else
           (let cs1 = (if single_page env \<and> (dir = Forward \<or> dir = Both)
                  then cs\<lparr>previousCursors := previousCursors cs @ [or_default (gprop (pe_variables env) ''after'') GNull]\<rparr> else cs)
            in (loadPage env ''first'' ''loadNextPage'' (forward_input env (or_default after (gprop info ''endCursor'')) first) False, cs1))))"

definition loadPreviousPage :: "page_env \<Rightarrow> gval \<Rightarrow> gval \<Rightarrow> cursors \<Rightarrow> (js_error + page_outcome) \<times> cursors" where
  "loadPreviousPage env lst before cs =
     (let dir = rf_direction (pe_refetch env) in
      if pe_loading env then (Inr (Settled (loadingNoOp env)), cs)
      else if single_page env \<and> (dir = Forward \<or> dir = Both) \<and> previousCursors cs \<noteq> [] then
        (loadPage env ''first'' ''loadPreviousPage'' (forward_input env (last (previousCursors cs)) lst) False,
         cs\<lparr>previousCursors := butlast (previousCursors cs)\<rparr>)
      else if single_page env \<and> dir = Forward then (Inr (Settled (loadingNoOp env)), cs)
      else
        (let info = getPageInfo env in
         if \<not> truthy (gprop info ''hasPreviousPage'') then (Inr (Settled (loadingNoOp env)), cs)
         else
           (let pVars = pe_variables env;
                isForwardPage = (\<not> nullish (gprop pVars ''first'') \<or> \<not> nullish (gprop pVars ''after''));
                cs1 = (if single_page env \<and> (dir = Backward \<or> dir = Both) \<and> \<not> isForwardPage
                  then cs\<lparr>nextCursors := nextCursors cs @ [or_default (gprop pVars ''before'') GNull]\<rparr> else cs)
            in (loadPage env ''last'' ''loadPreviousPage'' (backward_input env (or_default before (gprop info ''startCursor'')) lst) True, cs1))))"

text \<open>\<open>fetch\<close>: the arguments' variables, \<open>None\<close> if they are not given. The rest of the arguments is kept.\<close>

definition js_gt :: "gval \<Rightarrow> gval \<Rightarrow> bool" where
  "js_gt a b = (case (a, b) of (GNum m, GNum n) \<Rightarrow> n < m | _ \<Rightarrow> False)"

definition or_else :: "gval \<Rightarrow> gval \<Rightarrow> gval" where
  "or_else a b = (if truthy a then a else b)"

definition window_variables :: "gval \<Rightarrow> gval \<Rightarrow> gval \<Rightarrow> gobj" where
  "window_variables cnt pageSize info =
     (if truthy cnt \<and> js_gt cnt pageSize then
        (if \<not> truthy (gprop info ''hasPreviousPage'') then
           [(''first'', cnt), (''after'', GNull), (''last'', GNull), (''before'', GNull)]
         else if \<not> truthy (gprop info ''hasNextPage'') then
           [(''last'', cnt), (''first'', GNull), (''after'', GNull), (''before'', GNull)]
         else [])
      else [])"

definition cursor_fetch :: "page_env \<Rightarrow> gobj option \<Rightarrow> js_error + page_outcome" where
  "cursor_fetch env variables =
     (if pe_loading env then Inr (Settled (loadingNoOp env))
      else if (case variables of None \<Rightarrow> False | Some vs \<Rightarrow> \<not> deepEquals (pe_variables env) (GObj vs)) then Inr SendAsGiven
      else
        (let info = getPageInfo env; pageSize = rf_pageSize (pe_refetch env) in
         sbind (countPage (rf_path (pe_refetch env) @ [''edges'']) (pe_state env)) (\<lambda>n.
           let cnt = or_else (GNum (int n)) pageSize
           in Inr (Send \<lparr>rq_target = ParentFetch,
                rq_variables = Some (spread (window_variables cnt pageSize info) (case variables of None \<Rightarrow> [] | Some vs \<Rightarrow> vs)),
                rq_policy = None\<rparr>))))"

subsection \<open>Offsets\<close>

definition js_add :: "gval \<Rightarrow> gval \<Rightarrow> gval" where
  "js_add a b = (case (a, b) of (GNum m, GNum n) \<Rightarrow> GNum (m + n) | _ \<Rightarrow> GUndef)"

definition getOffset :: "page_env \<Rightarrow> js_error + gval" where
  "getOffset env =
     (let start = rf_start (pe_refetch env);
          own = (\<lambda>offset. if single_page env then js_add offset (or_default (gprop (pe_variables env) ''offset'') (GNum 0)) else offset)
      in if truthy start then Inr (own start)
         else sbind (countPage (rf_path (pe_refetch env)) (pe_state env)) (\<lambda>n.
           Inr (own (or_else (GNum (int n)) (rf_pageSize (pe_refetch env))))))"

definition initial_offset :: "page_env \<Rightarrow> js_error + gval" where
  "initial_offset env = sbind (getOffset env) (\<lambda>offset. Inr (or_default offset (GNum 0)))"

text \<open>The second result is the new \<open>currentOffset\<close>.\<close>

definition offset_next :: "page_env \<Rightarrow> gval \<Rightarrow> gval \<Rightarrow> gval \<Rightarrow> js_error + page_outcome option \<times> gval" where
  "offset_next env limit offset currentOffset =
     (if pe_loading env then Inr (None, currentOffset)
      else
        sbind (if nullish offset then getOffset env else Inr offset) (\<lambda>target.
          let vars = spread (obj_entries (pe_variables env)) [(''offset'', target)];
              queryVariables = (if truthy limit \<or> limit = GNum 0 then oset ''limit'' limit vars else vars);
              pageSize = rf_pageSize (pe_refetch env)
          in if \<not> truthy (prop_of queryVariables ''limit'') \<and> \<not> truthy pageSize then Inl (missingPageSizeError ''loadNextPage'')
             else Inr (Some (Send
                 \<lparr>rq_target = (if single_page env then ParentFetch else ParentUpdate []),
                  rq_variables = Some queryVariables,
                  rq_policy = (if single_page env then pe_policy env else Some NetworkOnly)\<rparr>),
               js_add offset (or_else (prop_of queryVariables ''limit'') pageSize))))"

definition offset_fetch :: "page_env \<Rightarrow> gobj option \<Rightarrow> gval \<Rightarrow> js_error + page_outcome" where
  "offset_fetch env variables currentOffset =
     (if pe_loading env then Inr (Settled (loadingNoOp env))
      else if (case variables of None \<Rightarrow> False | Some vs \<Rightarrow> \<not> deepEquals (pe_variables env) (GObj vs)) then Inr SendAsGiven
      else
        sbind (if truthy currentOffset then Inr currentOffset else getOffset env) (\<lambda>cnt.
          let pageSize = rf_pageSize (pe_refetch env)
          in Inr (Send \<lparr>rq_target = ParentFetch,
               rq_variables = Some (if \<not> truthy pageSize \<or> js_gt cnt pageSize then [(''limit'', cnt)] else []),
               rq_policy = None\<rparr>)))"

subsection \<open>Laws\<close>

lemmas input_defs = forward_input_def backward_input_def

lemma loadPage_variables:
  assumes "loadPage env v fn input b = Inr (Send r)" and "distinct (okeys input)" and "map_of input k = Some x"
  shows "\<exists>vars. rq_variables r = Some vars \<and> prop_of vars k = x"
  using assms spread_prop [OF assms(2), of _ k]
  by (auto simp: loadPage_def Let_def split: if_splits)

lemma forward_request:
  assumes "loadPage env v fn (forward_input env after n) b = Inr (Send r)"
  shows "\<exists>vars. rq_variables r = Some vars \<and> prop_of vars ''first'' = or_default n (rf_pageSize (pe_refetch env))
    \<and> prop_of vars ''after'' = after \<and> prop_of vars ''before'' = GNull \<and> prop_of vars ''last'' = GNull"
proof -
  have d: "distinct (okeys (forward_input env after n))" by (simp add: forward_input_def)
  note v = loadPage_variables [OF assms d]
  show ?thesis
    using v [of "''first''"] v [of "''after''"] v [of "''before''"] v [of "''last''"] by (auto simp: forward_input_def)
qed

lemma backward_request:
  assumes "loadPage env v fn (backward_input env before n) b = Inr (Send r)"
  shows "\<exists>vars. rq_variables r = Some vars \<and> prop_of vars ''last'' = or_default n (rf_pageSize (pe_refetch env))
    \<and> prop_of vars ''before'' = before \<and> prop_of vars ''first'' = GNull \<and> prop_of vars ''after'' = GNull"
proof -
  have d: "distinct (okeys (backward_input env before n))" by (simp add: backward_input_def)
  note v = loadPage_variables [OF assms d]
  show ?thesis
    using v [of "''first''"] v [of "''after''"] v [of "''before''"] v [of "''last''"] by (auto simp: backward_input_def)
qed

lemma next_request:
  assumes "fst (loadNextPage env first after cs) = Inr (Send r)"
  shows "\<exists>v b c n. loadPage env v ''loadNextPage'' (forward_input env c n) b = Inr (Send r)
    \<or> loadPage env v ''loadNextPage'' (backward_input env c n) b = Inr (Send r)"
  using assms by (auto simp: loadNextPage_def Let_def split: if_splits)

lemma previous_request:
  assumes "fst (loadPreviousPage env lst before cs) = Inr (Send r)"
  shows "\<exists>v b c n. loadPage env v ''loadPreviousPage'' (forward_input env c n) b = Inr (Send r)
    \<or> loadPage env v ''loadPreviousPage'' (backward_input env c n) b = Inr (Send r)"
  using assms by (auto simp: loadPreviousPage_def Let_def split: if_splits)

definition one_way :: "gobj \<Rightarrow> bool" where
  "one_way vars \<longleftrightarrow>
     (prop_of vars ''before'' = GNull \<and> prop_of vars ''last'' = GNull) \<or> (prop_of vars ''first'' = GNull \<and> prop_of vars ''after'' = GNull)"

text \<open>
  A request for a page never asks in both directions: either before and last or first and after
  are null.
\<close>

lemma pages_one_way:
  assumes "fst (loadNextPage env n c cs) = Inr (Send r) \<or> fst (loadPreviousPage env n c cs) = Inr (Send r)"
  shows "\<exists>vars. rq_variables r = Some vars \<and> one_way vars"
proof -
  obtain v fn b c' m where "loadPage env v fn (forward_input env c' m) b = Inr (Send r)
      \<or> loadPage env v fn (backward_input env c' m) b = Inr (Send r)"
    using assms next_request [of env n c cs r] previous_request [of env n c cs r] by blast
  then show ?thesis
    using forward_request [of env v fn c' m b r] backward_request [of env v fn c' m b r] unfolding one_way_def by blast
qed


definition sample_page_env :: "bool \<Rightarrow> gval \<Rightarrow> gval \<Rightarrow> page_env" where
  "sample_page_env hasMore cursor after = \<lparr>pe_refetch = \<lparr>rf_path = [''us''], rf_pageSize = GNum 2, rf_start = GUndef, rf_targetType = ''Query'',
       rf_direction = Forward, rf_mode = SinglePage\<rparr>,
     pe_policy = Some CacheOrNetwork, pe_defaults = [(''first'', GNum 2)], pe_config = empty_config,
     pe_state = GObj [(''us'', GObj [(''edges'', GArr [GNum 1, GNum 2, GNum 3]), (''pageInfo'', GObj [(''hasNextPage'', GBool hasMore), (''endCursor'', cursor)])])],
     pe_variables = GObj [(''after'', after)], pe_loading = False\<rparr>"


lemma pages_one_way_witness:
  "\<exists>r vars. fst (loadNextPage (sample_page_env True (GStr ''b'') GUndef) GUndef GUndef \<lparr>previousCursors = [], nextCursors = []\<rparr>) = Inr (Send r)
     \<and> rq_variables r = Some vars \<and> one_way vars"
proof -
  let ?o = "fst (loadNextPage (sample_page_env True (GStr ''b'') GUndef) GUndef GUndef \<lparr>previousCursors = [], nextCursors = []\<rparr>)"
  have "case ?o of Inr (Send r) \<Rightarrow> True | _ \<Rightarrow> False" by code_simp
  then obtain r where "?o = Inr (Send r)" by (auto split: sum.splits page_outcome.splits)
  with pages_one_way [of "sample_page_env True (GStr ''b'') GUndef" GUndef GUndef _ r] show ?thesis by blast
qed

text \<open>Refetching at the start of a connection asks for everything that is displayed.\<close>

text \<open>
  Refetching a connection that is displayed from its start, and has grown past one page, asks for
  as many items as are displayed, from the start.
\<close>

lemma fetch_whole_window:
  assumes "\<not> pe_loading env" and "rf_pageSize (pe_refetch env) = GNum k" and "0 < k" and "k < int n"
    and "countPage (rf_path (pe_refetch env) @ [''edges'']) (pe_state env) = Inr n"
    and "\<not> truthy (gprop (getPageInfo env) ''hasPreviousPage'')"
  shows "\<exists>r vars. cursor_fetch env None = Inr (Send r) \<and> rq_target r = ParentFetch \<and> rq_variables r = Some vars
    \<and> prop_of vars ''first'' = GNum (int n) \<and> prop_of vars ''after'' = GNull \<and> one_way vars"
  using assms by (auto simp: cursor_fetch_def Let_def or_else_def window_variables_def js_gt_def spread_def one_way_def prop_of_def oget_def)

lemma fetch_whole_window_witness:
  "\<exists>r vars. cursor_fetch (sample_page_env True (GStr ''b'') GUndef) None = Inr (Send r) \<and> rq_variables r = Some vars
     \<and> prop_of vars ''first'' = GNum 3"
proof -
  let ?e = "sample_page_env True (GStr ''b'') GUndef"
  have "countPage (rf_path (pe_refetch ?e) @ [''edges'']) (pe_state ?e) = Inr 3" by code_simp
  moreover have "\<not> truthy (gprop (getPageInfo ?e) ''hasPreviousPage'')" by code_simp
  moreover have "\<not> pe_loading ?e" "rf_pageSize (pe_refetch ?e) = GNum 2" by (simp_all add: sample_page_env_def)
  ultimately show ?thesis using fetch_whole_window [of ?e 2 3] by fastforce
qed

end
