(* ===== verification/Scalars.thy ===== *)
theory Scalars
  imports CacheRead Artifacts
begin

section \<open>Marshalling of custom scalars\<close>

text \<open>
  \<^verbatim>\<open>runtime/scalars.ts\<close>: the values of a mutation's optimistic response and the inputs of an operation are
  turned into what the API accepts. The functions of the configuration are user code, so they are data here,
  and may throw.
\<close>

record scalar_fns =
  sf_marshal :: "(gval \<Rightarrow> js_error + gval) option"
  sf_unmarshal :: "(gval \<Rightarrow> gval) option"

type_synonym scalar_table = "(string, scalar_fns) omap"

record input_object =
  io_fields :: "(string, string) omap"
  io_types :: "(string, (string, string) omap) omap"
  io_defaults :: gobj
  io_runtimeScalars :: "(string, string) omap"

definition isScalar :: "scalar_table \<Rightarrow> string \<Rightarrow> bool" where
  "isScalar scalars ty \<longleftrightarrow> ty \<in> set ([''String'', ''Boolean'', ''Float'', ''ID'', ''Int''] @ okeys scalars)"

text \<open>A function applied to a value, or to every element of a list.\<close>

definition each_value :: "(gval \<Rightarrow> js_error + gval) \<Rightarrow> gval \<Rightarrow> js_error + gval" where
  "each_value fn v = (case v of GArr vs \<Rightarrow> sbind (smap fn vs) (\<lambda>ws. Inr (GArr ws)) | _ \<Rightarrow> fn v)"

definition missing_marshal :: "string \<Rightarrow> js_error" where
  "missing_marshal ty = Thrown (''Scalar type '' @ ty @ '' is missing a `marshal` function. See https://houdinigraphql.com/api/config#custom-scalars for help on configuring custom scalars.'')"

text \<open>\<open>Object.fromEntries(Object.entries(data).map(f))\<close> where \<open>f\<close> keeps the names.\<close>

definition map_props :: "(string \<Rightarrow> gval \<Rightarrow> js_error + gval) \<Rightarrow> gobj \<Rightarrow> js_error + gobj" where
  "map_props f ps = smap (\<lambda>(k, v). sbind (f k v) (\<lambda>w. Inr (k, w))) ps"

lemma map_props_cong [fundef_cong]:
  "ps = qs \<Longrightarrow> (\<And>k v. (k, v) \<in> set qs \<Longrightarrow> f k v = g k v) \<Longrightarrow> map_props f ps = map_props g qs"
  unfolding map_props_def by (rule smap_cong) auto

text \<open>
  \<open>marshalSelection\<close>. Destructuring a field that the selection does not have throws. A string has its
  characters as entries, other primitives have none.
\<close>

definition type_name :: "gval \<Rightarrow> string" where
  "type_name data = (case gprop data ''__typename'' of GStr t \<Rightarrow> t | _ \<Rightarrow> [])"

function marshalSelection :: "scalar_table \<Rightarrow> selection \<Rightarrow> gval \<Rightarrow> js_error + gval" where
  "marshalSelection scalars sel data =
     (case data of
        GNull \<Rightarrow> Inr GNull
      | GUndef \<Rightarrow> Inr GUndef
      | GArr vs \<Rightarrow> sbind (smap (marshalSelection scalars sel) vs) (\<lambda>ws. Inr (GArr ws))
      | GObj ps \<Rightarrow>
          sbind (map_props (\<lambda>fieldName v.
            if fieldName = fragmentKey then Inr v
            else
              (case map_of (fields_for_type sel (type_name data) False) fieldName of
                 None \<Rightarrow> Inl (TypeError ''undefined is not an object'')
               | Some f \<Rightarrow>
                   if f_type f = [] then Inr v
                   else
                     (case f_selection f of
                        Some sub \<Rightarrow> marshalSelection scalars sub v
                      | None \<Rightarrow>
                          (case map_of scalars (f_type f) of
                             None \<Rightarrow> Inr v
                           | Some fns \<Rightarrow>
                               (case sf_marshal fns of
                                  None \<Rightarrow> Inl (missing_marshal (f_type f))
                                | Some fn \<Rightarrow> each_value fn v))))) ps) (\<lambda>ws. Inr (GObj ws))
      | GStr s \<Rightarrow> if s = [] then Inr (GObj []) else Inl (TypeError ''undefined is not an object'')
      | _ \<Rightarrow> Inr (GObj []))"
  by pat_completeness auto
termination
proof (relation "measure (\<lambda>(scalars, sel, data). gdepth data)", goal_cases)
  case (2 scalars sel data vs v)
  then show ?case using gdepth_arr by simp
next
  case (3 scalars sel data ps k v f sub)
  then show ?case using gdepth_obj [of k v ps] by simp
qed simp

declare marshalSelection.simps [simp del]

text \<open>\<open>marshalInputs\<close>; \<open>fields\<close> is the table of the root, or of an input type.\<close>

function marshal_fields :: "scalar_table \<Rightarrow> input_object \<Rightarrow> (string, string) omap option \<Rightarrow> gval \<Rightarrow> js_error + gval" where
  "marshal_fields scalars ins flds input =
     (case input of
        GNull \<Rightarrow> Inr GNull
      | GUndef \<Rightarrow> Inr GUndef
      | GArr vs \<Rightarrow> sbind (smap (marshal_fields scalars ins flds) vs) (\<lambda>ws. Inr (GArr ws))
      | GObj ps \<Rightarrow>
          sbind (map_props (\<lambda>fieldName v.
            case Option.bind flds (\<lambda>m. map_of m fieldName) of
              None \<Rightarrow> Inr v
            | Some ty \<Rightarrow>
                if ty = [] then Inr v
                else
                  (case Option.bind (map_of scalars ty) sf_marshal of
                     Some fn \<Rightarrow> each_value fn v
                   | None \<Rightarrow>
                       if isScalar scalars ty \<or> map_of (io_types ins) ty = None then Inr v
                       else marshal_fields scalars ins (map_of (io_types ins) ty) v)) ps) (\<lambda>ws. Inr (GObj ws))
      | GStr s \<Rightarrow> Inr (GObj (map (\<lambda>(n, c). (js_of_nat n, GStr [c])) (enumerate 0 s)))
      | _ \<Rightarrow> Inr (GObj []))"
  by pat_completeness auto
termination
proof (relation "measure (\<lambda>(scalars, ins, flds, input). gdepth input)", goal_cases)
  case (2 scalars ins flds input vs v)
  then show ?case using gdepth_arr by simp
next
  case (3 scalars ins flds input ps k v ty)
  then show ?case using gdepth_obj [of k v ps] by simp
qed simp

declare marshal_fields.simps [simp del]

definition marshalInputs :: "scalar_table \<Rightarrow> input_object option \<Rightarrow> gval \<Rightarrow> js_error + gval" where
  "marshalInputs scalars ins input =
     (if nullish input then Inr input
      else (case ins of None \<Rightarrow> Inr input | Some io \<Rightarrow> marshal_fields scalars io (Some (io_fields io)) input))"

subsection \<open>Laws\<close>

lemma map_props_id: "(\<And>k v. (k, v) \<in> set ps \<Longrightarrow> f k v = Inr v) \<Longrightarrow> map_props f ps = Inr ps"
  unfolding map_props_def by (induction ps) auto

lemma map_props_keys: "map_props f ps = Inr qs \<Longrightarrow> okeys qs = okeys ps"
  by (induction ps arbitrary: qs) (auto simp: map_props_def sbind_simps)

lemma map_props_lookup:
  "map_props f ps = Inr qs \<Longrightarrow> map_of ps k = Some v \<Longrightarrow> \<exists>w. f k v = Inr w \<and> map_of qs k = Some w"
  by (induction ps arbitrary: qs) (auto simp: map_props_def sbind_simps split: if_splits)

lemma map_props_failure:
  "(k, v) \<in> set ps \<Longrightarrow> f k v = Inl e \<Longrightarrow> \<exists>e'. map_props f ps = Inl e'"
proof (induction ps)
  case (Cons p ps)
  obtain j u where p: "p = (j, u)" by fastforce
  show ?case
  proof (cases "f j u")
    case (Inl a)
    then show ?thesis by (simp add: map_props_def p)
  next
    case (Inr w)
    then have "(k, v) \<in> set ps" using Cons.prems p by auto
    with Cons.IH Cons.prems(2) obtain e' where "map_props f ps = Inl e'" by blast
    with Inr show ?thesis by (auto simp: map_props_def p)
  qed
qed simp

text \<open>The inputs that are sent have the names that were given.\<close>

text \<open>
  The marshalled inputs of an operation are an object with the names of the inputs, in their
  order.
\<close>

lemma marshalInputs_names:
  assumes "marshalInputs scalars ins (GObj ps) = Inr out"
  shows "\<exists>qs. out = GObj qs \<and> okeys qs = okeys ps"
proof (cases ins)
  case None
  with assms have "out = GObj ps" by (simp add: marshalInputs_def nullish_def)
  then show ?thesis by simp
next
  case (Some io)
  with assms show ?thesis
    by (auto simp: marshalInputs_def nullish_def marshal_fields.simps [of _ _ _ "GObj ps"] sbind_simps dest: map_props_keys)
qed

lemma marshalInputs_names_witness:
  "\<exists>out qs. marshalInputs [] (Some \<lparr>io_fields = [(''a'', ''Int'')], io_types = [], io_defaults = [], io_runtimeScalars = []\<rparr>) (GObj [(''a'', GNum 1)]) = Inr out
     \<and> out = GObj qs \<and> okeys qs = [''a'']"
proof -
  have "marshalInputs [] (Some \<lparr>io_fields = [(''a'', ''Int'')], io_types = [], io_defaults = [], io_runtimeScalars = []\<rparr>) (GObj [(''a'', GNum 1)])
      = Inr (GObj [(''a'', GNum 1)])"
    by (simp add: marshalInputs_def nullish_def marshal_fields.simps map_props_def isScalar_def)
  from marshalInputs_names [OF this] this show ?thesis by auto
qed

text \<open>
  The source means to leave a value alone when the selection does not know its field; reading the type of the
  missing entry throws first.
\<close>

text \<open>
  An optimistic response with a field that the selection of the mutation does not have cannot be
  marshalled: it throws, instead of being left alone.
\<close>

lemma unknown_field_throws:
  assumes "(k, v) \<in> set ps" and "k \<noteq> fragmentKey" and "map_of (fields_for_type sel (type_name (GObj ps)) False) k = None"
  shows "\<exists>e. marshalSelection scalars sel (GObj ps) = Inl e"
proof -
  let ?f = "\<lambda>fieldName v. if fieldName = fragmentKey then Inr v
     else (case map_of (fields_for_type sel (type_name (GObj ps)) False) fieldName of
        None \<Rightarrow> Inl (TypeError ''undefined is not an object'')
      | Some f \<Rightarrow> if f_type f = [] then Inr v
          else (case f_selection f of Some sub \<Rightarrow> marshalSelection scalars sub v
            | None \<Rightarrow> (case map_of scalars (f_type f) of None \<Rightarrow> Inr v
                | Some fns \<Rightarrow> (case sf_marshal fns of None \<Rightarrow> Inl (missing_marshal (f_type f)) | Some fn \<Rightarrow> each_value fn v))))"
  have "?f k v = Inl (TypeError ''undefined is not an object'')" using assms(2,3) by simp
  then obtain e where "map_props ?f ps = Inl e" using map_props_failure [OF assms(1), of ?f] by blast
  then show ?thesis by (subst marshalSelection.simps) simp
qed

lemma unknown_field_throws_witness:
  "\<exists>e. marshalSelection [] (Selection None None (Some []) None) (GObj [(''x'', GNum 1)]) = Inl e"
  by (rule unknown_field_throws [of "''x''" "GNum 1"]) (simp_all add: fragmentKey_def fields_for_type_def)

end
