(* ===== verification/Pipeline.thy ===== *)
theory Pipeline
  imports Scalars CacheApi
begin

section \<open>The document store: the pipeline of a request\<close>

text \<open>
  \<^verbatim>\<open>runtime/documentStore.ts\<close>. A store walks a request through the hooks of its plugins: forwards
  through \<open>start\<close>, \<open>beforeNetwork\<close> and \<open>network\<close>, backwards through \<open>afterNetwork\<close> and \<open>end\<close>, and down the
  \<open>catch\<close> hooks after an error. A hook decides by calling handlers, at once or later, once or many times.

  A hook is a program of handler calls (\<open>prog\<close>): what it does after a call is the rest of the program, an
  access to the world outside of the store is \<open>Effect\<close>, \<open>Await\<close> gives up the thread, \<open>Request\<close> waits for
  the network, \<open>Listen\<close> registers a function that others call later. A thrown error is \<open>Raise\<close>; an
  asynchronous hook raises after an \<open>Await\<close>.

  The store is a machine. A job is a stack of running hooks, the innermost first, since a handler call runs
  the next hook before it returns. \<open>exec1\<close> runs one instruction of a job; which job runs when is the
  environment's choice (\<open>machine_step\<close>), which includes the run-to-completion schedules of the event loop.

  \<open>same\<close> is reference equality of two values, which their contents do not decide: it is a parameter.
\<close>

subsection \<open>Documents and contexts\<close>

datatype match_mode = MatchVariables | MatchOperation | MatchNone

record dedupe =
  dd_cancelFirst :: bool     \<comment> \<open>\<open>cancel === 'first'\<close>\<close>
  dd_match :: match_mode

record document =
  dc_name :: string
  dc_raw :: string
  dc_hash :: string
  dc_kind :: artifact_kind
  dc_selection :: selection
  dc_rootType :: string
  dc_policy :: "cache_policy option"
  dc_partial :: bool
  dc_enableLoadingState :: bool
  dc_optimisticKeys :: bool
  dc_input :: "input_object option"
  dc_dedupe :: "dedupe option"
  dc_operations :: "(string \<times> string list) list"   \<comment> \<open>type and path of a \<open>refetch\<close>\<close>
  dc_stripVariables :: "string list"

record cache_params =
  cp_layer :: "nat option"
  cp_notify :: "subscription_spec list"
  cp_forceNotify :: bool
  cp_disableWrite :: bool
  cp_disableRead :: bool
  cp_disableSubscriptions :: bool
  cp_disablePartial :: bool
  cp_applyUpdates :: "string list option"
  cp_serverSideFallback :: "bool option option"   \<comment> \<open>the property is there, and its value\<close>

record inputs =
  in_init :: bool
  in_changed :: bool
  in_marshaled :: gobj

record stuff =
  sx_inputs :: inputs
  sx_optimisticResponse :: gval
  sx_parentID :: "string option"
  sx_silenceLoading :: bool

record plugin_ctx =
  px_document :: document
  px_scalars :: scalar_table
  px_runtimeScalars :: "(string, gval \<Rightarrow> gval) omap"
  px_policy :: "cache_policy option"
  px_variables :: gval
  px_metadata :: gval
  px_session :: gval
  px_fetchParams :: gval
  px_controller :: nat
  px_cacheParams :: "cache_params option"
  px_stuff :: stuff
  px_lastVariables :: gval     \<comment> \<open>\<open>#lastVariables\<close> of the wrapper, which hooks do not see\<close>

text \<open>
  \<open>applyVariables\<close>: \<open>ctx\<close> is \<open>source\<close> with the new values, the new variables among them; only the
  variables that changed are marshalled again.
\<close>

definition changed_variables :: "(gval \<Rightarrow> gval \<Rightarrow> bool) \<Rightarrow> gval \<Rightarrow> gval \<Rightarrow> gobj" where
  "changed_variables same before val =
     fold (\<lambda>(k, v). oset k v) (filter (\<lambda>(k, v). \<not> same v (gprop before k)) (obj_entries val)) []"

definition set_inputs :: "inputs \<Rightarrow> plugin_ctx \<Rightarrow> plugin_ctx" where
  "set_inputs ins ctx = ctx\<lparr>px_stuff := (px_stuff ctx)\<lparr>sx_inputs := ins\<rparr>\<rparr>"

definition applyVariables :: "(gval \<Rightarrow> gval \<Rightarrow> bool) \<Rightarrow> plugin_ctx \<Rightarrow> plugin_ctx \<Rightarrow> js_error + plugin_ctx" where
  "applyVariables same source ctx =
     (let changed = changed_variables same (px_variables source) (px_variables ctx);
          firstInit = (\<not> in_init (sx_inputs (px_stuff ctx)));
          own = sx_inputs (px_stuff ctx)
      in sbind
          (if changed \<noteq> [] \<or> firstInit then
             sbind (marshalInputs (px_scalars source) (dc_input (px_document source)) (GObj changed)) (\<lambda>m.
               Inr \<lparr>in_init = True, in_changed = True,
                    in_marshaled = spread (in_marshaled (sx_inputs (px_stuff source))) (obj_entries m)\<rparr>)
           else Inr own)
          (\<lambda>ins. Inr (set_inputs (ins\<lparr>in_changed := \<not> deepEquals (GObj (in_marshaled ins)) (px_lastVariables source)\<rparr>) ctx)))"

text \<open>The setter of \<open>variables\<close> on the draft that a hook gets.\<close>

definition set_variables :: "(gval \<Rightarrow> gval \<Rightarrow> bool) \<Rightarrow> gval \<Rightarrow> plugin_ctx \<Rightarrow> js_error + plugin_ctx" where
  "set_variables same val ctx = applyVariables same ctx (ctx\<lparr>px_variables := val\<rparr>)"

text \<open>\<open>apply\<close> of the context wrapper.\<close>

definition apply_context :: "(gval \<Rightarrow> gval \<Rightarrow> bool) \<Rightarrow> plugin_ctx \<Rightarrow> plugin_ctx \<Rightarrow> bool \<Rightarrow> js_error + plugin_ctx" where
  "apply_context same source ctx newVariables =
     (let own = ctx\<lparr>px_lastVariables := px_lastVariables source\<rparr>
      in if newVariables then applyVariables same source own else Inr own)"

definition marshalVariables :: "plugin_ctx \<Rightarrow> gobj" where
  "marshalVariables ctx = in_marshaled (sx_inputs (px_stuff ctx))"

definition variablesChanged :: "plugin_ctx \<Rightarrow> bool" where
  "variablesChanged ctx = in_changed (sx_inputs (px_stuff ctx))"

subsection \<open>Programs of hooks\<close>

record send_params =
  sp_send_variables :: gval
  sp_metadata :: gval
  sp_session :: gval
  sp_policy :: "cache_policy option"
  sp_stuff :: "stuff option"
  sp_cacheParams :: "cache_params option"
  sp_setup :: bool
  sp_initialState :: "query_result option"
  sp_silenceEcho :: bool
  sp_controller :: "nat option"

record net_request =
  nr_url :: string
  nr_name :: string
  nr_text :: string
  nr_hash :: string
  nr_variables :: gobj
  nr_session :: gval
  nr_metadata :: gval
  nr_headers :: gobj

record payload =
  pl_data :: gval
  pl_errors :: "gval list option"

datatype 'w prog =
    Return
  | Raise js_error
  | Next bool plugin_ctx "'w prog"                              \<comment> \<open>the flag: the variables are another object\<close>
  | Resolve bool plugin_ctx "query_result option" "'w prog"
  | SetState "query_result \<Rightarrow> query_result" "'w prog"
  | Effect "'w \<Rightarrow> js_error + 'w \<times> 'w prog"
  | Await "'w prog"
  | Request net_request "js_error + payload \<Rightarrow> 'w prog"
  | Listen "cache_message \<Rightarrow> 'w prog" "nat \<Rightarrow> 'w prog"
  | Resend send_params "'w prog"

record 'w hooks =
  hk_start :: "(plugin_ctx \<Rightarrow> query_result \<Rightarrow> 'w prog) option"
  hk_beforeNetwork :: "(plugin_ctx \<Rightarrow> query_result \<Rightarrow> 'w prog) option"
  hk_network :: "(plugin_ctx \<Rightarrow> query_result \<Rightarrow> 'w prog) option"
  hk_afterNetwork :: "(plugin_ctx \<Rightarrow> query_result \<Rightarrow> query_result \<Rightarrow> 'w prog) option"
  hk_end :: "(plugin_ctx \<Rightarrow> query_result \<Rightarrow> query_result \<Rightarrow> 'w prog) option"
  hk_catch :: "(plugin_ctx \<Rightarrow> query_result \<Rightarrow> js_error \<Rightarrow> 'w prog) option"
  hk_cleanup :: "(plugin_ctx option \<Rightarrow> 'w \<Rightarrow> 'w) option"

definition no_hooks :: "'w hooks" where
  "no_hooks = \<lparr>hk_start = None, hk_beforeNetwork = None, hk_network = None, hk_afterNetwork = None, hk_end = None,
     hk_catch = None, hk_cleanup = None\<rparr>"

subsection \<open>Finding the next hook\<close>

datatype travel = Ahead | Back query_result | Failing js_error

record iter =
  it_context :: plugin_ctx
  it_index :: int
  it_step :: nat
  it_setup :: bool
  it_initialState :: "query_result option"
  it_silence :: bool
  it_send :: nat                   \<comment> \<open>the promise\<close>

definition hook_of :: "travel \<Rightarrow> nat \<Rightarrow> 'w hooks \<Rightarrow> (plugin_ctx \<Rightarrow> query_result \<Rightarrow> 'w prog) option" where
  "hook_of tr n h =
     (case tr of
        Ahead \<Rightarrow> (if n = 0 then hk_start h else if n = 1 then hk_beforeNetwork h else if n = 2 then hk_network h else None)
      | Back v \<Rightarrow> map_option (\<lambda>f ctx init. f ctx init v)
          (if n = 0 then hk_end h else if n = 1 then hk_afterNetwork h else None)
      | Failing e \<Rightarrow> map_option (\<lambda>f ctx init. f ctx init e) (hk_catch h))"

text \<open>The indices a walk visits; one past the end, which the source visits too, holds no plugin.\<close>

definition walk_indices :: "travel \<Rightarrow> int \<Rightarrow> nat \<Rightarrow> nat list" where
  "walk_indices tr idx n =
     (case tr of
        Ahead \<Rightarrow> [nat idx ..< n]
      | _ \<Rightarrow> rev [0 ..< min (nat (idx + 1)) n])"

definition next_hook :: "'w hooks list \<Rightarrow> travel \<Rightarrow> nat \<Rightarrow> int \<Rightarrow> nat option" where
  "next_hook plugins tr n idx = find (\<lambda>i. hook_of tr n (plugins ! i) \<noteq> None) (walk_indices tr idx (length plugins))"

lemma find_Some_mem: "find P xs = Some x \<Longrightarrow> x \<in> set xs \<and> P x"
  by (auto simp: find_Some_iff)

lemma next_hook_Some:
  assumes "next_hook plugins tr n idx = Some i"
  shows "i < length plugins" and "tr \<noteq> Ahead \<Longrightarrow> int i \<le> idx" and "tr = Ahead \<Longrightarrow> idx \<le> int i"
    and "hook_of tr n (plugins ! i) \<noteq> None"
  using find_Some_mem [OF assms [unfolded next_hook_def]] by (auto simp: walk_indices_def split: travel.splits)

datatype 'w outcome =
    Invoke travel nat iter "'w prog"
  | Finished query_result iter
  | Rejected js_error iter
  | Stuck iter

definition abort_error :: js_error where
  "abort_error = Thrown ''aborted''"

definition chain_error :: js_error where
  "chain_error = Thrown ''Called next() on last possible plugin. Your chain is missing a plugin that calls resolve().''"

text \<open>
  \<open>#step\<close> up to the call of a hook. An aborted request throws instead of calling the hook, in the walk down
  the \<open>catch\<close> hooks too.
\<close>

function dispatch :: "'w hooks list \<Rightarrow> nat list \<Rightarrow> query_result \<Rightarrow> travel \<Rightarrow> iter \<Rightarrow> 'w outcome" where
  "dispatch plugins aborted state tr it =
     (case next_hook plugins tr (it_step it) (it_index it) of
        Some i \<Rightarrow>
          if px_controller (it_context it) \<in> set aborted
          then dispatch plugins aborted state (Failing abort_error) (it\<lparr>it_index := int i - 1\<rparr>)
          else Invoke tr i it ((the (hook_of tr (it_step it) (plugins ! i))) (it_context it) state)
      | None \<Rightarrow>
          (case tr of
             Ahead \<Rightarrow>
               if it_setup it then
                 dispatch plugins aborted state (Back (case it_initialState it of None \<Rightarrow> state | Some s \<Rightarrow> s))
                   (it\<lparr>it_step := 0, it_index := int (length plugins)\<rparr>)
               else if it_step it \<le> 1 then
                 dispatch plugins aborted state Ahead (it\<lparr>it_step := Suc (it_step it), it_index := 0\<rparr>)
               else Stuck it
           | Failing e \<Rightarrow> Rejected e it
           | Back v \<Rightarrow>
               if 0 < it_step it then
                 dispatch plugins aborted state (Back v) (it\<lparr>it_step := it_step it - 1, it_index := int (length plugins) - 1\<rparr>)
               else Finished v it))"
  by pat_completeness auto

definition travel_rank :: "travel \<Rightarrow> nat" where
  "travel_rank tr = (case tr of Ahead \<Rightarrow> 2 | Back v \<Rightarrow> 1 | Failing e \<Rightarrow> 0)"

termination dispatch
proof (relation "measures [\<lambda>(plugins, aborted, state, tr, it). travel_rank tr,
    \<lambda>(plugins, aborted, state, tr, it). case tr of Ahead \<Rightarrow> 3 - it_step it | Back v \<Rightarrow> it_step it | Failing e \<Rightarrow> nat (it_index it + 1)]")
  fix plugins :: "'a hooks list" and aborted state tr it i
  assume "next_hook plugins tr (it_step it) (it_index it) = Some i"
  then show "((plugins, aborted, state, Failing abort_error, it\<lparr>it_index := int i - 1\<rparr>), plugins, aborted, state, tr, it)
     \<in> measures [\<lambda>(plugins, aborted, state, tr, it). travel_rank tr,
       \<lambda>(plugins, aborted, state, tr, it). case tr of Ahead \<Rightarrow> 3 - it_step it | Back v \<Rightarrow> it_step it | Failing e \<Rightarrow> nat (it_index it + 1)]"
    using next_hook_Some [of plugins tr "it_step it" "it_index it" i] by (cases tr) (auto simp: travel_rank_def)
qed (auto simp: travel_rank_def)

declare dispatch.simps [simp del]

subsection \<open>The machine\<close>

record frame =
  fm_travel :: travel
  fm_index :: nat
  fm_iter :: iter

type_synonym 'w job = "(frame \<times> 'w prog) list"

record send_state =
  sd_key :: string
  sd_result :: "(js_error + query_result) option"
  sd_released :: bool

record 'w machine =
  ma_world :: 'w
  ma_state :: query_result
  ma_lastVariables :: gval
  ma_lastContext :: "plugin_ctx option"
  ma_sends :: "send_state list"
  ma_pendingPromise :: "nat option"
  ma_jobs :: "'w job list"
  ma_waiting :: "(net_request \<times> frame \<times> (js_error + payload \<Rightarrow> 'w prog)) list"
  ma_listeners :: "(frame \<times> (cache_message \<Rightarrow> 'w prog)) list"
  ma_inflight :: "(string, nat) omap"
  ma_aborted :: "nat list"
  ma_controllers :: nat

record 'w env =
  ev_document :: document
  ev_plugins :: "'w hooks list"
  ev_scalars :: scalar_table
  ev_runtimeScalars :: "(string, gval \<Rightarrow> gval) omap"
  ev_same :: "gval \<Rightarrow> gval \<Rightarrow> bool"

text \<open>The promise of a request settles once.\<close>

definition settle :: "nat \<Rightarrow> js_error + query_result \<Rightarrow> 'w machine \<Rightarrow> 'w machine" where
  "settle n r m =
     (if n < length (ma_sends m) \<and> sd_result (ma_sends m ! n) = None
      then m\<lparr>ma_sends := (ma_sends m)[n := (ma_sends m ! n)\<lparr>sd_result := Some r\<rparr>]\<rparr> else m)"

definition finish :: "'w env \<Rightarrow> query_result \<Rightarrow> iter \<Rightarrow> 'w machine \<Rightarrow> 'w machine" where
  "finish ev v it m =
     (let m1 = (if \<not> it_silence it \<or> \<not> ev_same ev (qr_data v) (qr_data (ma_state m)) then m\<lparr>ma_state := v\<rparr> else m);
          m2 = settle (it_send it) (Inr v) m1
      in m2\<lparr>ma_lastContext := Some (it_context it), ma_lastVariables := GObj (marshalVariables (it_context it))\<rparr>)"

text \<open>\<open>#step\<close>, called from a job. The last clauses: the error of a chain without end is thrown into the caller.\<close>

fun land :: "'w env \<Rightarrow> 'w outcome \<Rightarrow> 'w job \<Rightarrow> 'w machine \<Rightarrow> 'w job \<times> 'w machine" where
  "land ev (Invoke tr i it p) job m = ((\<lparr>fm_travel = tr, fm_index = i, fm_iter = it\<rparr>, p) # job, m)"
| "land ev (Finished v it) job m = (job, finish ev v it m)"
| "land ev (Rejected e it) job m = (job, settle (it_send it) (Inl e) m)"
| "land ev (Stuck it) [] m = ([], m)"
| "land ev (Stuck it) ((f, p) # job) m = ((f, Raise chain_error) # job, m)"

definition step_from :: "'w env \<Rightarrow> travel \<Rightarrow> iter \<Rightarrow> 'w job \<Rightarrow> 'w machine \<Rightarrow> 'w job \<times> 'w machine" where
  "step_from ev tr it job m = land ev (dispatch (ev_plugins ev) (ma_aborted m) (ma_state m) tr it) job m"

definition is_back :: "travel \<Rightarrow> bool" where
  "is_back tr = (case tr of Back v \<Rightarrow> True | _ \<Rightarrow> False)"

definition next_iter :: "frame \<Rightarrow> plugin_ctx \<Rightarrow> iter" where
  "next_iter f ctx = (fm_iter f)\<lparr>it_context := ctx,
     it_index := (if is_back (fm_travel f) then int (fm_index f) else int (fm_index f) + 1),
     it_step := (if fm_travel f = Ahead then it_step (fm_iter f) else 0)\<rparr>"

definition resolve_iter :: "frame \<Rightarrow> plugin_ctx \<Rightarrow> iter" where
  "resolve_iter f ctx = (fm_iter f)\<lparr>it_context := ctx,
     it_index := (if is_back (fm_travel f) then int (fm_index f) - 1 else int (fm_index f))\<rparr>"

text \<open>\<open>data ?? value\<close>; only exit hooks may leave the value out.\<close>

definition resolved_value :: "frame \<Rightarrow> query_result option \<Rightarrow> query_result option" where
  "resolved_value f v = (case v of Some w \<Rightarrow> Some w | None \<Rightarrow> (case fm_travel f of Back w \<Rightarrow> Some w | _ \<Rightarrow> None))"

definition frame_context :: "'w env \<Rightarrow> frame \<Rightarrow> plugin_ctx \<Rightarrow> bool \<Rightarrow> js_error + plugin_ctx" where
  "frame_context ev f ctx fresh = apply_context (ev_same ev) (it_context (fm_iter f)) ctx fresh"

subsection \<open>Sending\<close>

fun sortObject :: "gval \<Rightarrow> gval" where
  "sortObject (GArr vs) = GArr (map sortObject vs)"
| "sortObject (GObj ps) = GObj (sort_key fst (map (\<lambda>(k, v). (k, sortObject v)) ps))"
| "sortObject v = v"

definition stableStringify :: "gval \<Rightarrow> string" where
  "stableStringify v = (case json_stringify (sortObject v) of None \<Rightarrow> ''undefined'' | Some t \<Rightarrow> t)"

definition controllerKey :: "document \<Rightarrow> gval \<Rightarrow> string" where
  "controllerKey doc variables =
     dc_name doc @ ''@'' @ stableStringify
       (case dc_dedupe doc of None \<Rightarrow> variables | Some d \<Rightarrow> if dd_match d = MatchVariables then variables else GObj [])"

text \<open>The new request and the one in flight: one of them is cancelled. The result is the inflight table and the aborted controllers.\<close>

definition dedupe_request :: "document \<Rightarrow> gval \<Rightarrow> nat \<Rightarrow> (string, nat) omap \<times> nat list \<Rightarrow> (string, nat) omap \<times> nat list" where
  "dedupe_request doc variables controller acc =
     (case (dc_dedupe doc, acc) of
        (Some d, inflight, aborted) \<Rightarrow>
          if dd_match d = MatchNone then acc
          else
            (let key = controllerKey doc variables in
             (case map_of inflight key of
                Some existing \<Rightarrow>
                  if existing \<in> set aborted then (oset key controller inflight, aborted)
                  else if dd_cancelFirst d then (oset key controller inflight, sadd existing aborted)
                  else (inflight, sadd controller aborted)
              | None \<Rightarrow> (oset key controller inflight, aborted)))
      | (None, _) \<Rightarrow> acc)"

definition no_stuff :: stuff where
  "no_stuff = \<lparr>sx_inputs = \<lparr>in_init = False, in_changed = False, in_marshaled = []\<rparr>, sx_optimisticResponse = GUndef,
     sx_parentID = None, sx_silenceLoading = False\<rparr>"

definition first_context :: "'w env \<Rightarrow> send_params \<Rightarrow> nat \<Rightarrow> gval \<Rightarrow> plugin_ctx" where
  "first_context ev ps controller lastVars =
     \<lparr>px_document = ev_document ev, px_scalars = ev_scalars ev, px_runtimeScalars = ev_runtimeScalars ev,
      px_policy = (case sp_policy ps of None \<Rightarrow> dc_policy (ev_document ev) | Some p \<Rightarrow> Some p),
      px_variables = GNull, px_metadata = sp_metadata ps, px_session = sp_session ps, px_fetchParams = GUndef,
      px_controller = controller, px_cacheParams = sp_cacheParams ps,
      px_stuff = (case sp_stuff ps of None \<Rightarrow> no_stuff | Some s \<Rightarrow> s), px_lastVariables = lastVars\<rparr>"

text \<open>
  \<open>send\<close>: the rest of the running job stays as it is. Variables that cannot be marshalled make \<open>send\<close> throw
  before the \<open>try\<close> that releases the request, which so stays in flight; a chain without end rejects.
\<close>

definition send_request :: "'w env \<Rightarrow> send_params \<Rightarrow> 'w job \<Rightarrow> 'w machine \<Rightarrow> 'w job \<times> 'w machine" where
  "send_request ev ps job m =
     (let doc = ev_document ev;
          controller = (case sp_controller ps of None \<Rightarrow> ma_controllers m | Some c \<Rightarrow> c);
          (inflight, aborted) = dedupe_request doc (sp_send_variables ps) controller (ma_inflight m, ma_aborted m);
          n = length (ma_sends m);
          m1 = m\<lparr>ma_inflight := inflight, ma_aborted := aborted, ma_controllers := max (ma_controllers m) (Suc controller)\<rparr>;
          vars = (if nullish (sp_send_variables ps) then GNull else sp_send_variables ps)
      in case set_variables (ev_same ev) vars (first_context ev ps controller (ma_lastVariables m)) of
           Inl e \<Rightarrow> (job, m1\<lparr>ma_sends := ma_sends m @ [\<lparr>sd_key = controllerKey doc (sp_send_variables ps), sd_result = Some (Inl e), sd_released = True\<rparr>]\<rparr>)
         | Inr ctx \<Rightarrow>
             (let m2 = m1\<lparr>ma_sends := ma_sends m @ [\<lparr>sd_key = controllerKey doc (sp_send_variables ps), sd_result = None, sd_released = False\<rparr>],
                          ma_pendingPromise := (case ma_pendingPromise m of None \<Rightarrow> Some n | Some k \<Rightarrow> Some k)\<rparr>;
                  it = \<lparr>it_context = ctx, it_index = 0, it_step = 0, it_setup = sp_setup ps,
                        it_initialState = sp_initialState ps, it_silence = sp_silenceEcho ps, it_send = n\<rparr>
              in (case dispatch (ev_plugins ev) aborted (ma_state m) Ahead it of
                    Stuck it' \<Rightarrow> (job, settle n (Inl chain_error) m2)
                  | out \<Rightarrow> land ev out job m2)))"

text \<open>The \<open>finally\<close> of \<open>send\<close>, some time after its promise settled.\<close>

definition release :: "nat \<Rightarrow> 'w machine \<Rightarrow> 'w machine" where
  "release n m = m\<lparr>ma_inflight := odel (sd_key (ma_sends m ! n)) (ma_inflight m),
     ma_sends := (ma_sends m)[n := (ma_sends m ! n)\<lparr>sd_released := True\<rparr>]\<rparr>"

text \<open>The last subscriber has left the store.\<close>

definition cleanup :: "'w env \<Rightarrow> 'w machine \<Rightarrow> 'w machine" where
  "cleanup ev m = m\<lparr>ma_lastVariables := GNull,
     ma_world := fold (\<lambda>h w. case hk_cleanup h of None \<Rightarrow> w | Some f \<Rightarrow> f (ma_lastContext m) w) (ev_plugins ev) (ma_world m)\<rparr>"

subsection \<open>Running\<close>

fun exec1 :: "'w env \<Rightarrow> 'w job \<Rightarrow> 'w machine \<Rightarrow> 'w job \<times> 'w machine" where
  "exec1 ev [] m = ([], m)"
| "exec1 ev ((f, Return) # job) m = (job, m)"
| "exec1 ev ((f, Raise e) # job) m = step_from ev (Failing e) ((fm_iter f)\<lparr>it_index := int (fm_index f) - 1\<rparr>) job m"
| "exec1 ev ((f, Next fresh ctx k) # job) m =
     (case frame_context ev f ctx fresh of
        Inl e \<Rightarrow> ((f, Raise e) # job, m)
      | Inr c \<Rightarrow> step_from ev Ahead (next_iter f c) ((f, k) # job) m)"
| "exec1 ev ((f, Resolve fresh ctx v k) # job) m =
     (case (frame_context ev f ctx fresh, resolved_value f v) of
        (Inl e, _) \<Rightarrow> ((f, Raise e) # job, m)
      | (Inr c, None) \<Rightarrow> ((f, Raise (TypeError ''value is undefined'')) # job, m)
      | (Inr c, Some w) \<Rightarrow> step_from ev (Back w) (resolve_iter f c) ((f, k) # job) m)"
| "exec1 ev ((f, SetState g k) # job) m = ((f, k) # job, m\<lparr>ma_state := g (ma_state m)\<rparr>)"
| "exec1 ev ((f, Effect g) # job) m =
     (case g (ma_world m) of
        Inl e \<Rightarrow> ((f, Raise e) # job, m)
      | Inr (w, k) \<Rightarrow> ((f, k) # job, m\<lparr>ma_world := w\<rparr>))"
| "exec1 ev ((f, Await k) # job) m = (job, m\<lparr>ma_jobs := ma_jobs m @ [[(f, k)]]\<rparr>)"
| "exec1 ev ((f, Request r k) # job) m = (job, m\<lparr>ma_waiting := ma_waiting m @ [(r, f, k)]\<rparr>)"
| "exec1 ev ((f, Listen h k) # job) m = ((f, k (length (ma_listeners m))) # job, m\<lparr>ma_listeners := ma_listeners m @ [(f, h)]\<rparr>)"
| "exec1 ev ((f, Resend ps k) # job) m = send_request ev ps ((f, k) # job) m"

definition run_job :: "'w env \<Rightarrow> nat \<Rightarrow> 'w machine \<Rightarrow> 'w machine" where
  "run_job ev n m =
     (let job = ma_jobs m ! n; (job', m') = exec1 ev job m
      in m'\<lparr>ma_jobs := (ma_jobs m')[n := job']\<rparr>)"

definition start_send :: "'w env \<Rightarrow> send_params \<Rightarrow> 'w machine \<Rightarrow> 'w machine" where
  "start_send ev ps m = (let (job, m') = send_request ev ps [] m in m'\<lparr>ma_jobs := ma_jobs m' @ [job]\<rparr>)"

definition respond :: "nat \<Rightarrow> js_error + payload \<Rightarrow> 'w machine \<Rightarrow> 'w machine" where
  "respond n r m =
     (case ma_waiting m ! n of (req, f, k) \<Rightarrow>
        m\<lparr>ma_waiting := take n (ma_waiting m) @ drop (Suc n) (ma_waiting m), ma_jobs := ma_jobs m @ [[(f, k r)]]\<rparr>)"

definition deliver :: "nat \<Rightarrow> cache_message \<Rightarrow> 'w machine \<Rightarrow> 'w machine" where
  "deliver n msg m = (case ma_listeners m ! n of (f, h) \<Rightarrow> m\<lparr>ma_jobs := ma_jobs m @ [[(f, h msg)]]\<rparr>)"

inductive machine_step :: "'w env \<Rightarrow> 'w machine \<Rightarrow> 'w machine \<Rightarrow> bool" for ev :: "'w env" where
  run: "n < length (ma_jobs m) \<Longrightarrow> machine_step ev m (run_job ev n m)"
| send: "machine_step ev m (start_send ev ps m)"
| respond: "n < length (ma_waiting m) \<Longrightarrow> machine_step ev m (respond n r m)"
| deliver: "n < length (ma_listeners m) \<Longrightarrow> machine_step ev m (deliver n msg m)"
| abort: "machine_step ev m (m\<lparr>ma_aborted := sadd c (ma_aborted m)\<rparr>)"
| release: "n < length (ma_sends m) \<Longrightarrow> sd_result (ma_sends m ! n) \<noteq> None \<Longrightarrow> \<not> sd_released (ma_sends m ! n)
    \<Longrightarrow> machine_step ev m (release n m)"
| cleanup: "machine_step ev m (cleanup ev m)"
| other: "machine_step ev m (m\<lparr>ma_world := w\<rparr>)"

definition initial_result :: "document \<Rightarrow> gval \<Rightarrow> gobj option \<Rightarrow> bool option \<Rightarrow> query_result" where
  "initial_result doc v variables fetching =
     \<lparr>qr_data = v, qr_errors = None, qr_fetching = (case fetching of Some b \<Rightarrow> b | None \<Rightarrow> dc_kind doc = HoudiniQuery),
      qr_partial = False, qr_stale = False, qr_source = None, qr_variables = variables\<rparr>"

definition new_store :: "document \<Rightarrow> gval \<Rightarrow> gobj option \<Rightarrow> bool option \<Rightarrow> 'w \<Rightarrow> 'w machine" where
  "new_store doc v variables fetching w =
     \<lparr>ma_world = w, ma_state = initial_result doc v variables fetching, ma_lastVariables = GNull, ma_lastContext = None,
      ma_sends = [], ma_pendingPromise = None, ma_jobs = [], ma_waiting = [], ma_listeners = [], ma_inflight = [],
      ma_aborted = [], ma_controllers = 0\<rparr>"

end
