(* ===== verification/Plugins.thy ===== *)
theory Plugins
  imports Pipeline
begin

section \<open>The plugins of the client\<close>

text \<open>
  \<^verbatim>\<open>houdini-core/runtime/plugins\<close>: the hooks of the standard pipeline as programs over the world of one
  document store (the cache and what the plugins remember). \<open>createPluginHooks\<close> is in \<^verbatim>\<open>runtime/client.ts\<close>,
  \<open>observe\<close> in \<^verbatim>\<open>houdini-core/runtime/client.ts\<close>.

  The optimistic keys and the session relay come in as parameters of the client. The collection that a network
  request schedules with \<open>setTimeout\<close> is counted in \<open>cw_timers\<close> and run by \<open>run_timer\<close>.
\<close>

record query_plugin =
  qp_spec :: "subscription_spec option"
  qp_lastVariables :: "gobj option"
  qp_lastSession :: gval

record fragment_plugin =
  fp_spec :: "subscription_spec option"
  fp_lastReference :: gval

record client_world =
  cw_cache :: cache_state
  cw_query :: query_plugin
  cw_fragment :: fragment_plugin
  cw_serverSideFallback :: bool
  cw_timers :: nat

type_synonym client_prog = "client_world prog"

definition new_world :: "cache_state \<Rightarrow> client_world" where
  "new_world cs = \<lparr>cw_cache = cs, cw_query = \<lparr>qp_spec = None, qp_lastVariables = None, qp_lastSession = GNull\<rparr>,
     cw_fragment = \<lparr>fp_spec = None, fp_lastReference = GNull\<rparr>, cw_serverSideFallback = True, cw_timers = 0\<rparr>"

definition on_cache :: "(cache_state \<Rightarrow> cache_state) \<Rightarrow> client_world \<Rightarrow> client_world" where
  "on_cache g w = w\<lparr>cw_cache := g (cw_cache w)\<rparr>"

definition on_cache_err :: "(cache_state \<Rightarrow> js_error + cache_state) \<Rightarrow> client_world \<Rightarrow> js_error + client_world" where
  "on_cache_err g w = sbind (g (cw_cache w)) (\<lambda>cs. Inr (w\<lparr>cw_cache := cs\<rparr>))"

definition run_timer :: "client_world \<Rightarrow> client_world" where
  "run_timer w = (if cw_timers w = 0 then w else on_cache collectGarbage (w\<lparr>cw_timers := cw_timers w - 1\<rparr>))"

definition param :: "(cache_params \<Rightarrow> bool) \<Rightarrow> plugin_ctx \<Rightarrow> bool" where
  "param sel ctx = (case px_cacheParams ctx of None \<Rightarrow> False | Some cp \<Rightarrow> sel cp)"

definition layer_of :: "plugin_ctx \<Rightarrow> nat option" where
  "layer_of ctx = Option.bind (px_cacheParams ctx) cp_layer"

definition doc_kind :: "plugin_ctx \<Rightarrow> artifact_kind" where
  "doc_kind ctx = dc_kind (px_document ctx)"

definition result_of :: "plugin_ctx \<Rightarrow> data_source \<Rightarrow> gval \<Rightarrow> gval list option \<Rightarrow> bool \<Rightarrow> bool \<Rightarrow> query_result" where
  "result_of ctx src data errs partial stal =
     \<lparr>qr_data = data, qr_errors = errs, qr_fetching = False, qr_partial = partial, qr_stale = stal, qr_source = Some src,
      qr_variables = (if nullish (px_variables ctx) then None else Some (obj_entries (px_variables ctx)))\<rparr>"

subsection \<open>The cache policy\<close>

text \<open>The records at the end of a path; a list on the way fans out.\<close>

fun flat_entries :: "gval \<Rightarrow> gval list" where
  "flat_entries (GArr vs) = concat (map flat_entries vs)"
| "flat_entries v = [v]"

definition path_values :: "string \<Rightarrow> gval \<Rightarrow> gval list" where
  "path_values key entry =
     (if nullish entry then []
      else (case gprop entry key of GArr vs \<Rightarrow> flat_entries (GArr vs) | v \<Rightarrow> if nullish v then [] else [v]))"

definition recordsAtPath :: "gval \<Rightarrow> string list \<Rightarrow> gval list" where
  "recordsAtPath data path =
     filter is_object (fold (\<lambda>key current. concat (map (path_values key) current)) path (if truthy data then [data] else []))"

definition read_document :: "plugin_ctx \<Rightarrow> bool \<Rightarrow> bool \<Rightarrow> bool \<Rightarrow> cache_state \<Rightarrow> (gval \<times> bool \<times> bool) \<times> cache_state" where
  "read_document ctx fullCheck loading ignoreMasking cs =
     cache_read ((opts_of cs (marshalVariables ctx))\<lparr>ro_fullCheck := fullCheck, ro_loading := loading, ro_ignoreMasking := ignoreMasking\<rparr>)
       (dc_selection (px_document ctx)) rootID cs"

text \<open>The callback of the client: the loading state replaces the data only when it is there.\<close>

definition setFetching :: "bool \<Rightarrow> gval \<Rightarrow> query_result \<Rightarrow> query_result" where
  "setFetching b data st =
     (let st1 = st\<lparr>qr_fetching := b\<rparr> in if b \<and> truthy data then st1\<lparr>qr_data := data\<rparr> else st1)"

definition to_network :: "bool \<Rightarrow> plugin_ctx \<Rightarrow> bool \<Rightarrow> client_prog" where
  "to_network enabled ctx useCache =
     Effect (\<lambda>w.
       let w1 = (if enabled then w\<lparr>cw_timers := Suc (cw_timers w)\<rparr> else w)
       in if sx_silenceLoading (px_stuff ctx) then Inr (w1, Next False ctx Return)
          else if \<not> useCache \<and> dc_enableLoadingState (px_document ctx) then
            (let ((data, _), cs) = read_document ctx False True False (cw_cache w1)
             in Inr (w1\<lparr>cw_cache := cs\<rparr>, SetState (setFetching True data) (Next False ctx Return)))
          else Inr (w1, SetState (setFetching (\<not> useCache) GNull) (Next False ctx Return)))"

definition reads_cache :: "bool \<Rightarrow> plugin_ctx \<Rightarrow> bool" where
  "reads_cache enabled ctx \<longleftrightarrow>
     enabled \<and> (doc_kind ctx = HoudiniQuery \<or> doc_kind ctx = HoudiniFragment) \<and> \<not> param cp_disableRead ctx
     \<and> px_policy ctx \<noteq> Some NetworkOnly \<and> px_policy ctx \<noteq> Some NoCache"

definition partial_allowed :: "plugin_ctx \<Rightarrow> bool \<Rightarrow> bool" where
  "partial_allowed ctx partial \<longleftrightarrow>
     \<not> partial \<or> (doc_kind ctx = HoudiniQuery \<and> dc_partial (px_document ctx) \<and> \<not> param cp_disablePartial ctx)"

definition after_read :: "bool \<Rightarrow> plugin_ctx \<Rightarrow> query_result \<Rightarrow> gval \<Rightarrow> bool \<Rightarrow> bool \<Rightarrow> client_prog" where
  "after_read enabled ctx init data partial stal =
     (let allowed = partial_allowed ctx partial in
      if px_policy ctx = Some CacheOnly then
        Resolve False ctx (Some (result_of ctx FromCache (if allowed then data else qr_data init) None (allowed \<and> partial) stal)) Return
      else
        (let useCache = (data \<noteq> GNull \<and> allowed);
             rest = (if useCache \<and> \<not> partial \<and> \<not> stal \<and> px_policy ctx \<noteq> Some CacheAndNetwork then Return
                     else to_network enabled ctx useCache)
         in if useCache then Resolve False ctx (Some (result_of ctx FromCache data None partial stal)) rest else rest))"

definition cache_beforeNetwork :: "bool \<Rightarrow> plugin_ctx \<Rightarrow> query_result \<Rightarrow> client_prog" where
  "cache_beforeNetwork enabled ctx init =
     (if reads_cache enabled ctx then
        Effect (\<lambda>w. let ((data, partial, stal), cs) = read_document ctx True False False (cw_cache w)
                    in Inr (w\<lparr>cw_cache := cs\<rparr>, after_read enabled ctx init data partial stal))
      else to_network enabled ctx False)"

definition writes_cache :: "bool \<Rightarrow> plugin_ctx \<Rightarrow> query_result \<Rightarrow> bool" where
  "writes_cache enabled ctx v \<longleftrightarrow>
     px_policy ctx \<noteq> Some NoCache \<and> qr_source v \<noteq> Some FromCache \<and> enabled \<and> truthy (qr_data v) \<and> \<not> param cp_disableWrite ctx"

definition network_write :: "bool \<Rightarrow> plugin_ctx \<Rightarrow> gval \<Rightarrow> write_request" where
  "network_write serverSide ctx data =
     \<lparr>wr_selection = dc_selection (px_document ctx), wr_data = obj_entries data, wr_variables = marshalVariables ctx,
      wr_parent = rootID, wr_layer = (if serverSide then None else layer_of ctx),
      wr_applyUpdates = Option.bind (px_cacheParams ctx) cp_applyUpdates, wr_forceNotify = param cp_forceNotify ctx,
      wr_forceStale = False, wr_notify = (case px_cacheParams ctx of None \<Rightarrow> [] | Some cp \<Rightarrow> cp_notify cp)\<rparr>"

definition refresh_ids :: "plugin_ctx \<Rightarrow> gval \<Rightarrow> cache_state \<Rightarrow> string list" where
  "refresh_ids ctx data cs =
     fold (\<lambda>(ty, path) ids. fold (\<lambda>record ids.
         case cache_id (cs_config cs) (js_string (or_default (gprop record ''__typename'') (GStr ty))) record of
           None \<Rightarrow> ids | Some i \<Rightarrow> if i = [] then ids else sadd i ids) (recordsAtPath data path) ids)
       (dc_operations (px_document ctx)) []"

definition refresh_after :: "plugin_ctx \<Rightarrow> gval \<Rightarrow> cache_state \<Rightarrow> cache_state" where
  "refresh_after ctx data cs =
     (if doc_kind ctx = HoudiniMutation \<or> doc_kind ctx = HoudiniSubscription then
        (let ids = refresh_ids ctx data cs in if ids = [] then cs else refresh ids cs)
      else cs)"

text \<open>The write of a response, its refetches, and the data as it is read back.\<close>

definition write_response :: "bool \<Rightarrow> plugin_ctx \<Rightarrow> gval \<Rightarrow> cache_state \<Rightarrow> js_error + gval \<times> cache_state" where
  "write_response serverSide ctx data cs =
     sbind (cache_write (network_write serverSide ctx data) cs) (\<lambda>(specs, cs1).
       let cs2 = refresh_after ctx data cs1;
           ((v, _), cs3) = read_document ctx False False serverSide cs2
       in Inr (v, cs3))"

definition cache_afterNetwork :: "bool \<Rightarrow> bool \<Rightarrow> plugin_ctx \<Rightarrow> query_result \<Rightarrow> query_result \<Rightarrow> client_prog" where
  "cache_afterNetwork serverSide enabled ctx init v =
     (if writes_cache enabled ctx v then
        Effect (\<lambda>w.
          let fallback = (case Option.bind (px_cacheParams ctx) cp_serverSideFallback of
                            Some (Some b) \<Rightarrow> b | _ \<Rightarrow> cw_serverSideFallback w);
              w1 = w\<lparr>cw_serverSideFallback := fallback\<rparr>;
              other = (serverSide \<and> fallback)
          in sbind (write_response serverSide ctx (qr_data v) (if other then new_cache (cs_config (cw_cache w)) else cw_cache w))
               (\<lambda>(data, cs). Inr (if other then w1 else w1\<lparr>cw_cache := cs\<rparr>, Resolve False ctx (Some (v\<lparr>qr_data := data\<rparr>)) Return)))
      else Resolve False ctx (Some v) Return)"

definition cachePolicy :: "bool \<Rightarrow> bool \<Rightarrow> client_world hooks" where
  "cachePolicy serverSide enabled = no_hooks\<lparr>hk_beforeNetwork := Some (cache_beforeNetwork enabled),
     hk_afterNetwork := Some (cache_afterNetwork serverSide enabled)\<rparr>"

subsection \<open>Plugins of one kind of document\<close>

definition enter_wrapper :: "artifact_kind \<Rightarrow> (plugin_ctx \<Rightarrow> query_result \<Rightarrow> 'w prog) \<Rightarrow> plugin_ctx \<Rightarrow> query_result \<Rightarrow> 'w prog" where
  "enter_wrapper kd h ctx init = (if doc_kind ctx \<noteq> kd then Next False ctx Return else h ctx init)"

definition exit_wrapper :: "artifact_kind \<Rightarrow> (plugin_ctx \<Rightarrow> query_result \<Rightarrow> query_result \<Rightarrow> 'w prog)
    \<Rightarrow> plugin_ctx \<Rightarrow> query_result \<Rightarrow> query_result \<Rightarrow> 'w prog" where
  "exit_wrapper kd h ctx init v = (if doc_kind ctx \<noteq> kd then Resolve False ctx None Return else h ctx init v)"

definition documentPlugin :: "artifact_kind \<Rightarrow> 'w hooks \<Rightarrow> 'w hooks" where
  "documentPlugin kd source = source\<lparr>hk_start := map_option (enter_wrapper kd) (hk_start source),
     hk_network := map_option (enter_wrapper kd) (hk_network source),
     hk_beforeNetwork := map_option (enter_wrapper kd) (hk_beforeNetwork source),
     hk_afterNetwork := map_option (exit_wrapper kd) (hk_afterNetwork source),
     hk_end := map_option (exit_wrapper kd) (hk_end source)\<rparr>"

subsection \<open>Queries\<close>

definition runtime_values :: "plugin_ctx \<Rightarrow> gobj" where
  "runtime_values ctx =
     (case dc_input (px_document ctx) of
        None \<Rightarrow> []
      | Some ins \<Rightarrow> map (\<lambda>(fld, ty). (fld, case map_of (px_runtimeScalars ctx) ty of
            None \<Rightarrow> GStr ty | Some resolve \<Rightarrow> resolve (GObj [(''session'', px_session ctx)]))) (io_runtimeScalars ins))"

definition query_variables :: "plugin_ctx \<Rightarrow> gobj option \<Rightarrow> gobj" where
  "query_variables ctx lastVariables =
     spread (spread (spread [] (case lastVariables of None \<Rightarrow> [] | Some vs \<Rightarrow> vs)) (runtime_values ctx)) (obj_entries (px_variables ctx))"

definition query_start :: "(gval \<Rightarrow> gval \<Rightarrow> bool) \<Rightarrow> plugin_ctx \<Rightarrow> query_result \<Rightarrow> client_prog" where
  "query_start same ctx init =
     Effect (\<lambda>w. sbind (set_variables same (GObj (query_variables ctx (qp_lastVariables (cw_query w)))) ctx)
       (\<lambda>ctx1. Inr (w, Next False ctx1 Return)))"

definition update_result :: "plugin_ctx \<Rightarrow> gval \<Rightarrow> query_result" where
  "update_result ctx data = (result_of ctx FromCache data None False False)\<lparr>qr_variables := Some (obj_entries (px_variables ctx))\<rparr>"

definition refetch_params :: "plugin_ctx \<Rightarrow> gval \<Rightarrow> send_params" where
  "refetch_params ctx session =
     \<lparr>sp_send_variables = GUndef, sp_metadata = px_metadata ctx, sp_session = session, sp_policy = Some NetworkOnly,
      sp_stuff = None, sp_cacheParams = None, sp_setup = False, sp_initialState = None, sp_silenceEcho = False, sp_controller = None\<rparr>"

definition query_message :: "plugin_ctx \<Rightarrow> cache_message \<Rightarrow> client_prog" where
  "query_message ctx msg =
     (case msg of
        Refetch session \<Rightarrow>
          Effect (\<lambda>w. Inr (w, Resend (refetch_params ctx (case session of Some s \<Rightarrow> s | None \<Rightarrow> qp_lastSession (cw_query w))) Return))
      | Update data \<Rightarrow> Resolve False ctx (Some (update_result ctx data)) Return)"

definition leave_spec :: "subscription_spec option \<Rightarrow> cache_state \<Rightarrow> cache_state" where
  "leave_spec spec cs =
     (case spec of None \<Rightarrow> cs | Some sp \<Rightarrow> cache_unsubscribe sp (case sp_variables sp of None \<Rightarrow> [] | Some vs \<Rightarrow> vs) cs)"

definition document_spec :: "plugin_ctx \<Rightarrow> gobj \<Rightarrow> string option \<Rightarrow> nat \<Rightarrow> subscription_spec" where
  "document_spec ctx variables parent n =
     \<lparr>sp_rootType = dc_rootType (px_document ctx), sp_kind = Some (doc_kind ctx), sp_selection = dc_selection (px_document ctx),
      sp_onMessage = n, sp_parentID = parent, sp_variables = Some variables\<rparr>"

definition query_end :: "plugin_ctx \<Rightarrow> query_result \<Rightarrow> query_result \<Rightarrow> client_prog" where
  "query_end ctx init v =
     Effect (\<lambda>w.
       let w1 = w\<lparr>cw_query := (cw_query w)\<lparr>qp_lastSession := px_session ctx\<rparr>\<rparr>
       in if variablesChanged ctx \<and> \<not> param cp_disableSubscriptions ctx then
            (let variables = marshalVariables ctx;
                 w2 = on_cache (leave_spec (qp_spec (cw_query w1))) (w1\<lparr>cw_query := (cw_query w1)\<lparr>qp_lastVariables := Some variables\<rparr>\<rparr>)
             in Inr (w2, Listen (query_message ctx) (\<lambda>n. Effect (\<lambda>w.
                  let spec = document_spec ctx variables None n
                  in Inr (on_cache (cache_subscribe spec variables) (w\<lparr>cw_query := (cw_query w)\<lparr>qp_spec := Some spec\<rparr>\<rparr>),
                          Resolve False ctx None Return)))))
          else Inr (w1, Resolve False ctx None Return))"

definition query_cleanup :: "plugin_ctx option \<Rightarrow> client_world \<Rightarrow> client_world" where
  "query_cleanup ctx w =
     (case qp_spec (cw_query w) of
        None \<Rightarrow> w
      | Some sp \<Rightarrow> on_cache (leave_spec (Some sp)) (w\<lparr>cw_query := (cw_query w)\<lparr>qp_lastVariables := None\<rparr>\<rparr>))"

definition query :: "(gval \<Rightarrow> gval \<Rightarrow> bool) \<Rightarrow> client_world hooks" where
  "query same = documentPlugin HoudiniQuery
     (no_hooks\<lparr>hk_start := Some (query_start same), hk_end := Some query_end, hk_cleanup := Some query_cleanup\<rparr>)"

subsection \<open>Mutations\<close>

definition mutation_params :: "plugin_ctx \<Rightarrow> nat \<Rightarrow> subscription_spec list \<Rightarrow> cache_params" where
  "mutation_params ctx n toNotify =
     (case px_cacheParams ctx of
        None \<Rightarrow> \<lparr>cp_layer = None, cp_notify = [], cp_forceNotify = False, cp_disableWrite = False, cp_disableRead = False,
          cp_disableSubscriptions = False, cp_disablePartial = False, cp_applyUpdates = None, cp_serverSideFallback = None\<rparr>
      | Some cp \<Rightarrow> cp)\<lparr>cp_layer := Some n, cp_notify := toNotify, cp_forceNotify := True\<rparr>"

definition optimistic_write :: "plugin_ctx \<Rightarrow> nat \<Rightarrow> gval \<Rightarrow> write_request" where
  "optimistic_write ctx n data =
     \<lparr>wr_selection = dc_selection (px_document ctx), wr_data = obj_entries data, wr_variables = marshalVariables ctx,
      wr_parent = rootID, wr_layer = Some n, wr_applyUpdates = None, wr_forceNotify = False, wr_forceStale = False, wr_notify = []\<rparr>"

definition open_layer :: "client_world \<Rightarrow> nat \<times> client_world" where
  "open_layer w = (case createLayer True (cs_storage (cw_cache w)) of
     (l, st) \<Rightarrow> (lid l, on_cache (\<lambda>cs. cs\<lparr>cs_storage := st\<rparr>) w))"

definition mutation_next :: "plugin_ctx \<Rightarrow> nat \<Rightarrow> subscription_spec list \<Rightarrow> client_prog" where
  "mutation_next ctx n toNotify = Next False (ctx\<lparr>px_cacheParams := Some (mutation_params ctx n toNotify)\<rparr>) Return"

definition mutation_start :: "plugin_ctx \<Rightarrow> query_result \<Rightarrow> client_prog" where
  "mutation_start ctx init =
     Effect (\<lambda>w.
       let (n, w1) = open_layer w; response = sx_optimisticResponse (px_stuff ctx)
       in Inr (w1,
            if truthy response then
              Await (case marshalSelection (px_scalars ctx) (dc_selection (px_document ctx)) response of
                 Inl e \<Rightarrow> Raise e
               | Inr data \<Rightarrow> Effect (\<lambda>w. sbind (cache_write (optimistic_write ctx n data) (cw_cache w))
                   (\<lambda>(specs, cs). Inr (w\<lparr>cw_cache := cs\<rparr>, mutation_next ctx n specs))))
            else mutation_next ctx n []))"

definition clear_layer_of :: "plugin_ctx \<Rightarrow> client_world \<Rightarrow> js_error + client_world" where
  "clear_layer_of ctx w = (case layer_of ctx of None \<Rightarrow> Inr w | Some n \<Rightarrow> on_cache_err (clearLayer n) w)"

definition resolve_layer_of :: "plugin_ctx \<Rightarrow> client_world \<Rightarrow> js_error + client_world" where
  "resolve_layer_of ctx w = (case layer_of ctx of None \<Rightarrow> Inr w | Some n \<Rightarrow> on_cache_err (cache_resolveLayer n) w)"

definition mutation_afterNetwork :: "plugin_ctx \<Rightarrow> query_result \<Rightarrow> query_result \<Rightarrow> client_prog" where
  "mutation_afterNetwork ctx init v =
     Effect (\<lambda>w. sbind (clear_layer_of ctx w) (\<lambda>w1. Inr (w1, Resolve False ctx None Return)))"

definition mutation_end :: "plugin_ctx \<Rightarrow> query_result \<Rightarrow> query_result \<Rightarrow> client_prog" where
  "mutation_end ctx init v =
     (let hasErrors = (case qr_errors v of None \<Rightarrow> False | Some es \<Rightarrow> es \<noteq> [])
      in Effect (\<lambda>w. sbind (if hasErrors then clear_layer_of ctx w else Inr w) (\<lambda>w1.
           sbind (resolve_layer_of ctx w1) (\<lambda>w2. Inr (w2, Resolve False ctx None Return)))))"

definition mutation_catch :: "plugin_ctx \<Rightarrow> query_result \<Rightarrow> js_error \<Rightarrow> client_prog" where
  "mutation_catch ctx init e =
     Effect (\<lambda>w. sbind (clear_layer_of ctx w) (\<lambda>w1. sbind (resolve_layer_of ctx w1) (\<lambda>w2. Inr (w2, Raise e))))"

definition mutation :: "client_world hooks" where
  "mutation = documentPlugin HoudiniMutation
     (no_hooks\<lparr>hk_start := Some mutation_start, hk_afterNetwork := Some mutation_afterNetwork, hk_end := Some mutation_end,
       hk_catch := Some mutation_catch\<rparr>)"

subsection \<open>Fragments\<close>

definition fragment_message :: "plugin_ctx \<Rightarrow> gobj \<Rightarrow> cache_message \<Rightarrow> client_prog" where
  "fragment_message ctx variables msg =
     (case msg of
        Update data \<Rightarrow> Resolve False ctx (Some ((update_result ctx data)\<lparr>qr_variables := Some variables\<rparr>)) Return
      | Refetch session \<Rightarrow> Return)"

definition fragment_reference :: "string \<Rightarrow> gobj \<Rightarrow> gval" where
  "fragment_reference parent variables = GObj [(''parent'', GStr parent), (''variables'', GObj variables)]"

definition fragment_start :: "plugin_ctx \<Rightarrow> query_result \<Rightarrow> client_prog" where
  "fragment_start ctx init =
     (case sx_parentID (px_stuff ctx) of
        None \<Rightarrow> Next False ctx Return
      | Some parent \<Rightarrow>
          if parent = [] then Next False ctx Return
          else
            (let variables = marshalVariables ctx; current = fragment_reference parent variables
             in Effect (\<lambda>w.
                  if \<not> param cp_disableSubscriptions ctx
                     \<and> (\<not> deepEquals (fp_lastReference (cw_fragment w)) current \<or> variablesChanged ctx) then
                    Inr (on_cache (leave_spec (fp_spec (cw_fragment w))) w, Listen (fragment_message ctx variables) (\<lambda>n. Effect (\<lambda>w.
                      let spec = document_spec ctx variables (Some parent) n
                      in Inr (on_cache (cache_subscribe spec variables)
                                (w\<lparr>cw_fragment := \<lparr>fp_spec = Some spec, fp_lastReference = current\<rparr>\<rparr>),
                              Next False ctx Return))))
                  else Inr (w, Next False ctx Return))))"

definition fragment_cleanup :: "plugin_ctx option \<Rightarrow> client_world \<Rightarrow> client_world" where
  "fragment_cleanup ctx w = on_cache (leave_spec (fp_spec (cw_fragment w))) w"

definition fragment :: "client_world hooks" where
  "fragment = documentPlugin HoudiniFragment
     (no_hooks\<lparr>hk_start := Some fragment_start, hk_cleanup := Some fragment_cleanup\<rparr>)"

subsection \<open>Errors, parameters, the network\<close>

record throw_spec =
  th_all :: bool
  th_query :: bool
  th_mutation :: bool
  th_subscription :: bool
  th_error :: "(gval list \<Rightarrow> js_error) option"

definition throw_on_kind :: "throw_spec \<Rightarrow> artifact_kind \<Rightarrow> bool" where
  "throw_on_kind th kd \<longleftrightarrow> th_all th \<or>
     (case kd of HoudiniQuery \<Rightarrow> th_query th | HoudiniMutation \<Rightarrow> th_mutation th | HoudiniFragment \<Rightarrow> False
       | HoudiniSubscription \<Rightarrow> th_subscription th)"

definition defaultErrorFn :: "gval list \<Rightarrow> js_error" where
  "defaultErrorFn errs = Thrown (join ''. '' (map (\<lambda>e. js_string (gprop e ''message'')) errs) @ ''.'')"

definition throw_end :: "throw_spec \<Rightarrow> plugin_ctx \<Rightarrow> query_result \<Rightarrow> query_result \<Rightarrow> 'w prog" where
  "throw_end th ctx init v =
     (case qr_errors v of
        Some (e # es) \<Rightarrow>
          if throw_on_kind th (doc_kind ctx)
          then Await (Raise ((case th_error th of None \<Rightarrow> defaultErrorFn | Some f \<Rightarrow> f) (e # es)))
          else Resolve False ctx None Return
      | _ \<Rightarrow> Resolve False ctx None Return)"

definition throwOnError :: "throw_spec \<Rightarrow> 'w hooks" where
  "throwOnError th = no_hooks\<lparr>hk_end := Some (throw_end th)\<rparr>"

definition fetchParams :: "(plugin_ctx \<Rightarrow> gval) \<Rightarrow> 'w hooks" where
  "fetchParams fn = no_hooks\<lparr>hk_start := Some (\<lambda>ctx init. Next False (ctx\<lparr>px_fetchParams := fn ctx\<rparr>) Return)\<rparr>"

definition request_variables :: "plugin_ctx \<Rightarrow> gobj" where
  "request_variables ctx = fold odel (dc_stripVariables (px_document ctx)) (spread [] (marshalVariables ctx))"

definition base_headers :: gobj where
  "base_headers = [(''Accept'', GStr ''application/graphql+json, application/json''), (''Content-Type'', GStr ''application/json''),
     (''x-houdini-request'', GStr ''true'')]"

definition net_request_of :: "string \<Rightarrow> plugin_ctx \<Rightarrow> net_request" where
  "net_request_of url ctx =
     \<lparr>nr_url = url, nr_name = dc_name (px_document ctx), nr_text = dc_raw (px_document ctx), nr_hash = dc_hash (px_document ctx),
      nr_variables = request_variables ctx, nr_session = (if truthy (px_session ctx) then px_session ctx else GObj []),
      nr_metadata = px_metadata ctx, nr_headers = spread base_headers (obj_entries (gprop (px_fetchParams ctx) ''headers''))\<rparr>"

definition fetch_network :: "string \<Rightarrow> plugin_ctx \<Rightarrow> query_result \<Rightarrow> 'w prog" where
  "fetch_network url ctx init =
     (if doc_kind ctx = HoudiniFragment then Resolve False ctx (Some init) Return
      else if url = [] then
        Await (Raise (Thrown ''Could not find configured client url. Please specify one in your HoudiniClient constructor.''))
      else
        Request (net_request_of url ctx) (\<lambda>r. case r of
            Inl e \<Rightarrow> Raise e
          | Inr p \<Rightarrow> Resolve False ctx (Some ((result_of ctx FromNetwork (pl_data p)
                (case pl_errors p of Some (e # es) \<Rightarrow> Some (e # es) | _ \<Rightarrow> None) False False)
                  \<lparr>qr_variables := Some (obj_entries (px_variables ctx))\<rparr>)) Return))"

definition fetch :: "string \<Rightarrow> 'w hooks" where
  "fetch url = no_hooks\<lparr>hk_network := Some (fetch_network url)\<rparr>"

subsection \<open>The pipeline of the client\<close>

text \<open>What a plugin function returns; \<open>createPluginHooks\<close> returns from its loop at the first nested plugin.\<close>

datatype 'w plugin = Plugin "'w plugin_result"
and 'w plugin_result = NoHooks | OneHook "'w hooks" | ManyHooks "'w plugin_item list"
and 'w plugin_item = NullItem | HookItem "'w hooks" | PluginItem "'w plugin"

fun hooks_of_plugin :: "'w plugin \<Rightarrow> 'w hooks list"
  and hooks_of_result :: "'w plugin_result \<Rightarrow> 'w hooks list"
  and hooks_of_items :: "'w plugin_item list \<Rightarrow> 'w hooks list" where
  "hooks_of_plugin (Plugin r) = hooks_of_result r"
| "hooks_of_result NoHooks = []"
| "hooks_of_result (OneHook h) = [h]"
| "hooks_of_result (ManyHooks items) = hooks_of_items items"
| "hooks_of_items [] = []"
| "hooks_of_items (NullItem # items) = hooks_of_items items"
| "hooks_of_items (HookItem h # items) = h # hooks_of_items items"
| "hooks_of_items (PluginItem p # items) = hooks_of_plugin p"

definition createPluginHooks :: "'w plugin list \<Rightarrow> 'w hooks list" where
  "createPluginHooks plugins = concat (map hooks_of_plugin plugins)"

record client_args =
  ca_throwOnError :: "throw_spec option"
  ca_fetchParams :: "plugin_ctx \<Rightarrow> gval"
  ca_optimisticKeys :: "client_world hooks"
  ca_sessionRelay :: "client_world hooks"
  ca_plugins :: "client_world plugin list"
  ca_injected :: "client_world plugin list"
  ca_url :: string
  ca_serverSide :: bool

definition client_plugins :: "(gval \<Rightarrow> gval \<Rightarrow> bool) \<Rightarrow> client_args \<Rightarrow> client_world plugin list" where
  "client_plugins same args =
     (case ca_throwOnError args of None \<Rightarrow> [] | Some th \<Rightarrow> [Plugin (OneHook (throwOnError th))])
     @ [Plugin (OneHook (fetchParams (ca_fetchParams args)))]
     @ map (\<lambda>h. Plugin (OneHook h)) [ca_optimisticKeys args, ca_sessionRelay args, query same, mutation, fragment]
     @ ca_plugins args @ ca_injected args @ [Plugin (OneHook (fetch (ca_url args)))]"

definition observe :: "(gval \<Rightarrow> gval \<Rightarrow> bool) \<Rightarrow> client_args \<Rightarrow> bool \<Rightarrow> client_world hooks list" where
  "observe same args enableCache =
     createPluginHooks ((if enableCache then [Plugin (OneHook (cachePolicy (ca_serverSide args) True))] else []) @ client_plugins same args)"

end
