(* ===== verification/PipelineLaws.thy ===== *)
theory PipelineLaws
  imports Pipeline
begin

section \<open>Laws of the pipeline\<close>

text \<open>
  For all plugins and all schedules: a promise settles once; an aborted request runs no hook any more; of two
  equal requests that are deduplicated one is cancelled; a pipeline whose exit hooks only go back ends every
  job that it starts.
\<close>

subsection \<open>A promise settles once\<close>

definition keeps_results :: "'w machine \<Rightarrow> 'w machine \<Rightarrow> bool" where
  "keeps_results m m' \<longleftrightarrow> length (ma_sends m) \<le> length (ma_sends m')
     \<and> (\<forall>n < length (ma_sends m). sd_result (ma_sends m ! n) \<noteq> None \<longrightarrow> sd_result (ma_sends m' ! n) = sd_result (ma_sends m ! n))"

lemma keeps_results_same [simp]: "ma_sends m' = ma_sends m \<Longrightarrow> keeps_results m m'"
  by (simp add: keeps_results_def)

lemma keeps_results_trans: "keeps_results a b \<Longrightarrow> keeps_results b c \<Longrightarrow> keeps_results a c"
  by (auto simp: keeps_results_def)

lemma keeps_results_settle: "keeps_results m (settle n r m)"
  by (auto simp: keeps_results_def settle_def nth_list_update)

lemma keeps_results_append: "ma_sends m' = ma_sends m @ xs \<Longrightarrow> keeps_results m m'"
  by (auto simp: keeps_results_def nth_append)

lemma keeps_results_finish: "keeps_results m (finish ev v it m)"
proof -
  let ?m1 = "if \<not> it_silence it \<or> \<not> ev_same ev (qr_data v) (qr_data (ma_state m)) then m\<lparr>ma_state := v\<rparr> else m"
  have "keeps_results m ?m1" by (rule keeps_results_same) simp
  moreover have "keeps_results ?m1 (settle (it_send it) (Inr v) ?m1)" by (rule keeps_results_settle)
  moreover have "keeps_results (settle (it_send it) (Inr v) ?m1) (finish ev v it m)"
    by (rule keeps_results_same) (simp add: finish_def Let_def)
  ultimately show ?thesis by (blast intro: keeps_results_trans)
qed

lemma keeps_results_land: "keeps_results m (snd (land ev out job m))"
  by (induction ev out job m rule: land.induct) (auto intro: keeps_results_settle keeps_results_finish)

lemma keeps_results_send: "keeps_results m (snd (send_request ev ps job m))"
proof -
  let ?c = "case sp_controller ps of None \<Rightarrow> ma_controllers m | Some c \<Rightarrow> c"
  let ?d = "dedupe_request (ev_document ev) (sp_send_variables ps) ?c (ma_inflight m, ma_aborted m)"
  obtain fl ab where d: "?d = (fl, ab)" by fastforce
  let ?vars = "if nullish (sp_send_variables ps) then GNull else sp_send_variables ps"
  show ?thesis
  proof (cases "set_variables (ev_same ev) ?vars (first_context ev ps ?c (ma_lastVariables m))")
    case (Inl e)
    then show ?thesis by (intro keeps_results_append) (simp add: send_request_def d)
  next
    case (Inr ctx)
    have keep: "keeps_results m b" if "keeps_results a b" "ma_sends a = ma_sends m @ xs" for a b xs
      using keeps_results_append [OF that(2)] that(1) by (rule keeps_results_trans)
    show ?thesis
      unfolding send_request_def Let_def d
      by (simp add: Inr split: outcome.split, safe)
         ((rule keep [OF keeps_results_settle] keep [OF keeps_results_land] keep [OF keeps_results_finish] keeps_results_append, simp)+)
  qed
qed

lemma keeps_results_step: "keeps_results m (snd (step_from ev tr it job m))"
  by (simp add: step_from_def keeps_results_land)

lemma keeps_results_exec1: "keeps_results m (snd (exec1 ev job m))"
proof (cases job)
  case (Cons e rest)
  obtain f p where "e = (f, p)" by fastforce
  with Cons have job: "job = (f, p) # rest" by simp
  show ?thesis
  proof (cases p)
    case (Next fresh ctx k)
    then show ?thesis by (simp add: job keeps_results_step split: sum.split)
  next
    case (Resolve fresh ctx v k)
    then show ?thesis by (simp add: job keeps_results_step split: sum.split option.split)
  next
    case (Effect g)
    then show ?thesis by (simp add: job split: sum.split prod.split)
  qed (simp_all add: job keeps_results_step keeps_results_send)
qed simp

lemma keeps_results_update: "keeps_results m m' \<Longrightarrow> ma_sends m'' = ma_sends m' \<Longrightarrow> keeps_results m m''"
  by (simp add: keeps_results_def)

lemma machine_step_results: "machine_step ev m m' \<Longrightarrow> keeps_results m m'"
proof (induction rule: machine_step.induct)
  case (run n m)
  obtain job m' where e: "exec1 ev (ma_jobs m ! n) m = (job, m')" by fastforce
  then have "keeps_results m m'" using keeps_results_exec1 [of m ev "ma_jobs m ! n"] by simp
  then show ?case by (rule keeps_results_update) (simp add: run_job_def e)
next
  case (send m ps)
  obtain job m' where e: "send_request ev ps [] m = (job, m')" by fastforce
  then have "keeps_results m m'" using keeps_results_send [of m ev ps "[]"] by simp
  then show ?case by (rule keeps_results_update) (simp add: start_send_def e)
next
  case (release n m)
  then show ?case by (auto simp: keeps_results_def release_def nth_list_update)
qed (auto simp: respond_def deliver_def cleanup_def split: prod.splits)

definition machine_steps :: "'w env \<Rightarrow> 'w machine \<Rightarrow> 'w machine \<Rightarrow> bool" where
  "machine_steps ev = (machine_step ev)\<^sup>*\<^sup>*"

text \<open>
  C10. For all plugins and all schedules of jobs, responses, messages, aborts and clean-ups: once the
  promise of a request has settled its result never changes.
\<close>

lemma settled_once:
  assumes "machine_steps ev m m'" and "n < length (ma_sends m)" and "sd_result (ma_sends m ! n) = Some r"
  shows "sd_result (ma_sends m' ! n) = Some r"
proof -
  from assms(1) have "keeps_results m m'"
    unfolding machine_steps_def
  proof (induction rule: rtranclp_induct)
    case (step a b)
    then show ?case using machine_step_results keeps_results_trans by blast
  qed simp
  with assms(2,3) show ?thesis by (auto simp: keeps_results_def)
qed

subsection \<open>An aborted request runs no hook\<close>

lemma dispatch_aborted:
  "px_controller (it_context it) \<in> set aborted \<Longrightarrow> dispatch plugins aborted state tr it \<noteq> Invoke tr' i it' p"
proof (induction plugins aborted state tr it rule: dispatch.induct)
  case (1 plugins aborted state tr it)
  then show ?case
    by (subst dispatch.simps) (auto split: option.splits travel.splits)
qed

lemma aborted_rejects:
  assumes "px_controller (it_context it) \<in> set aborted" and "next_hook plugins tr (it_step it) (it_index it) \<noteq> None"
  shows "\<exists>it'. dispatch plugins aborted state tr it = Rejected abort_error it' \<and> it_send it' = it_send it"
proof -
  have fail: "\<exists>it'. dispatch plugins aborted state (Failing abort_error) it = Rejected abort_error it' \<and> it_send it' = it_send it"
    if "px_controller (it_context it) \<in> set aborted" for it
    using that
  proof (induction "nat (it_index it + 1)" arbitrary: it rule: less_induct)
    case less
    show ?case
    proof (cases "next_hook plugins (Failing abort_error) (it_step it) (it_index it)")
      case None
      then show ?thesis by (subst dispatch.simps) simp
    next
      case (Some i)
      let ?it = "it\<lparr>it_index := int i - 1\<rparr>"
      have "int i \<le> it_index it" using next_hook_Some(2) [OF Some] by simp
      then have "nat (it_index ?it + 1) < nat (it_index it + 1)" by simp
      from less.hyps [OF this] less.prems
      obtain it' where "dispatch plugins aborted state (Failing abort_error) ?it = Rejected abort_error it'" "it_send it' = it_send ?it"
        by auto
      with Some less.prems show ?thesis by (subst dispatch.simps) simp
    qed
  qed
  from assms(2) obtain i where i: "next_hook plugins tr (it_step it) (it_index it) = Some i" by blast
  have "\<exists>it'. dispatch plugins aborted state (Failing abort_error) (it\<lparr>it_index := int i - 1\<rparr>) = Rejected abort_error it'
      \<and> it_send it' = it_send it"
    using fail [of "it\<lparr>it_index := int i - 1\<rparr>"] assms(1) by simp
  with i assms(1) show ?thesis by (subst dispatch.simps) simp
qed

text \<open>An aborted request runs no \<open>catch\<close> hook: a mutation's layer is not cleared.\<close>

lemma failing_aborted:
  "px_controller (it_context it) \<in> set aborted \<Longrightarrow> \<exists>e' it'. dispatch plugins aborted state (Failing e) it = Rejected e' it'
     \<and> (e' = e \<or> e' = abort_error) \<and> it_send it' = it_send it"
proof -
  assume a: "px_controller (it_context it) \<in> set aborted"
  show ?thesis
  proof (cases "next_hook plugins (Failing e) (it_step it) (it_index it)")
    case None
    then show ?thesis by (subst dispatch.simps) simp
  next
    case (Some i)
    then show ?thesis using aborted_rejects [OF a, of plugins "Failing e" state] by auto
  qed
qed

text \<open>
  C30. When a hook of an aborted request throws, no catch hook runs: the promise is rejected and
  nothing else changes, so the optimistic layer of a mutation stays.
\<close>

lemma abort_skips_catch:
  assumes "px_controller (it_context (fm_iter f)) \<in> set (ma_aborted m)"
  shows "\<exists>e'. exec1 ev ((f, Raise e) # job) m = (job, settle (it_send (fm_iter f)) (Inl e') m) \<and> (e' = e \<or> e' = abort_error)"
proof -
  let ?it = "(fm_iter f)\<lparr>it_index := int (fm_index f) - 1\<rparr>"
  have "px_controller (it_context ?it) \<in> set (ma_aborted m)" using assms by simp
  from failing_aborted [OF this] obtain e' it' where
    "dispatch (ev_plugins ev) (ma_aborted m) (ma_state m) (Failing e) ?it = Rejected e' it'" "e' = e \<or> e' = abort_error" "it_send it' = it_send ?it"
    by blast
  then show ?thesis by (auto simp: step_from_def)
qed

subsection \<open>Deduplication\<close>

text \<open>
  C29. When a request is deduplicated against a live one, exactly one of the two is aborted, the one
  that the document says, and the entry in flight is the controller of the other.
\<close>

lemma dedupe_one_survives:
  assumes "dc_dedupe doc = Some d" and "dd_match d \<noteq> MatchNone"
    and "map_of inflight (controllerKey doc vars) = Some existing"
    and "existing \<notin> set aborted" and "controller \<notin> set aborted" and "existing \<noteq> controller"
    and "dedupe_request doc vars controller (inflight, aborted) = (inflight', aborted')"
  shows "\<exists>live. map_of inflight' (controllerKey doc vars) = Some live \<and> live \<notin> set aborted'
    \<and> set aborted' = insert (if dd_cancelFirst d then existing else controller) (set aborted)
    \<and> live = (if dd_cancelFirst d then controller else existing)"
  using assms by (auto simp: dedupe_request_def Let_def map_of_oset split: if_splits)

text \<open>
  The request that was cancelled releases the entry when it is rejected, although the entry is the one of the
  request that goes on: the next equal request is not deduplicated.
\<close>

lemma release_forgets_live:
  assumes "sd_key (ma_sends m ! n) = controllerKey doc vars"
  shows "map_of (ma_inflight (release n m)) (controllerKey doc vars) = None"
  using assms by (simp add: release_def map_of_odel)

subsection \<open>Every job ends\<close>

text \<open>\<open>only_back\<close>: the program calls no \<open>next\<close>; \<open>quiet\<close>: nor \<open>resolve\<close>. Nobody sends again.\<close>

inductive calls :: "bool \<Rightarrow> bool \<Rightarrow> 'w prog \<Rightarrow> bool" for nx rs where
  "calls nx rs Return"
| "calls nx rs (Raise e)"
| "nx \<Longrightarrow> calls nx rs k \<Longrightarrow> calls nx rs (Next b c k)"
| "rs \<Longrightarrow> calls nx rs k \<Longrightarrow> calls nx rs (Resolve b c v k)"
| "calls nx rs k \<Longrightarrow> calls nx rs (SetState g k)"
| "(\<And>w w' k. g w = Inr (w', k) \<Longrightarrow> calls nx rs k) \<Longrightarrow> calls nx rs (Effect g)"
| "calls nx rs k \<Longrightarrow> calls nx rs (Await k)"
| "(\<And>r. calls nx rs (k r)) \<Longrightarrow> calls nx rs (Request q k)"
| "(\<And>n. calls nx rs (k n)) \<Longrightarrow> calls nx rs (Listen h k)"

inductive_cases calls_NextE: "calls nx rs (Next b c k)"
inductive_cases calls_ResolveE: "calls nx rs (Resolve b c v k)"
inductive_cases calls_SetStateE: "calls nx rs (SetState g k)"
inductive_cases calls_EffectE: "calls nx rs (Effect g)"
inductive_cases calls_ListenE: "calls nx rs (Listen h k)"
inductive_cases calls_ResendE: "calls nx rs (Resend ps k)"

definition may_next :: "travel \<Rightarrow> bool" where "may_next tr \<longleftrightarrow> tr = Ahead"
definition may_resolve :: "travel \<Rightarrow> bool" where "may_resolve tr \<longleftrightarrow> (\<forall>e. tr \<noteq> Failing e)"

definition one_way_hooks :: "'w hooks list \<Rightarrow> bool" where
  "one_way_hooks plugins \<longleftrightarrow>
     (\<forall>i < length plugins. \<forall>tr n h ctx init. hook_of tr n (plugins ! i) = Some h \<longrightarrow> calls (may_next tr) (may_resolve tr) (h ctx init))"

text \<open>A job halts if it is empty, or its next instruction leaves a job that halts, whatever else happens meanwhile.\<close>

inductive halts :: "'w env \<Rightarrow> 'w job \<Rightarrow> bool" for ev where
  halts_Nil: "halts ev []"
| halts_step: "(\<And>m. halts ev (fst (exec1 ev job m))) \<Longrightarrow> halts ev job"

definition frame_rank :: "nat \<Rightarrow> frame \<Rightarrow> nat \<times> nat \<times> nat" where
  "frame_rank n f =
     (travel_rank (fm_travel f),
      (case fm_travel f of Ahead \<Rightarrow> 3 - it_step (fm_iter f) | Back v \<Rightarrow> it_step (fm_iter f) | Failing e \<Rightarrow> 0),
      (case fm_travel f of Ahead \<Rightarrow> n - fm_index f | _ \<Rightarrow> fm_index f))"

definition rank_less :: "((nat \<times> nat \<times> nat) \<times> (nat \<times> nat \<times> nat)) set" where
  "rank_less = less_than <*lex*> less_than <*lex*> less_than"

lemma wf_rank_less: "wf rank_less"
  by (simp add: rank_less_def wf_lex_prod)

text \<open>What a dispatch may run: a hook that is ahead of where the walk starts.\<close>

definition below :: "nat \<Rightarrow> travel \<Rightarrow> iter \<Rightarrow> frame \<Rightarrow> bool" where
  "below n tr it f \<longleftrightarrow>
     (frame_rank n f, (travel_rank tr, (case tr of Ahead \<Rightarrow> 3 - it_step it | Back v \<Rightarrow> it_step it | Failing e \<Rightarrow> 0),
        (case tr of Ahead \<Rightarrow> Suc n - nat (it_index it) | _ \<Rightarrow> nat (it_index it + 1)))) \<in> rank_less"

lemma rank_up: "(a, b1, b2, b3) \<in> rank_less \<Longrightarrow> b1 < c1 \<or> b1 = c1 \<and> b2 < c2 \<Longrightarrow> (a, c1, c2, c3) \<in> rank_less"
  by (cases a) (auto simp: rank_less_def)

lemma dispatch_invokes:
  assumes "dispatch plugins aborted state tr it = Invoke tr' i it' p"
  shows "i < length plugins \<and> (\<exists>h. hook_of tr' (it_step it') (plugins ! i) = Some h \<and> p = h (it_context it') state)
    \<and> below (length plugins) tr it \<lparr>fm_travel = tr', fm_index = i, fm_iter = it'\<rparr>"
  using assms
proof (induction plugins aborted state tr it rule: dispatch.induct)
  case (1 plugins aborted state tr it)
  show ?case
  proof (cases "next_hook plugins tr (it_step it) (it_index it)")
    case (Some j)
    note j = next_hook_Some [OF Some]
    show ?thesis
    proof (cases "px_controller (it_context it) \<in> set aborted")
      case True
      with dispatch_aborted [OF True] "1.prems" show ?thesis by blast
    next
      case False
      with "1.prems" Some have "tr' = tr \<and> i = j \<and> it' = it \<and> p = the (hook_of tr (it_step it) (plugins ! j)) (it_context it) state"
        by (auto simp: dispatch.simps [of plugins aborted state tr it])
      then show ?thesis
        using j by (cases tr) (auto simp: below_def frame_rank_def rank_less_def)
    qed
  next
    case None
    note d = dispatch.simps [of plugins aborted state tr it]
    let ?n = "length plugins" and ?g = "\<lparr>fm_travel = tr', fm_index = i, fm_iter = it'\<rparr>"
    have up: "below ?n tr it g" if "below ?n tr2 it2 g"
      and "travel_rank tr2 < travel_rank tr \<or> tr2 = tr \<and> (case tr of Ahead \<Rightarrow> it_step it < it_step it2 \<and> it_step it < 3 | Back v \<Rightarrow> it_step it2 < it_step it | _ \<Rightarrow> False)"
      for tr2 it2 g
      using that(1) unfolding below_def
      by (rule rank_up) (use that(2) in \<open>cases tr; auto\<close>)
    show ?thesis
    proof (cases tr)
      case Ahead
      show ?thesis
      proof (cases "it_setup it")
        case True
        let ?tr2 = "Back (case it_initialState it of None \<Rightarrow> state | Some s \<Rightarrow> s)"
        let ?it2 = "it\<lparr>it_step := 0, it_index := int ?n\<rparr>"
        have "dispatch plugins aborted state ?tr2 ?it2 = Invoke tr' i it' p"
          using "1.prems" None True unfolding Ahead by (simp add: d [unfolded Ahead])
        from "1.IH"(1) [OF None Ahead True this] up [of ?tr2 ?it2 ?g] show ?thesis by (simp add: Ahead travel_rank_def)
      next
        case False
        let ?it2 = "it\<lparr>it_step := Suc (it_step it), it_index := 0\<rparr>"
        have le: "it_step it \<le> 1" using "1.prems" None False unfolding Ahead by (simp add: d [unfolded Ahead] split: if_splits)
        then have "dispatch plugins aborted state Ahead ?it2 = Invoke tr' i it' p"
          using "1.prems" None False unfolding Ahead by (simp add: d [unfolded Ahead])
        from "1.IH"(2) [OF None Ahead False le this] up [of Ahead ?it2 ?g] le show ?thesis by (simp add: Ahead)
      qed
    next
      case (Back v)
      let ?it2 = "it\<lparr>it_step := it_step it - 1, it_index := int ?n - 1\<rparr>"
      have pos: "0 < it_step it" using "1.prems" None unfolding Back by (simp add: d [unfolded Back] split: if_splits)
      then have "dispatch plugins aborted state (Back v) ?it2 = Invoke tr' i it' p"
        using "1.prems" None unfolding Back by (simp add: d [unfolded Back])
      from "1.IH"(3) [OF None Back pos this] up [of "Back v" ?it2 ?g] pos show ?thesis by (simp add: Back)
    next
      case (Failing e)
      with None "1.prems" show ?thesis unfolding Failing by (simp add: d [unfolded Failing])
    qed
  qed
qed

lemma travel_cases_rank: "travel_rank (fm_travel f) = 2 \<longleftrightarrow> fm_travel f = Ahead"
  by (cases "fm_travel f") (auto simp: travel_rank_def)

lemma next_below: "fm_travel f = Ahead \<Longrightarrow> below n Ahead (next_iter f c) g \<Longrightarrow> (frame_rank n g, frame_rank n f) \<in> rank_less"
  by (simp add: below_def next_iter_def frame_rank_def is_back_def nat_add_distrib)

lemma resolve_below:
  "may_resolve (fm_travel f) \<Longrightarrow> below n (Back w) (resolve_iter f c) g \<Longrightarrow> (frame_rank n g, frame_rank n f) \<in> rank_less"
  by (cases "fm_travel f") (auto simp: below_def resolve_iter_def frame_rank_def is_back_def rank_less_def may_resolve_def travel_rank_def)

lemma raise_below: "below n (Failing e) ((fm_iter f)\<lparr>it_index := int (fm_index f) - 1\<rparr>) g \<Longrightarrow> (frame_rank n g, frame_rank n f) \<in> rank_less"
  by (cases "fm_travel f") (auto simp: below_def frame_rank_def rank_less_def travel_rank_def)

text \<open>A frame whose program keeps to what its direction allows.\<close>

definition tame :: "frame \<Rightarrow> 'w prog \<Rightarrow> bool" where
  "tame f p \<longleftrightarrow> calls (may_next (fm_travel f)) (may_resolve (fm_travel f)) p"

lemma land_halts:
  assumes plugins: "one_way_hooks (ev_plugins ev)"
    and smaller: "\<And>g p job. (frame_rank (length (ev_plugins ev)) g, r) \<in> rank_less \<Longrightarrow> tame g p \<Longrightarrow> halts ev job \<Longrightarrow> halts ev ((g, p) # job)"
    and start: "\<And>g. below (length (ev_plugins ev)) tr it g \<Longrightarrow> (frame_rank (length (ev_plugins ev)) g, r) \<in> rank_less"
    and job: "halts ev job" and stuck: "\<And>f p rest. job = (f, p) # rest \<Longrightarrow> halts ev ((f, Raise chain_error) # rest)"
  shows "halts ev (fst (step_from ev tr it job m))"
proof (cases "dispatch (ev_plugins ev) (ma_aborted m) (ma_state m) tr it")
  case (Invoke tr' i it' p)
  note inv = dispatch_invokes [OF Invoke]
  then have "tame \<lparr>fm_travel = tr', fm_index = i, fm_iter = it'\<rparr> p"
    using plugins by (auto simp: tame_def one_way_hooks_def)
  with inv show ?thesis using smaller start job by (simp add: step_from_def Invoke)
next
  case (Stuck it')
  with stuck job show ?thesis by (cases job) (auto simp: step_from_def intro: halts_Nil)
qed (use job in \<open>simp_all add: step_from_def\<close>)

lemma failing_not_stuck: "dispatch plugins aborted state (Failing e) it \<noteq> Stuck it'"
proof (induction plugins aborted state "Failing e" it arbitrary: e rule: dispatch.induct)
  case (1 plugins aborted state it)
  then show ?case by (subst dispatch.simps) (auto split: option.split)
qed

lemma raise_halts:
  assumes plugins: "one_way_hooks (ev_plugins ev)" and job: "halts ev job"
    and smaller: "\<And>g p job. (frame_rank (length (ev_plugins ev)) g, frame_rank (length (ev_plugins ev)) f) \<in> rank_less
      \<Longrightarrow> tame g p \<Longrightarrow> halts ev job \<Longrightarrow> halts ev ((g, p) # job)"
  shows "halts ev ((f, Raise e) # job)"
proof (rule halts_step)
  fix m :: "'a machine"
  let ?it = "(fm_iter f)\<lparr>it_index := int (fm_index f) - 1\<rparr>"
  show "halts ev (fst (exec1 ev ((f, Raise e) # job) m))"
  proof (cases "dispatch (ev_plugins ev) (ma_aborted m) (ma_state m) (Failing e) ?it")
    case (Invoke tr' i it' p)
    note inv = dispatch_invokes [OF Invoke]
    then have "tame \<lparr>fm_travel = tr', fm_index = i, fm_iter = it'\<rparr> p"
      using plugins by (auto simp: tame_def one_way_hooks_def)
    moreover have "(frame_rank (length (ev_plugins ev)) \<lparr>fm_travel = tr', fm_index = i, fm_iter = it'\<rparr>, frame_rank (length (ev_plugins ev)) f) \<in> rank_less"
      using inv by (intro raise_below [of _ e]) simp
    ultimately show ?thesis using smaller job by (simp add: step_from_def Invoke)
  next
    case (Stuck it')
    then show ?thesis using failing_not_stuck by blast
  qed (use job in \<open>simp_all add: step_from_def\<close>)
qed

lemma frame_halts:
  assumes plugins: "one_way_hooks (ev_plugins ev)"
  shows "tame f p \<Longrightarrow> halts ev job \<Longrightarrow> halts ev ((f, p) # job)"
proof (induction "frame_rank (length (ev_plugins ev)) f" arbitrary: f p job rule: wf_induct_rule [OF wf_rank_less])
  case 1
  have smaller: "halts ev ((g, q) # rest)"
    if "(frame_rank (length (ev_plugins ev)) g, frame_rank (length (ev_plugins ev)) f) \<in> rank_less" "tame g q" "halts ev rest" for g q rest
    using "1.hyps" that by blast
  have raise: "halts ev ((f, Raise e) # job)" if "halts ev job" for e job
    using plugins that smaller by (rule raise_halts)
  have walk: "halts ev (fst (step_from ev tr it ((f, k) # job) m))"
    if "halts ev ((f, k) # job)" "halts ev job"
      and "\<And>g. below (length (ev_plugins ev)) tr it g \<Longrightarrow> (frame_rank (length (ev_plugins ev)) g, frame_rank (length (ev_plugins ev)) f) \<in> rank_less"
    for tr it k job m
    by (rule land_halts [OF plugins smaller that(3) that(1)]) (use raise [OF that(2)] in auto)
  note base = "1.prems"(2)
  note ended = raise [OF base]
  from "1.prems"(1) show ?case
    unfolding tame_def
  proof (induction p rule: calls.induct)
    case 1
    show ?case by (rule halts_step) (simp add: base)
  next
    case (2 e)
    show ?case by (rule ended)
  next
    case (3 k b c)
    then have dir: "fm_travel f = Ahead" by (simp add: may_next_def)
    show ?case
      by (rule halts_step) (use ended walk [OF "3.IH" base next_below [OF dir]] in \<open>simp split: sum.split\<close>)
  next
    case (4 k b c v)
    show ?case
      by (rule halts_step)
        (use ended walk [OF "4.IH" base resolve_below [OF "4.hyps"(1)]] in \<open>simp split: sum.split option.split\<close>)
  next
    case (5 k g)
    show ?case by (rule halts_step) (simp add: "5.IH")
  next
    case (6 g)
    have "halts ev (fst (exec1 ev ((f, Effect g) # job) m))" for m
      using ended "6.IH" by (cases "g (ma_world m)") (auto split: prod.split)
    then show ?case by (rule halts_step)
  next
    case (7 k)
    show ?case by (rule halts_step) (simp add: base)
  next
    case (8 k q)
    show ?case by (rule halts_step) (simp add: base)
  next
    case (9 k h)
    show ?case by (rule halts_step) (simp add: "9.IH")
  qed
qed

text \<open>So a request starts a job that ends.\<close>

lemma invoked_halts:
  assumes "one_way_hooks (ev_plugins ev)" and "dispatch (ev_plugins ev) ab st tr it = Invoke tr' i it' p"
  shows "halts ev [(\<lparr>fm_travel = tr', fm_index = i, fm_iter = it'\<rparr>, p)]"
proof -
  have "tame \<lparr>fm_travel = tr', fm_index = i, fm_iter = it'\<rparr> p"
    using dispatch_invokes [OF assms(2)] assms(1) by (auto simp: tame_def one_way_hooks_def)
  then show ?thesis using frame_halts [OF assms(1)] halts_Nil by blast
qed

lemma send_halts:
  assumes "one_way_hooks (ev_plugins ev)"
  shows "halts ev (fst (send_request ev ps [] m))"
proof -
  obtain fl ab where d: "dedupe_request (ev_document ev) (sp_send_variables ps)
      (case sp_controller ps of None \<Rightarrow> ma_controllers m | Some c \<Rightarrow> c) (ma_inflight m, ma_aborted m) = (fl, ab)" by fastforce
  show ?thesis
    unfolding send_request_def Let_def d
    by (auto simp: halts_Nil intro: invoked_halts [OF assms] split: sum.split outcome.split)
qed

end
