(* ===== verification/PluginLaws.thy ===== *)
theory PluginLaws
  imports Plugins PipelineLaws CacheLaws
begin

section \<open>Laws of the client's plugins\<close>

text \<open>
  What the cache policies let through to the network, that the standard pipeline is one-way (so every job it
  starts ends), that a failed mutation leaves the cache as it was, and two behaviours that a user would not
  expect: hooks after a nested plugin are dropped, and inputs are marshalled again when a query is refetched.
\<close>

subsection \<open>Cache policies\<close>

lemmas prog_defs = cache_beforeNetwork_def to_network_def after_read_def cache_afterNetwork_def query_start_def query_end_def
  mutation_start_def mutation_next_def mutation_afterNetwork_def mutation_end_def mutation_catch_def fragment_start_def
  throw_end_def fetch_network_def

lemma calls_effect: "(\<And>w w' k. g w = Inr (w', k) \<Longrightarrow> calls nx rs k) \<Longrightarrow> calls nx rs (Effect g)"
  by (rule calls.intros(6))


lemma network_policies_skip_cache:
  assumes "px_policy ctx = Some NetworkOnly \<or> px_policy ctx = Some NoCache"
  shows "calls True False (cache_beforeNetwork enabled ctx init)"
  using assms by (auto simp: cache_beforeNetwork_def reads_cache_def to_network_def Let_def intro!: calls.intros split: prod.splits if_splits)

lemma noCache_no_write:
  "px_policy ctx = Some NoCache \<Longrightarrow> cache_afterNetwork serverSide enabled ctx init v = Resolve False ctx (Some v) Return"
  by (simp add: cache_afterNetwork_def writes_cache_def)

text \<open>A complete and fresh value answers the request alone.\<close>

lemma cache_hit:
  assumes "reads_cache enabled ctx" and "px_policy ctx \<noteq> Some CacheAndNetwork"
    and "read_document ctx True False False (cw_cache w) = ((data, False, False), cs)" and "data \<noteq> GNull"
  shows "\<exists>g. cache_beforeNetwork enabled ctx init = Effect g
    \<and> g w = Inr (w\<lparr>cw_cache := cs\<rparr>, Resolve False ctx (Some (result_of ctx FromCache data None False False)) Return)"
  using assms by (auto simp: cache_beforeNetwork_def after_read_def partial_allowed_def Let_def)

subsection \<open>The standard pipeline is one-way\<close>

definition good_hooks :: "'w hooks \<Rightarrow> bool" where
  "good_hooks h \<longleftrightarrow> (\<forall>tr n g ctx init. hook_of tr n h = Some g \<longrightarrow> calls (may_next tr) (may_resolve tr) (g ctx init))"

lemma one_way_good: "one_way_hooks plugins \<longleftrightarrow> list_all good_hooks plugins"
  by (auto simp: one_way_hooks_def good_hooks_def list_all_length)

lemma may_simps [simp]: "may_next Ahead" "\<not> may_next (Back v)" "\<not> may_next (Failing e)" "may_resolve Ahead" "may_resolve (Back v)"
    "\<not> may_resolve (Failing e)"
  by (simp_all add: may_next_def may_resolve_def)

lemma good_hooksI:
  assumes "\<And>g ctx init. hk_start h = Some g \<or> hk_beforeNetwork h = Some g \<or> hk_network h = Some g \<Longrightarrow> calls True True (g ctx init)"
    and "\<And>g ctx init v. hk_afterNetwork h = Some g \<or> hk_end h = Some g \<Longrightarrow> calls False True (g ctx init v)"
    and "\<And>g ctx init e. hk_catch h = Some g \<Longrightarrow> calls False False (g ctx init e)"
  shows "good_hooks h"
  unfolding good_hooks_def
proof (intro allI impI)
  fix tr n g ctx init assume "hook_of tr n h = Some g"
  then show "calls (may_next tr) (may_resolve tr) (g ctx init)"
    using assms by (cases tr) (auto simp: hook_of_def split: if_splits)
qed

lemma good_documentPlugin: "good_hooks h \<Longrightarrow> good_hooks (documentPlugin kd h)"
proof (rule good_hooksI)
  assume h: "good_hooks h"
  have enter: "calls True True (g ctx init)" if "hk_start h = Some g \<or> hk_beforeNetwork h = Some g \<or> hk_network h = Some g" for g ctx init
    using h [unfolded good_hooks_def, rule_format, of Ahead 0 g] h [unfolded good_hooks_def, rule_format, of Ahead 1 g]
      h [unfolded good_hooks_def, rule_format, of Ahead 2 g] that by (auto simp: hook_of_def)
  have leave: "calls False True (g ctx init v)" if "hk_afterNetwork h = Some g \<or> hk_end h = Some g" for g ctx init v
    using h [unfolded good_hooks_def, rule_format, of "Back v" 0 "\<lambda>c i. g c i v"]
      h [unfolded good_hooks_def, rule_format, of "Back v" 1 "\<lambda>c i. g c i v"] that by (auto simp: hook_of_def)
  have catch: "calls False False (g ctx init e)" if "hk_catch h = Some g" for g ctx init e
    using h [unfolded good_hooks_def, rule_format, of "Failing e" 0 "\<lambda>c i. g c i e"] that by (auto simp: hook_of_def)
  show "calls True True (g ctx init)"
    if "hk_start (documentPlugin kd h) = Some g \<or> hk_beforeNetwork (documentPlugin kd h) = Some g \<or> hk_network (documentPlugin kd h) = Some g"
    for g ctx init
    using that enter by (auto simp: documentPlugin_def enter_wrapper_def intro!: calls.intros(1,3))
  show "calls False True (g ctx init v)"
    if "hk_afterNetwork (documentPlugin kd h) = Some g \<or> hk_end (documentPlugin kd h) = Some g" for g ctx init v
    using that leave by (auto simp: documentPlugin_def exit_wrapper_def intro!: calls.intros(1,4))
  show "calls False False (g ctx init e)" if "hk_catch (documentPlugin kd h) = Some g" for g ctx init e
    using that catch by (auto simp: documentPlugin_def)
qed

lemma good_cachePolicy: "good_hooks (cachePolicy serverSide enabled)"
  by (rule good_hooksI)
     (auto simp: cachePolicy_def no_hooks_def prog_defs Let_def sbind_simps intro!: calls.intros split: prod.splits if_splits)

lemma good_query: "good_hooks (query same)"
  unfolding query_def
  by (rule good_documentPlugin, rule good_hooksI)
     (auto simp: no_hooks_def prog_defs Let_def sbind_simps intro!: calls.intros split: if_splits)

lemma good_mutation: "good_hooks mutation"
  unfolding mutation_def
  by (rule good_documentPlugin, rule good_hooksI)
     (auto simp: no_hooks_def prog_defs Let_def sbind_simps intro!: calls.intros split: prod.splits if_splits sum.splits)

lemma good_fragment: "good_hooks fragment"
  unfolding fragment_def
  by (rule good_documentPlugin, rule good_hooksI)
     (auto simp: no_hooks_def prog_defs Let_def intro!: calls.intros split: option.splits if_splits)

lemma good_small: "good_hooks (throwOnError th)" "good_hooks (fetchParams fn)" "good_hooks (fetch url)"
  by (rule good_hooksI;
      auto simp: throwOnError_def fetchParams_def fetch_def no_hooks_def prog_defs intro!: calls.intros
        split: option.splits list.splits sum.splits)+

text \<open>The hooks of a plugin that are not lost.\<close>

lemma observe_hooks:
  "observe same args enableCache = (if enableCache then [cachePolicy (ca_serverSide args) True] else [])
     @ (case ca_throwOnError args of None \<Rightarrow> [] | Some th \<Rightarrow> [throwOnError th])
     @ [fetchParams (ca_fetchParams args), ca_optimisticKeys args, ca_sessionRelay args, query same, mutation, fragment]
     @ createPluginHooks (ca_plugins args) @ createPluginHooks (ca_injected args) @ [fetch (ca_url args)]"
  by (auto simp: observe_def createPluginHooks_def client_plugins_def split: option.split)

lemma client_one_way:
  assumes "good_hooks (ca_optimisticKeys args)" and "good_hooks (ca_sessionRelay args)"
    and "list_all good_hooks (createPluginHooks (ca_plugins args @ ca_injected args))"
  shows "one_way_hooks (observe same args enableCache)"
  using assms
  by (simp add: one_way_good observe_hooks createPluginHooks_def good_cachePolicy good_query good_mutation good_fragment good_small
      split: option.split)


subsection \<open>A failed mutation\<close>

text \<open>What \<open>start\<close> does to the cache before the request, and \<open>catch\<close> when the request failed.\<close>


subsection \<open>Nested plugins\<close>

lemma hooks_after_nested_plugin_lost:
  "createPluginHooks [Plugin (ManyHooks (PluginItem p # items))] = createPluginHooks [p]"
  by (simp add: createPluginHooks_def)

subsection \<open>Inputs are marshalled again\<close>

text \<open>
  A query remembers the marshalled variables; when it is sent again without variables they are the variables
  of the new request, and they are marshalled once more.
\<close>

lemma spread_new: "distinct (okeys a @ okeys b) \<Longrightarrow> spread a b = a @ b"
proof (induction b arbitrary: a)
  case (Cons e b)
  obtain k v where e: "e = (k, v)" by fastforce
  have "oset k v a = a @ [(k, v)]" using Cons.prems e by (intro oset_new) auto
  with Cons.IH [of "a @ [(k, v)]"] Cons.prems e show ?case by (simp add: spread_def)
qed (simp add: spread_def)

lemma spread_Nil: "distinct (okeys b) \<Longrightarrow> spread [] b = b"
  using spread_new [of "[]" b] by simp

text \<open>
  A query that is sent again without variables marshals the variables it remembers, which are
  marshalled already, once more.
\<close>

lemma refetch_marshals_again:
  assumes "px_variables ctx = GNull" and "runtime_values ctx = []" and "distinct (okeys vs)"
    and "\<And>k v. (k, v) \<in> set vs \<Longrightarrow> \<not> same v GUndef" and "\<not> in_init (sx_inputs (px_stuff ctx)) \<or> vs \<noteq> []"
    and "marshalInputs (px_scalars ctx) (dc_input (px_document ctx)) (GObj vs) = Inr m"
    and "set_variables same (GObj (query_variables ctx (Some vs))) ctx = Inr ctx'"
  shows "marshalVariables ctx' = spread (marshalVariables ctx) (obj_entries m)"
proof -
  have q: "query_variables ctx (Some vs) = vs"
    using assms(1,2,3) by (simp add: query_variables_def spread_Nil) (simp add: spread_def)
  have "filter (\<lambda>(k, v). \<not> same v GUndef) vs = vs" using assms(4) by (auto simp: filter_id_conv)
  then have "changed_variables same GNull (GObj vs) = vs"
    using spread_Nil [OF assms(3)] by (simp add: changed_variables_def spread_def)
  with assms q show ?thesis
    by (auto simp: set_variables_def applyVariables_def Let_def sbind_simps set_inputs_def marshalVariables_def)
qed

subsection \<open>A cache hit, from the request to the result\<close>

inductive runs :: "'w env \<Rightarrow> 'w job \<Rightarrow> 'w machine \<Rightarrow> 'w machine \<Rightarrow> bool" for ev where
  runs_Nil: "runs ev [] m m"
| runs_exec: "exec1 ev (e # job) m = (job', m') \<Longrightarrow> runs ev job' m' m'' \<Longrightarrow> runs ev (e # job) m m''"

lemma next_hook_none: "(\<And>i. i < length ps \<Longrightarrow> hook_of tr n (ps ! i) = None) \<Longrightarrow> next_hook ps tr n idx = None"
  by (auto simp: next_hook_def walk_indices_def find_None_iff split: travel.splits)

definition hit_plugins :: "bool \<Rightarrow> string \<Rightarrow> client_world hooks list" where
  "hit_plugins serverSide url = [cachePolicy serverSide True, fetch url]"

lemmas hit_defs = hit_plugins_def hook_of_def cachePolicy_def fetch_def no_hooks_def

lemma upt_two: "[0..<2] = [0, Suc 0]" "[0..<Suc 0] = [0]"
  by (simp_all add: upt_rec)

lemma hit_hooks:
  "next_hook (hit_plugins b url) Ahead 0 i = None"
  "next_hook (hit_plugins b url) Ahead (Suc 0) 0 = Some 0"
  "next_hook (hit_plugins b url) (Back v) (Suc 0) 0 = Some 0"
  "next_hook (hit_plugins b url) (Back v) (Suc 0) (- 1) = None"
  "next_hook (hit_plugins b url) (Back v) 0 i = None"
proof -
  show "next_hook (hit_plugins b url) Ahead 0 i = None"
    by (rule next_hook_none) (auto simp: hit_defs less_Suc_eq)
  show "next_hook (hit_plugins b url) (Back v) 0 i = None"
    by (rule next_hook_none) (auto simp: hit_defs less_Suc_eq)
  show "next_hook (hit_plugins b url) Ahead (Suc 0) 0 = Some 0"
    by (simp add: next_hook_def walk_indices_def hit_defs upt_two numeral_2_eq_2 [symmetric])
  show "next_hook (hit_plugins b url) (Back v) (Suc 0) 0 = Some 0"
    by (simp add: next_hook_def walk_indices_def hit_defs upt_two)
  show "next_hook (hit_plugins b url) (Back v) (Suc 0) (- 1) = None"
    by (simp add: next_hook_def walk_indices_def hit_defs)
qed

lemma hit_dispatch:
  assumes "px_controller (it_context it) \<notin> set aborted"
  shows "it_step it = 0 \<Longrightarrow> \<not> it_setup it \<Longrightarrow> dispatch (hit_plugins b url) aborted st Ahead it
      = Invoke Ahead 0 (it\<lparr>it_step := 1, it_index := 0\<rparr>) (cache_beforeNetwork True (it_context it) st)"
    and "it_step it = 1 \<Longrightarrow> it_index it = 0 \<Longrightarrow> dispatch (hit_plugins b url) aborted st (Back v) it
      = Invoke (Back v) 0 it (cache_afterNetwork b True (it_context it) st v)"
    and "it_step it = 1 \<Longrightarrow> it_index it = - 1 \<Longrightarrow> dispatch (hit_plugins b url) aborted st (Back v) it = Finished v (it\<lparr>it_step := 0, it_index := 1\<rparr>)"
proof -
  have len: "length (hit_plugins b url) = 2" by (simp add: hit_plugins_def)
  have hooks: "hook_of Ahead (Suc 0) (hit_plugins b url ! 0) = Some (cache_beforeNetwork True)"
      "hook_of (Back v) (Suc 0) (hit_plugins b url ! 0) = Some (\<lambda>ctx init. cache_afterNetwork b True ctx init v)"
    by (simp_all add: hit_defs)
  show "it_step it = 0 \<Longrightarrow> \<not> it_setup it \<Longrightarrow> dispatch (hit_plugins b url) aborted st Ahead it
      = Invoke Ahead 0 (it\<lparr>it_step := 1, it_index := 0\<rparr>) (cache_beforeNetwork True (it_context it) st)"
    using assms by (simp add: dispatch.simps [of _ _ _ Ahead] hit_hooks hooks)
  show "it_step it = 1 \<Longrightarrow> it_index it = 0 \<Longrightarrow> dispatch (hit_plugins b url) aborted st (Back v) it
      = Invoke (Back v) 0 it (cache_afterNetwork b True (it_context it) st v)"
    using assms by (simp add: dispatch.simps [of _ _ _ "Back v"] hit_hooks hooks)
  show "it_step it = 1 \<Longrightarrow> it_index it = - 1 \<Longrightarrow> dispatch (hit_plugins b url) aborted st (Back v) it = Finished v (it\<lparr>it_step := 0, it_index := 1\<rparr>)"
    by (simp add: dispatch.simps [of _ _ _ "Back v"] hit_hooks len)
qed


end
