(* ===== verification/ClientScenario.thy ===== *)
theory ClientScenario
  imports PluginLaws
begin

section \<open>A store in use\<close>

text \<open>A document with one field, its store over a cache that has the field, and the witnesses of the pipeline.\<close>

definition title_document :: "artifact_kind \<Rightarrow> document" where
  "title_document kd = \<lparr>dc_name = ''T'', dc_raw = ''q'', dc_hash = ''h'', dc_kind = kd, dc_selection = title_selection, dc_rootType = ''Q'',
     dc_policy = Some CacheOrNetwork, dc_partial = False, dc_enableLoadingState = False, dc_optimisticKeys = False, dc_input = None,
     dc_dedupe = None, dc_operations = [], dc_stripVariables = []\<rparr>"

definition plain_params :: "cache_policy \<Rightarrow> send_params" where
  "plain_params p = \<lparr>sp_send_variables = GUndef, sp_metadata = GUndef, sp_session = GUndef, sp_policy = Some p, sp_stuff = None,
     sp_cacheParams = None, sp_setup = False, sp_initialState = None, sp_silenceEcho = False, sp_controller = None\<rparr>"

definition title_env :: "artifact_kind \<Rightarrow> client_world hooks list \<Rightarrow> client_world env" where
  "title_env kd plugins = \<lparr>ev_document = title_document kd, ev_plugins = plugins, ev_scalars = [], ev_runtimeScalars = [], ev_same = (=)\<rparr>"

definition title_store :: "client_world machine" where
  "title_store = new_store (title_document HoudiniQuery) GNull None None (new_world title_cache)"

definition title_ctx :: "artifact_kind \<Rightarrow> cache_policy \<Rightarrow> plugin_ctx" where
  "title_ctx kd p = \<lparr>px_document = title_document kd, px_scalars = [], px_runtimeScalars = [], px_policy = Some p, px_variables = GNull,
     px_metadata = GUndef, px_session = GUndef, px_fetchParams = GUndef, px_controller = 0, px_cacheParams = None,
     px_stuff = no_stuff\<lparr>sx_inputs := \<lparr>in_init = True, in_changed = True, in_marshaled = []\<rparr>\<rparr>, px_lastVariables = GNull\<rparr>"

lemma title_first:
  "set_variables (=) GNull (first_context (title_env HoudiniQuery plugins) (plain_params p) 0 GNull) = Inr (title_ctx HoudiniQuery p)"
  by (simp add: set_variables_def applyVariables_def changed_variables_def first_context_def title_env_def plain_params_def
      title_document_def no_stuff_def marshalInputs_def nullish_def spread_def set_inputs_def title_ctx_def Let_def deepEquals.simps)

lemma title_read: "fst (read_document (title_ctx HoudiniQuery p) True False False title_cache) = (GObj [(''t'', GStr ''A'')], False, False)"
  unfolding title_ctx_def by code_simp


definition plain_client :: client_args where
  "plain_client = \<lparr>ca_throwOnError = None, ca_fetchParams = (\<lambda>ctx. GObj []), ca_optimisticKeys = no_hooks, ca_sessionRelay = no_hooks,
     ca_plugins = [], ca_injected = [], ca_url = ''/api'', ca_serverSide = False\<rparr>"

lemma good_no_hooks: "good_hooks no_hooks"
  by (rule good_hooksI) (auto simp: no_hooks_def)


lemma settled_once_witness:
  "let m = title_store\<lparr>ma_sends := [\<lparr>sd_key = ''key'', sd_result = Some (Inl abort_error), sd_released = False\<rparr>]\<rparr>
   in sd_result (ma_sends (start_send (title_env HoudiniQuery []) (plain_params CacheOnly) (release 0 m)) ! 0) = Some (Inl abort_error)"
proof -
  let ?m = "title_store\<lparr>ma_sends := [\<lparr>sd_key = ''key'', sd_result = Some (Inl abort_error), sd_released = False\<rparr>]\<rparr>"
  let ?ev = "title_env HoudiniQuery []"
  have "machine_step ?ev ?m (release 0 ?m)" by (rule machine_step.release) simp_all
  moreover have "machine_step ?ev (release 0 ?m) (start_send ?ev (plain_params CacheOnly) (release 0 ?m))" by (rule machine_step.send)
  ultimately have "machine_steps ?ev ?m (start_send ?ev (plain_params CacheOnly) (release 0 ?m))"
    unfolding machine_steps_def by (rule converse_rtranclp_into_rtranclp [OF _ r_into_rtranclp])
  then show ?thesis unfolding Let_def by (rule settled_once) simp_all
qed

definition frame_of :: "artifact_kind \<Rightarrow> frame" where
  "frame_of kd = \<lparr>fm_travel = Ahead, fm_index = 1, fm_iter = \<lparr>it_context = title_ctx kd NetworkOnly, it_index = 1, it_step = 2,
     it_setup = False, it_initialState = None, it_silence = False, it_send = 0\<rparr>\<rparr>"

lemma abort_skips_catch_witness:
  "\<exists>e'. exec1 (title_env HoudiniMutation [mutation, fetch ''/api'']) [(frame_of HoudiniMutation, Raise chain_error)] (title_store\<lparr>ma_aborted := [0]\<rparr>)
     = ([], settle 0 (Inl e') (title_store\<lparr>ma_aborted := [0]\<rparr>))"
  using abort_skips_catch [of "frame_of HoudiniMutation" "title_store\<lparr>ma_aborted := [0]\<rparr>" "title_env HoudiniMutation [mutation, fetch ''/api'']" chain_error "[]"]
  by (auto simp: frame_of_def title_ctx_def)

lemma dedupe_one_survives_witness:
  "let d = \<lparr>dd_cancelFirst = True, dd_match = MatchOperation\<rparr>; doc = (title_document HoudiniQuery)\<lparr>dc_dedupe := Some d\<rparr>;
       (fl, ab) = dedupe_request doc GNull 4 ([(controllerKey doc GNull, 3)], [])
   in \<exists>live. map_of fl (controllerKey doc GNull) = Some live \<and> live \<notin> set ab \<and> live = 4"
proof -
  let ?d = "\<lparr>dd_cancelFirst = True, dd_match = MatchOperation\<rparr>"
  let ?doc = "(title_document HoudiniQuery)\<lparr>dc_dedupe := Some ?d\<rparr>"
  obtain fl ab where r: "dedupe_request ?doc GNull 4 ([(controllerKey ?doc GNull, 3)], []) = (fl, ab)" by fastforce
  have "dc_dedupe ?doc = Some ?d" "dd_match ?d \<noteq> MatchNone" "map_of [(controllerKey ?doc GNull, 3)] (controllerKey ?doc GNull) = Some 3"
      "(3::nat) \<notin> set []" "(4::nat) \<notin> set []" "(3::nat) \<noteq> 4" by simp_all
  from dedupe_one_survives [OF this r] r show ?thesis by (simp add: Let_def)
qed


text \<open>A date is marshalled when it is first sent, and its text again when the query is refetched.\<close>

definition again :: "gval \<Rightarrow> js_error + gval" where
  "again v = (case v of GStr s \<Rightarrow> Inr (GStr (s @ ''m'')) | _ \<Rightarrow> Inr v)"

definition dated_ctx :: plugin_ctx where
  "dated_ctx = (title_ctx HoudiniQuery NetworkOnly)\<lparr>px_document := (title_document HoudiniQuery)\<lparr>dc_input :=
       Some \<lparr>io_fields = [(''d'', ''D'')], io_types = [], io_defaults = [], io_runtimeScalars = []\<rparr>\<rparr>,
     px_scalars := [(''D'', \<lparr>sf_marshal = Some again, sf_unmarshal = None\<rparr>)]\<rparr>"

lemma refetch_marshals_again_witness:
  "\<exists>ctx'. set_variables (=) (GObj (query_variables dated_ctx (Some [(''d'', GStr ''xm'')]))) dated_ctx = Inr ctx'
     \<and> marshalVariables ctx' = [(''d'', GStr ''xmm'')]"
proof -
  have m: "marshalInputs (px_scalars dated_ctx) (dc_input (px_document dated_ctx)) (GObj [(''d'', GStr ''xm'')]) = Inr (GObj [(''d'', GStr ''xmm'')])"
    by (simp add: dated_ctx_def marshalInputs_def marshal_fields.simps map_props_def each_value_def again_def nullish_def)
  have rt: "runtime_values dated_ctx = []" by (simp add: runtime_values_def dated_ctx_def)
  have null: "px_variables dated_ctx = GNull" by (simp add: dated_ctx_def title_ctx_def)
  obtain ctx' where s: "set_variables (=) (GObj (query_variables dated_ctx (Some [(''d'', GStr ''xm'')]))) dated_ctx = Inr ctx'"
    using m by (simp add: set_variables_def applyVariables_def query_variables_def rt null spread_def changed_variables_def Let_def)
  from refetch_marshals_again [OF null rt _ _ _ m s]
  have "marshalVariables ctx' = spread (marshalVariables dated_ctx) (obj_entries (GObj [(''d'', GStr ''xmm'')]))" by simp
  moreover have "marshalVariables dated_ctx = []" by (simp add: marshalVariables_def dated_ctx_def title_ctx_def)
  ultimately show ?thesis using s by (simp add: spread_def)
qed


end
