(* ===== verification/Json.thy ===== *)
theory Json
  imports Storage
begin

section \<open>JSON.parse, and what survives a trip through JSON text\<close>

text \<open>
  The runtime writes values with \<open>JSON.stringify\<close> (the snapshot of the cache, request bodies, tokens)
  and reads them with \<open>JSON.parse\<close> (hydration, \<open>decodeScalar\<close>, tokens). The printer is in \<open>Keys\<close>;
  the parser of the standard is here, a function from text to an optional value. Two limits follow
  from the values of the development: a number is kept exactly, where JavaScript rounds to a double,
  and an escape of a code unit above 255 is refused.

  The recursive calls for the rest of an array or object are guarded by the length of the rest, so
  that the parser is total by construction; a sub-parser always consumes something
  (\<open>json_value_consumes\<close>), so the guards hold whenever they are tested.

  \<open>json_roundtrip\<close> is the reason for \<open>json_value\<close> in \<open>Storage\<close>: parsing the text of a value gives
  exactly \<open>json_value\<close> of it.
\<close>

text \<open>\<open>JSON.stringify(v)\<close> where text is expected.\<close>

definition json_text :: "gval \<Rightarrow> string" where
  "json_text v = (case json_stringify v of None \<Rightarrow> ''undefined'' | Some t \<Rightarrow> t)"

subsection \<open>Tokens\<close>

definition json_space :: "char \<Rightarrow> bool" where
  "json_space c \<longleftrightarrow> c = CHR '' '' \<or> c = CHR 0x09 \<or> c = CHR 0x0A \<or> c = CHR 0x0D"

definition skip_ws :: "string \<Rightarrow> string" where
  "skip_ws s = dropWhile json_space s"

definition hex_val :: "char \<Rightarrow> nat option" where
  "hex_val c = (let n = of_char c in
     if 48 \<le> n \<and> n \<le> 57 then Some (n - 48)
     else if 97 \<le> n \<and> n \<le> 102 then Some (n - 87)
     else if 65 \<le> n \<and> n \<le> 70 then Some (n - 55)
     else None)"

definition hex4 :: "char \<Rightarrow> char \<Rightarrow> char \<Rightarrow> char \<Rightarrow> nat option" where
  "hex4 a b c d = (case (hex_val a, hex_val b, hex_val c, hex_val d) of
     (Some w, Some x, Some y, Some z) \<Rightarrow> Some (((w * 16 + x) * 16 + y) * 16 + z)
   | _ \<Rightarrow> None)"

definition unescape_char :: "char \<Rightarrow> char option" where
  "unescape_char c =
     (if c = dquote \<or> c = CHR 0x5C \<or> c = CHR ''/'' then Some c
      else if c = CHR ''b'' then Some (CHR 0x08)
      else if c = CHR ''f'' then Some (CHR 0x0C)
      else if c = CHR ''n'' then Some (CHR 0x0A)
      else if c = CHR ''r'' then Some (CHR 0x0D)
      else if c = CHR ''t'' then Some (CHR 0x09)
      else None)"

text \<open>The characters of a string up to its closing quote.\<close>

fun json_chars :: "string \<Rightarrow> string \<Rightarrow> (string \<times> string) option" where
  "json_chars acc [] = None"
| "json_chars acc (c # r) =
     (if c = dquote then Some (acc, r)
      else if c = CHR 0x5C then
        (case r of
           [] \<Rightarrow> None
         | e # r' \<Rightarrow>
             if e = CHR ''u'' then
               (case r' of
                  h1 # h2 # h3 # h4 # r'' \<Rightarrow>
                    (case hex4 h1 h2 h3 h4 of
                       None \<Rightarrow> None
                     | Some n \<Rightarrow> if n < 256 then json_chars (acc @ [char_of n]) r'' else None)
                | _ \<Rightarrow> None)
             else
               (case unescape_char e of
                  None \<Rightarrow> None
                | Some x \<Rightarrow> json_chars (acc @ [x]) r'))
      else if (of_char c :: nat) < 32 then None
      else json_chars (acc @ [c]) r)"

text \<open>A number: the digits before and after the point and the exponent.\<close>

definition number_value :: "bool \<Rightarrow> string \<Rightarrow> string \<Rightarrow> int \<Rightarrow> gval" where
  "number_value neg ip fp e =
     (let a = int (nat_of_js (ip @ fp)); m = (if neg then - a else a); k = e - int (length fp) in
      if 0 \<le> k then GNum (m * 10 ^ nat k) else dec_norm m (nat (- k)))"

definition json_fraction :: "string \<Rightarrow> (string \<times> string) option" where
  "json_fraction r =
     (case r of
        c # r' \<Rightarrow>
          if c = CHR ''.'' then
            (if takeWhile is_digit r' = [] then None
             else Some (takeWhile is_digit r', dropWhile is_digit r'))
          else Some ([], r)
      | [] \<Rightarrow> Some ([], r))"

definition json_exponent :: "string \<Rightarrow> (int \<times> string) option" where
  "json_exponent r =
     (case r of
        c # r' \<Rightarrow>
          if c = CHR ''e'' \<or> c = CHR ''E'' then
            (let neg = (r' \<noteq> [] \<and> hd r' = CHR ''-'');
                 q = (if r' \<noteq> [] \<and> (hd r' = CHR ''-'' \<or> hd r' = CHR ''+'') then tl r' else r');
                 ds = takeWhile is_digit q
             in if ds = [] then None
                else Some (if neg then - int (nat_of_js ds) else int (nat_of_js ds), dropWhile is_digit q))
          else Some (0, r)
      | [] \<Rightarrow> Some (0, r))"

definition json_number :: "string \<Rightarrow> (gval \<times> string) option" where
  "json_number s =
     (let neg = (s \<noteq> [] \<and> hd s = CHR ''-''); s1 = (if neg then tl s else s);
          ip = takeWhile is_digit s1; r1 = dropWhile is_digit s1
      in if ip = [] \<or> (1 < length ip \<and> hd ip = CHR ''0'') then None
         else case json_fraction r1 of
           None \<Rightarrow> None
         | Some (fp, r2) \<Rightarrow>
             (case json_exponent r2 of
                None \<Rightarrow> None
              | Some (e, r3) \<Rightarrow> Some (number_value neg ip fp e, r3)))"

definition json_literal :: "string \<Rightarrow> gval \<Rightarrow> string \<Rightarrow> (gval \<times> string) option" where
  "json_literal word v s = (if prefix word s then Some (v, drop (length word) s) else None)"

subsection \<open>Values\<close>

lemma skip_ws_length: "length (skip_ws s) \<le> length s"
  by (simp add: skip_ws_def length_dropWhile_le)

lemma skip_ws_Cons_length: "skip_ws s = c # r \<Longrightarrow> length r < length s"
  using skip_ws_length [of s] by simp

text \<open>A key that occurs twice keeps its place and takes the last value, as a property assignment does.\<close>

function (sequential) json_read :: "string \<Rightarrow> (gval \<times> string) option"
  and json_elements :: "gval list \<Rightarrow> string \<Rightarrow> (gval \<times> string) option"
  and json_members :: "gobj \<Rightarrow> string \<Rightarrow> (gval \<times> string) option" where
  "json_read s =
     (case skip_ws s of
        [] \<Rightarrow> None
      | c # r \<Rightarrow>
          if c = CHR ''{'' then
            (case skip_ws r of
               d # r' \<Rightarrow> if d = CHR ''}'' then Some (GObj [], r') else json_members [] r
             | [] \<Rightarrow> None)
          else if c = CHR ''['' then
            (case skip_ws r of
               d # r' \<Rightarrow> if d = CHR '']'' then Some (GArr [], r') else json_elements [] r
             | [] \<Rightarrow> None)
          else if c = dquote then map_option (\<lambda>(t, r'). (GStr t, r')) (json_chars [] r)
          else if c = CHR ''t'' then json_literal ''true'' (GBool True) (c # r)
          else if c = CHR ''f'' then json_literal ''false'' (GBool False) (c # r)
          else if c = CHR ''n'' then json_literal ''null'' GNull (c # r)
          else json_number (c # r))"
| "json_elements acc s =
     (case json_read s of
        None \<Rightarrow> None
      | Some (v, r) \<Rightarrow>
          (case skip_ws r of
             [] \<Rightarrow> None
           | c # r' \<Rightarrow>
               if c = CHR '']'' then Some (GArr (acc @ [v]), r')
               else if c = CHR '','' \<and> length r' < length s then json_elements (acc @ [v]) r'
               else None))"
| "json_members acc s =
     (case skip_ws s of
        [] \<Rightarrow> None
      | q # r0 \<Rightarrow>
          if q \<noteq> dquote then None
          else case json_chars [] r0 of
            None \<Rightarrow> None
          | Some (k, r1) \<Rightarrow>
              (case skip_ws r1 of
                 [] \<Rightarrow> None
               | c1 # r2 \<Rightarrow>
                   if c1 \<noteq> CHR '':'' \<or> \<not> length r2 < length s then None
                   else case json_read r2 of
                     None \<Rightarrow> None
                   | Some (v, r) \<Rightarrow>
                       (case skip_ws r of
                          [] \<Rightarrow> None
                        | c # r' \<Rightarrow>
                            if c = CHR ''}'' then Some (GObj (oset k v acc), r')
                            else if c = CHR '','' \<and> length r' < length s then json_members (oset k v acc) r'
                            else None)))"
  by pat_completeness auto

termination
  by (relation "measure (\<lambda>x. case x of Inl s \<Rightarrow> 2 * length s | Inr (Inl (acc, s)) \<Rightarrow> 2 * length s + 1
        | Inr (Inr (acc, s)) \<Rightarrow> 2 * length s + 1)")
     (auto dest: skip_ws_Cons_length)

declare json_read.simps [simp del] json_elements.simps [simp del] json_members.simps [simp del]

definition json_parse :: "string \<Rightarrow> gval option" where
  "json_parse s = (case json_read s of Some (v, r) \<Rightarrow> if skip_ws r = [] then Some v else None | None \<Rightarrow> None)"

subsection \<open>Reading always consumes\<close>

lemma json_chars_consumes: "json_chars acc s = Some (t, r) \<Longrightarrow> length r < length s"
  by (induction acc s rule: json_chars.induct) (force split: if_splits list.splits option.splits)+

lemma json_literal_consumes: "json_literal w v s = Some (x, r) \<Longrightarrow> w \<noteq> [] \<Longrightarrow> length r < length s"
  by (auto simp: json_literal_def prefix_def split: if_splits)

lemma takeWhile_digits_length: "takeWhile is_digit s \<noteq> [] \<Longrightarrow> length (dropWhile is_digit s) < length s"
  by (cases s) (auto simp: length_dropWhile_le less_Suc_eq_le split: if_splits)

lemma json_fraction_consumes: "json_fraction s = Some (f, r) \<Longrightarrow> length r \<le> length s"
  by (auto simp: json_fraction_def length_dropWhile_le le_SucI split: list.splits if_splits)

lemma json_exponent_consumes: "json_exponent s = Some (f, r) \<Longrightarrow> length r \<le> length s"
proof -
  have le: "length (dropWhile is_digit q) \<le> n" if "length q \<le> n" for q n
    using that length_dropWhile_le [of is_digit q] by linarith
  assume "json_exponent s = Some (f, r)"
  then show ?thesis
    by (auto simp: json_exponent_def Let_def split: list.splits if_splits intro!: le)
qed

lemma json_number_consumes:
  assumes "json_number s = Some (v, r)"
  shows "length r < length s"
proof -
  define s1 where "s1 = (if s \<noteq> [] \<and> hd s = CHR ''-'' then tl s else s)"
  from assms obtain fp r2 e where ip: "takeWhile is_digit s1 \<noteq> []"
    and f: "json_fraction (dropWhile is_digit s1) = Some (fp, r2)" and e: "json_exponent r2 = Some (e, r)"
    by (auto simp: json_number_def Let_def s1_def split: if_splits option.splits)
  have "length s1 \<le> length s" by (simp add: s1_def)
  with takeWhile_digits_length [OF ip] json_fraction_consumes [OF f] json_exponent_consumes [OF e]
  show ?thesis by linarith
qed

lemma json_value_consumes:
  "json_read s = Some (v, r) \<Longrightarrow> length r < length s"
  "json_elements acc s = Some (v, r) \<Longrightarrow> length r < length s"
  "json_members macc s = Some (v, r) \<Longrightarrow> length r < length s"
proof (induction s and acc s and macc s arbitrary: v r and v r and v r rule: json_read_json_elements_json_members.induct)
  case (1 s)
  from "1.prems" obtain c rest where c: "skip_ws s = c # rest"
    by (subst (asm) json_read.simps) (auto split: list.splits)
  have len: "length rest < length s" by (rule skip_ws_Cons_length [OF c])
  note IH = "1.IH" [OF c]
  show ?case
  proof (cases "c = CHR ''{'' \<or> c = CHR ''[''")
    case True
    with "1.prems" c consider "length r < length rest"
      | "c = CHR ''{''" "json_members [] rest = Some (v, r)" "\<exists>d r'. skip_ws rest = d # r' \<and> d \<noteq> CHR ''}''"
      | "c = CHR ''[''" "json_elements [] rest = Some (v, r)" "\<exists>d r'. skip_ws rest = d # r' \<and> d \<noteq> CHR '']''"
      by (subst (asm) json_read.simps) (auto split: list.splits if_splits dest: skip_ws_Cons_length)
    then show ?thesis
      by cases (use len IH c in fastforce)+
  next
    case False
    with "1.prems" c skip_ws_length [of s] len show ?thesis
      by (subst (asm) json_read.simps)
         (auto split: list.splits if_splits dest!: json_chars_consumes json_literal_consumes json_number_consumes)
  qed
next
  case (2 acc s)
  from "2.prems" obtain x r1 c r2 where x: "json_read s = Some (x, r1)" and c: "skip_ws r1 = c # r2"
    and split: "v = GArr (acc @ [x]) \<and> r = r2
      \<or> c \<noteq> CHR '']'' \<and> c = CHR '','' \<and> length r2 < length s \<and> json_elements (acc @ [x]) r2 = Some (v, r)"
    by (subst (asm) json_elements.simps) (auto split: option.splits list.splits if_splits)
  from "2.IH"(1) [OF x] skip_ws_Cons_length [OF c] have "length r2 < length s" by linarith
  with split "2.IH"(2) [OF x refl c] show ?case by force
next
  case (3 acc s)
  from "3.prems" obtain r0 k r1 r2 x r3 c r4 where q: "skip_ws s = dquote # r0" and k: "json_chars [] r0 = Some (k, r1)"
    and r2: "skip_ws r1 = CHR '':'' # r2" "length r2 < length s" and x: "json_read r2 = Some (x, r3)" and c: "skip_ws r3 = c # r4"
    and split: "v = GObj (oset k x acc) \<and> r = r4
      \<or> c \<noteq> CHR ''}'' \<and> c = CHR '','' \<and> length r4 < length s \<and> json_members (oset k x acc) r4 = Some (v, r)"
    by (subst (asm) json_members.simps) (auto split: option.splits list.splits if_splits)
  note IH = "3.IH" [OF q _ k refl r2(1)]
  from IH(1) [OF _ _ x] r2 skip_ws_Cons_length [OF c] have "length r4 < length s" by simp
  with split IH(2) [OF _ _ x refl c] r2 show ?case by force
qed

subsection \<open>Reading what was printed\<close>

lemma char_bound: "(of_char c :: nat) < 256"
  by (metis mod_less_divisor of_char_mod_256 zero_less_numeral)

lemma hex_val_digit: "d < 16 \<Longrightarrow> hex_val (hex_digit d) = Some d"
  by (auto simp: hex_val_def hex_digit_def Let_def)

lemma json_char_read: "json_chars acc (json_char c @ t) = json_chars (acc @ [c]) t"
proof -
  let ?n = "of_char c :: nat"
  have "?n div 16 < 16" using char_bound [of c] by (simp add: less_mult_imp_div_less)
  then have hex: "hex4 (CHR ''0'') (CHR ''0'') (hex_digit (?n div 16)) (hex_digit (?n mod 16)) = Some ?n"
    by (simp add: hex4_def hex_val_digit) (simp add: hex_val_def Let_def)
  show ?thesis
    by (simp add: json_char_def hex char_bound unescape_char_def) (simp add: dquote_def)
qed

lemma json_chars_printed: "json_chars acc (concat (map json_char s) @ dquote # r) = Some (acc @ s, r)"
  by (induction s arbitrary: acc) (simp_all add: json_char_read del: json_chars.simps(2), simp)

definition no_number_tail :: "string \<Rightarrow> bool" where
  "no_number_tail r \<longleftrightarrow> r = [] \<or> \<not> is_digit (hd r) \<and> hd r \<notin> {CHR ''.'', CHR ''e'', CHR ''E''}"

lemma takeWhile_digits: "(\<And>c. c \<in> set ds \<Longrightarrow> is_digit c) \<Longrightarrow> r = [] \<or> \<not> is_digit (hd r) \<Longrightarrow>
    takeWhile is_digit (ds @ r) = ds \<and> dropWhile is_digit (ds @ r) = r"
  by (induction ds) (cases r; auto)+

lemma js_of_nat_no_zero: "1 < length (js_of_nat n) \<Longrightarrow> hd (js_of_nat n) \<noteq> CHR ''0''"
proof (induction n rule: js_of_nat.induct)
  case (1 n)
  show ?case
  proof (cases "n < 10")
    case True
    with "1.prems" show ?thesis by (simp add: js_of_nat.simps [of n])
  next
    case False
    show ?thesis
    proof (cases "n div 10 < 10")
      case True
      with False have "hd (js_of_nat n) = digit_char (n div 10)" by (simp add: js_of_nat.simps [of n] js_of_nat.simps [of "n div 10"])
      moreover have "n div 10 \<noteq> 0" using False by simp
      ultimately show ?thesis using True by (auto simp: digit_char_def dest: arg_cong [where f = "of_char :: char \<Rightarrow> nat"])
    next
      case ge: False
      then have "1 < length (js_of_nat (n div 10))"
        using js_of_nat_nonempty [of "n div 10 div 10"] by (subst js_of_nat.simps) (simp add: Suc_lessI)
      with 1(1) [OF False] False show ?thesis
        by (subst js_of_nat.simps) (simp add: js_of_nat_nonempty)
    qed
  qed
qed

lemma is_digit_not [simp]: "\<not> is_digit (CHR ''.'')" "\<not> is_digit (CHR ''e'')" "\<not> is_digit (CHR ''E'')"
  "\<not> is_digit (CHR '','')" "\<not> is_digit (CHR '']'')" "\<not> is_digit (CHR ''}'')"
  by (simp_all add: is_digit_def)

lemma digits_then_tail:
  assumes "no_number_tail r"
  shows "takeWhile is_digit (js_of_nat n @ r) = js_of_nat n" "dropWhile is_digit (js_of_nat n @ r) = r"
  using takeWhile_digits [of "js_of_nat n" r] assms js_of_nat_digits by (auto simp: no_number_tail_def)

lemma number_tail_simps:
  assumes "no_number_tail r"
  shows "json_fraction r = Some ([], r)" "json_exponent r = Some (0, r)"
  using assms by (auto simp: no_number_tail_def json_fraction_def json_exponent_def split: list.splits)

lemma json_number_int:
  assumes "no_number_tail r"
  shows "json_number (js_of_int i @ r) = Some (GNum i, r)"
proof -
  have head: "hd (js_of_nat n @ r) \<noteq> CHR ''-''" for n
    using js_of_nat_nonempty [of n] js_of_nat_no_minus [of n] by (cases "js_of_nat n") auto
  have zero: "\<not> (1 < length (js_of_nat n) \<and> hd (js_of_nat n) = CHR ''0'')" for n
    using js_of_nat_no_zero [of n] by blast
  show ?thesis
    using head zero
    by (simp add: json_number_def js_of_int_def Let_def digits_then_tail [OF assms] number_tail_simps [OF assms]
        js_of_nat_nonempty number_value_def nat_of_js_of_nat)
qed

fun lowest_terms :: "gval \<Rightarrow> bool" where
  "lowest_terms (GDec m n) = (0 < n \<and> m mod 10 \<noteq> 0)"
| "lowest_terms (GArr xs) = list_all lowest_terms xs"
| "lowest_terms (GObj ps) = list_all (\<lambda>(k, v). lowest_terms v) ps"
| "lowest_terms v = True"

lemma nat_of_js_zeros: "nat_of_js (replicate k (CHR ''0'') @ ds) = nat_of_js ds"
proof -
  have "foldl (\<lambda>n c. 10 * n + digit_val c) 0 (replicate k (CHR ''0'')) = 0"
    by (induction k) (simp_all add: digit_val_def)
  then show ?thesis by (simp add: nat_of_js.simps)
qed

lemma js_of_dec_parts:
  obtains ip fp where "js_of_dec m n = (if m < 0 then ''-'' else '''') @ ip @ ''.'' @ fp"
    "ip \<noteq> []" "\<forall>c \<in> set ip. is_digit c" "\<forall>c \<in> set fp. is_digit c" "length fp = n"
    "nat_of_js (ip @ fp) = nat \<bar>m\<bar>" "\<not> (1 < length ip \<and> hd ip = CHR ''0'')"
proof -
  define ds where "ds = js_of_nat (nat \<bar>m\<bar>)"
  define padded where "padded = replicate (Suc n - length ds) (CHR ''0'') @ ds"
  define k where "k = length padded - n"
  have k: "0 < k" "length (drop k padded) = n" by (simp_all add: k_def padded_def)
  have digits: "is_digit c" if "c \<in> set padded" for c
    using that js_of_nat_digits by (auto simp: padded_def ds_def is_digit_def)
  have lead: "\<not> (1 < length (take k padded) \<and> hd (take k padded) = CHR ''0'')"
  proof (cases "length ds \<le> n")
    case True
    then show ?thesis by (simp add: k_def padded_def)
  next
    case False
    then have "padded = ds" by (simp add: padded_def)
    then show ?thesis using js_of_nat_no_zero [of "nat \<bar>m\<bar>"] k(1) by (auto simp: ds_def)
  qed
  show thesis
  proof (rule that [of "take k padded" "drop k padded"])
    show "js_of_dec m n = (if m < 0 then ''-'' else '''') @ take k padded @ ''.'' @ drop k padded"
      by (simp add: js_of_dec_def Let_def ds_def padded_def k_def)
    show "take k padded \<noteq> []" using k(1) by (simp add: k_def) auto
    show "nat_of_js (take k padded @ drop k padded) = nat \<bar>m\<bar>"
      unfolding append_take_drop_id by (simp add: padded_def nat_of_js_zeros ds_def nat_of_js_of_nat)
  qed (use digits k lead in \<open>auto dest: in_set_takeD in_set_dropD\<close>)
qed

lemma json_number_dec:
  assumes "no_number_tail r" and n: "0 < n" and m: "m mod 10 \<noteq> 0"
  shows "json_number (js_of_dec m n @ r) = Some (GDec m n, r)"
proof -
  obtain ip fp where shape: "js_of_dec m n = (if m < 0 then ''-'' else '''') @ ip @ ''.'' @ fp"
    and ip: "ip \<noteq> []" "\<forall>c \<in> set ip. is_digit c" and fp: "\<forall>c \<in> set fp. is_digit c" "length fp = n"
    and val_eq: "nat_of_js (ip @ fp) = nat \<bar>m\<bar>" and lead: "\<not> (1 < length ip \<and> hd ip = CHR ''0'')"
    by (rule js_of_dec_parts)
  have minus: "hd ip \<noteq> CHR ''-''" using ip is_digit_minus by (metis list.set_sel(1))
  have scan: "takeWhile is_digit (ip @ ''.'' @ fp @ r) = ip" "dropWhile is_digit (ip @ ''.'' @ fp @ r) = ''.'' @ fp @ r"
    using takeWhile_digits [of ip "''.'' @ fp @ r"] ip by auto
  have scan_fp: "takeWhile is_digit (fp @ r) = fp" "dropWhile is_digit (fp @ r) = r"
    using takeWhile_digits [of fp r] fp assms(1) by (auto simp: no_number_tail_def)
  have norm: "dec_norm m n = GDec m n" using n m by (cases n) auto
  show ?thesis
    using ip(1) lead minus fp(2) n norm scan scan_fp number_tail_simps(2) [OF assms(1)]
    unfolding shape by (auto simp: json_number_def Let_def json_fraction_def number_value_def val_eq)
qed

subsection \<open>The round trip\<close>

definition starts_value :: "string \<Rightarrow> bool" where
  "starts_value t \<longleftrightarrow> t \<noteq> [] \<and> \<not> json_space (hd t) \<and> hd t \<notin> {CHR '']'', CHR ''}''}"

lemma skip_ws_starts: "starts_value t \<Longrightarrow> skip_ws (t @ r) = t @ r"
  by (cases t) (auto simp: starts_value_def skip_ws_def)

lemma skip_ws_char [simp]: "\<not> json_space c \<Longrightarrow> skip_ws (c # r) = c # r"
  by (simp add: skip_ws_def)

lemma json_space_simps [simp]:
  "\<not> json_space (CHR ''['')" "\<not> json_space (CHR '']'')" "\<not> json_space (CHR ''{'')" "\<not> json_space (CHR ''}'')"
  "\<not> json_space (CHR '','')" "\<not> json_space (CHR '':'')" "\<not> json_space dquote" "\<not> json_space (CHR ''t'')"
  "\<not> json_space (CHR ''f'')" "\<not> json_space (CHR ''n'')" "\<not> json_space (CHR ''-'')"
  by (simp_all add: json_space_def dquote_def)

definition number_start :: "char \<Rightarrow> bool" where
  "number_start c \<longleftrightarrow> is_digit c \<or> c = CHR ''-''"

lemma number_start_js_of_int: "\<exists>c t. js_of_int i = c # t \<and> number_start c"
proof (cases "i < 0")
  case False
  then show ?thesis using js_of_nat_nonempty [of "nat i"] js_of_nat_digits [of _ "nat i"]
    by (cases "js_of_nat (nat i)") (auto simp: js_of_int_def number_start_def)
qed (simp add: js_of_int_def number_start_def)

lemma number_start_js_of_dec: "\<exists>c t. js_of_dec m n = c # t \<and> number_start c"
proof -
  obtain ip fp where "js_of_dec m n = (if m < 0 then ''-'' else '''') @ ip @ ''.'' @ fp"
    "ip \<noteq> []" "\<forall>c \<in> set ip. is_digit c" by (rule js_of_dec_parts)
  then show ?thesis by (cases ip) (auto simp: number_start_def)
qed

lemma number_start_not:
  assumes "number_start c"
  shows "\<not> json_space c" "c \<noteq> CHR ''{''" "c \<noteq> CHR ''[''" "c \<noteq> dquote" "c \<noteq> CHR ''t''" "c \<noteq> CHR ''f''"
    "c \<noteq> CHR ''n''" "c \<noteq> CHR '']''" "c \<noteq> CHR ''}''"
  using assms by (auto simp: number_start_def is_digit_def json_space_def dquote_def)

lemma json_read_number: "number_start c \<Longrightarrow> json_read (c # t) = json_number (c # t)"
  by (subst json_read.simps) (simp add: number_start_not)

lemma json_string_read: "json_read (json_string s @ r) = Some (GStr s, r)"
  using json_chars_printed [of "[]" s r]
  by (subst json_read.simps) (simp add: json_string_def, simp add: dquote_def)

lemma starts_char: "\<not> json_space c \<Longrightarrow> c \<noteq> CHR '']'' \<Longrightarrow> c \<noteq> CHR ''}'' \<Longrightarrow> starts_value (c # q)"
  by (simp add: starts_value_def)

lemma printed_starts:
  assumes "json_stringify v = Some t"
  shows "starts_value t"
proof (cases v)
  case (GNum i)
  then show ?thesis using assms number_start_js_of_int [of i] starts_char number_start_not by auto
next
  case (GDec m n)
  then show ?thesis using assms number_start_js_of_dec [of m n] starts_char number_start_not by auto
next
  case (GStr s)
  then show ?thesis using assms by (auto simp: json_string_def dquote_def json_space_def intro: starts_char)
next
  case (GArr xs)
  then have "t = CHR ''['' # join '','' (map (\<lambda>x. case json_stringify x of None \<Rightarrow> ''null'' | Some t \<Rightarrow> t) xs) @ '']''"
    using assms by (simp add: json_stringify.simps [of "GArr xs"])
  then show ?thesis by (simp add: starts_char)
next
  case (GObj ps)
  then have "\<exists>q. t = CHR ''{'' # q"
    using assms by (auto simp: json_stringify.simps [of "GObj ps"])
  then show ?thesis by (auto intro: starts_char)
qed (use assms in \<open>auto intro: starts_char split: if_splits\<close>)

lemma printed_none: "json_stringify v = None \<longleftrightarrow> json_value v = GUndef"
  by (cases v) (simp_all add: json_stringify.simps [of "GArr _"] json_stringify.simps [of "GObj _"])

abbreviation element_text :: "gval \<Rightarrow> string" where
  "element_text x \<equiv> (case json_stringify x of None \<Rightarrow> ''null'' | Some t \<Rightarrow> t)"

abbreviation element_value :: "gval \<Rightarrow> gval" where
  "element_value x \<equiv> (if json_value x = GUndef then GNull else json_value x)"

lemma element_starts: "starts_value (element_text x)"
  by (auto simp: starts_value_def json_space_def dest: printed_starts split: option.splits)

lemma json_read_null: "json_read (''null'' @ r) = Some (GNull, r)"
  by (subst json_read.simps) (simp add: json_literal_def dquote_def)

lemma no_number_tail_simps [simp]:
  "no_number_tail (CHR '','' # r)" "no_number_tail (CHR '']'' # r)" "no_number_tail (CHR ''}'' # r)"
  by (simp_all add: no_number_tail_def)

lemma elements_read:
  assumes "xs \<noteq> []"
    and "\<And>x t r. x \<in> set xs \<Longrightarrow> json_stringify x = Some t \<Longrightarrow> no_number_tail r \<Longrightarrow>
           json_read (t @ r) = Some (json_value x, r)"
  shows "json_elements acc (join '','' (map element_text xs) @ '']'' @ r) = Some (GArr (acc @ map element_value xs), r)"
  using assms
proof (induction xs arbitrary: acc)
  case (Cons x xs)
  have read: "json_read (element_text x @ q) = Some (element_value x, q)" if "no_number_tail q" for q
    using Cons.prems(2) [of x] that json_read_null printed_none [of x] by (auto split: option.splits)
  show ?case
  proof (cases xs)
    case Nil
    then show ?thesis by (subst json_elements.simps) (simp add: read)
  next
    case (Cons y ys)
    then have ne: "xs \<noteq> []" by simp
    have IH: "json_elements (acc @ [element_value x]) (join '','' (map element_text xs) @ '']'' @ r)
        = Some (GArr (acc @ element_value x # map element_value xs), r)"
      using Cons.IH [OF ne, of "acc @ [element_value x]"] Cons.prems(2) by simp
    show ?thesis using ne IH
      by (subst json_elements.simps) (simp add: join_Cons read)
  qed
qed simp

abbreviation member_texts :: "gobj \<Rightarrow> string list" where
  "member_texts ps \<equiv> concat (map (\<lambda>(k, x). case json_stringify x of None \<Rightarrow> [] | Some t \<Rightarrow> [json_string k @ '':'' @ t]) ps)"

abbreviation member_values :: "gobj \<Rightarrow> gobj" where
  "member_values ps \<equiv> filter (\<lambda>(k, v). v \<noteq> GUndef) (map (\<lambda>(k, v). (k, json_value v)) ps)"

lemma member_none: "member_texts ps = [] \<longleftrightarrow> member_values ps = []"
  by (induction ps) (auto simp: printed_none split: option.splits)

lemma members_read:
  assumes "member_texts ps \<noteq> []" and "distinct (okeys acc @ okeys ps)"
    and "\<And>k x t r. (k, x) \<in> set ps \<Longrightarrow> json_stringify x = Some t \<Longrightarrow> no_number_tail r \<Longrightarrow>
           json_read (t @ r) = Some (json_value x, r)"
  shows "json_members acc (join '','' (member_texts ps) @ ''}'' @ r) = Some (GObj (acc @ member_values ps), r)"
  using assms
proof (induction ps arbitrary: acc)
  case (Cons p ps)
  obtain k x where p: "p = (k, x)" by (cases p)
  show ?case
  proof (cases "json_stringify x")
    case None
    have "json_members acc (join '','' (member_texts ps) @ ''}'' @ r) = Some (GObj (acc @ member_values ps), r)"
    proof (rule Cons.IH)
      show "member_texts ps \<noteq> []" using Cons.prems(1) p None by simp
      show "distinct (okeys acc @ okeys ps)" using Cons.prems(2) p by auto
    qed (use Cons.prems(3) in auto)
    then show ?thesis using printed_none [of x] p None by simp
  next
    case (Some t)
    have new: "oset k (json_value x) acc = acc @ [(k, json_value x)]"
      by (rule oset_new) (use Cons.prems(2) p in auto)
    have val: "json_value x \<noteq> GUndef" using Some printed_none [of x] by auto
    have read: "json_read (t @ q) = Some (json_value x, q)" if "no_number_tail q" for q
      using Cons.prems(3) [of k x] p Some that by simp
    have key: "json_chars [] (concat (map json_char k) @ dquote # q) = Some (k, q)" for q
      using json_chars_printed [of "[]"] by simp
    show ?thesis
    proof (cases "member_texts ps = []")
      case True
      then have "member_values ps = []" by (rule member_none [THEN iffD1])
      moreover have "member_texts (p # ps) = [json_string k @ '':'' @ t]" "member_values (p # ps) = [(k, json_value x)]"
        using True \<open>member_values ps = []\<close> p Some val by simp_all
      ultimately show ?thesis
        by (subst json_members.simps) (simp only: join.simps, simp add: json_string_def key read new)
    next
      case False
      have IH: "json_members (acc @ [(k, json_value x)]) (join '','' (member_texts ps) @ ''}'' @ r)
          = Some (GObj (acc @ (k, json_value x) # member_values ps), r)"
        using Cons.IH [OF False, of "acc @ [(k, json_value x)]"] Cons.prems(2,3) p by auto
      with False p Some val show ?thesis
        by (subst json_members.simps) (simp add: json_string_def join_Cons key read new)
    qed
  qed
qed simp

lemma read_printed:
  "json_stringify v = Some t \<Longrightarrow> wf_gval v \<Longrightarrow> lowest_terms v \<Longrightarrow> no_number_tail r \<Longrightarrow>
   json_read (t @ r) = Some (json_value v, r)"
proof (induction v arbitrary: t r rule: json_stringify.induct)
  case (1 v)
  show ?case
  proof (cases v)
    case GNull
    then show ?thesis using "1.prems" json_read_null by simp
  next
    case (GBool b)
    then have "t = (if b then ''true'' else ''false'')" using "1.prems"(1) by simp
    then show ?thesis unfolding GBool
      by (subst json_read.simps) (simp add: json_literal_def dquote_def skip_ws_def json_space_def)
  next
    case (GNum i)
    then show ?thesis using "1.prems" json_number_int [of r i] number_start_js_of_int [of i] json_read_number by fastforce
  next
    case (GDec m n)
    then show ?thesis using "1.prems" json_number_dec [of r n m] number_start_js_of_dec [of m n] json_read_number by fastforce
  next
    case (GStr s)
    then show ?thesis using "1.prems"(1) json_string_read by auto
  next
    case (GArr xs)
    then have t: "t = ''['' @ join '','' (map element_text xs) @ '']''"
      using "1.prems"(1) by (simp add: json_stringify.simps [of "GArr xs"])
    show ?thesis
    proof (cases "xs = []")
      case True
      then show ?thesis using t GArr by (subst json_read.simps) simp
    next
      case False
      have E: "json_elements [] (join '','' (map element_text xs) @ '']'' @ r) = Some (GArr ([] @ map element_value xs), r)"
      proof (rule elements_read [OF False])
        fix x t r assume "x \<in> set xs" "json_stringify x = Some t" "no_number_tail r"
        then show "json_read (t @ r) = Some (json_value x, r)"
          using "1.IH"(1) [OF GArr] "1.prems" GArr by (auto simp: list_all_iff)
      qed
      obtain q where q: "join '','' (map element_text xs) = element_text (hd xs) @ q"
        using False by (cases xs; cases "tl xs") auto
      obtain c q' where c: "element_text (hd xs) = c # q'" "\<not> json_space c" "c \<noteq> CHR '']''"
        using element_starts [of "hd xs"] by (cases "element_text (hd xs)") (auto simp: starts_value_def)
      show ?thesis unfolding GArr t using E c unfolding q
        by (subst json_read.simps) simp
    qed
  next
    case (GObj ps)
    then have t: "t = ''{'' @ join '','' (member_texts ps) @ ''}''"
      using "1.prems"(1) by (simp add: json_stringify.simps [of "GObj ps"])
    show ?thesis
    proof (cases "member_texts ps = []")
      case True
      then have "member_values ps = []" by (rule member_none [THEN iffD1])
      then have val: "json_value v = GObj []" by (simp add: GObj)
      show ?thesis using t unfolding val True by (subst json_read.simps) simp
    next
      case False
      have M: "json_members [] (join '','' (member_texts ps) @ ''}'' @ r) = Some (GObj ([] @ member_values ps), r)"
      proof (rule members_read [OF False])
        show "distinct (okeys [] @ okeys ps)" using "1.prems"(2) GObj by simp
        fix k x t r assume mem: "(k, x) \<in> set ps" and "json_stringify x = Some t" "no_number_tail r"
        moreover have "wf_gval x" "lowest_terms x" using "1.prems"(2,3) GObj mem by (auto simp: list_all_iff)
        ultimately show "json_read (t @ r) = Some (json_value x, r)" using "1.IH"(2) [OF GObj mem refl] by simp
      qed
      obtain m ms where m: "member_texts ps = m # ms" using False by (cases "member_texts ps") auto
      then have "m \<in> set (member_texts ps)" by simp
      then obtain q where "m = dquote # q" by (auto simp: json_string_def split: option.splits)
      with m obtain q' where q: "join '','' (member_texts ps) = dquote # q'" by (cases ms) auto
      show ?thesis unfolding GObj t using M unfolding q
        by (subst json_read.simps) (simp add: dquote_def json_space_def)
    qed
  qed (use "1.prems" in simp_all)
qed

theorem json_roundtrip:
  assumes "wf_gval v" and "lowest_terms v" and "json_stringify v = Some t"
  shows "json_parse t = Some (json_value v)"
  using read_printed [OF assms(3,1,2), of "[]"] by (simp add: json_parse_def no_number_tail_def skip_ws_def)

end
