(* ===== verification/JsText.thy ===== *)
theory JsText
  imports Json
begin

section \<open>Text: white space, splitting, UTF-8, base64, URI components, numbers\<close>

text \<open>
  The functions of the JavaScript library on strings that the server side and the forms use, and the
  two base64url helpers of \<^verbatim>\<open>router/jwt.ts\<close>. A string of the development is a list of code units below
  256. So the escapes of code points above 255, in UTF-8 or percent notation, count as malformed here;
  no property speaks about such text. \<open>parseInt\<close>, \<open>parseFloat\<close> and \<open>Number\<close> are exact, where
  JavaScript rounds, and \<open>Infinity\<close> and the notations \<open>0x\<close>, \<open>0o\<close>, \<open>0b\<close> count as not a number.

  The lemmas are the round trips: UTF-8, base64, base64url and URI components.
\<close>

subsection \<open>White space, splitting, searching\<close>

definition js_space :: "char \<Rightarrow> bool" where
  "js_space c = (let n = of_char c :: nat in 9 \<le> n \<and> n \<le> 13 \<or> n = 32 \<or> n = 160)"

definition trim :: "string \<Rightarrow> string" where
  "trim s = rev (dropWhile js_space (rev (dropWhile js_space s)))"

text \<open>\<open>s.split(sep)\<close> for a separator of one character.\<close>

fun js_split :: "char \<Rightarrow> string \<Rightarrow> string list" where
  "js_split sep [] = [[]]"
| "js_split sep (c # s) =
     (if c = sep then [] # js_split sep s
      else case js_split sep s of p # ps \<Rightarrow> (c # p) # ps | [] \<Rightarrow> [[c]])"

definition js_includes :: "string \<Rightarrow> string \<Rightarrow> bool" where
  "js_includes s w = sublist w s"

definition replace_char :: "char \<Rightarrow> char \<Rightarrow> string \<Rightarrow> string" where
  "replace_char a b s = map (\<lambda>c. if c = a then b else c) s"

lemma js_split_plain: "sep \<notin> set s \<Longrightarrow> js_split sep s = [s]"
  by (induction s) auto

lemma js_split_append: "sep \<notin> set s \<Longrightarrow> js_split sep (s @ sep # t) = s # js_split sep t"
  by (induction s) auto

lemma js_split_no_sep: "p \<in> set (js_split sep s) \<Longrightarrow> sep \<notin> set p"
  by (induction s arbitrary: p) (fastforce split: if_splits list.splits)+

lemma js_split_join: "join [sep] (js_split sep s) = s"
proof (induction s)
  case (Cons c s)
  then show ?case by (cases "js_split sep s"; cases "tl (js_split sep s)") (auto split: list.splits)
qed simp

lemma scan_upto:
  assumes "x \<notin> set s"
  shows "takeWhile (\<lambda>c. c \<noteq> x) (s @ x # t) = s" "dropWhile (\<lambda>c. c \<noteq> x) (s @ x # t) = x # t"
    "takeWhile (\<lambda>c. c \<noteq> x) s = s" "dropWhile (\<lambda>c. c \<noteq> x) s = []"
  using assms by (induction s) auto

lemma trim_id:
  assumes "s \<noteq> []" "\<not> js_space (hd s)" "\<not> js_space (last s)"
  shows "trim s = s"
proof -
  have "dropWhile js_space s = s" using assms by (cases s) auto
  moreover have "dropWhile js_space (rev s) = rev s" using assms by (cases s rule: rev_cases) auto
  ultimately show ?thesis by (simp add: trim_def)
qed

subsection \<open>UTF-8\<close>

text \<open>\<open>unescape(encodeURIComponent(s))\<close> and \<open>decodeURIComponent(escape(s))\<close>.\<close>

definition utf8_char :: "char \<Rightarrow> string" where
  "utf8_char c =
     (let n = of_char c :: nat in
      if n < 128 then [c] else [char_of (192 + n div 64), char_of (128 + n mod 64)])"

definition utf8_encode :: "string \<Rightarrow> string" where
  "utf8_encode s = concat (map utf8_char s)"

definition utf8_pair :: "char \<Rightarrow> char \<Rightarrow> char option" where
  "utf8_pair c d =
     (let n = of_char c :: nat; m = of_char d :: nat in
      if (n = 194 \<or> n = 195) \<and> 128 \<le> m \<and> m < 192 then Some (char_of ((n - 192) * 64 + (m - 128))) else None)"

fun utf8_decode :: "string \<Rightarrow> string option" where
  "utf8_decode [] = Some []"
| "utf8_decode (c # r) =
     (if (of_char c :: nat) < 128 then map_option ((#) c) (utf8_decode r)
      else case r of
        [] \<Rightarrow> None
      | d # r' \<Rightarrow> (case utf8_pair c d of None \<Rightarrow> None | Some x \<Rightarrow> map_option ((#) x) (utf8_decode r')))"

lemma high_quotient: "128 \<le> n \<Longrightarrow> n < 256 \<Longrightarrow> n div 64 = 2 \<or> n div 64 = 3" for n :: nat
  using div_le_mono [of 128 n 64] less_mult_imp_div_less [of n 4 64] by auto

lemma utf8_pair_char:
  assumes "128 \<le> (of_char c :: nat)"
  shows "utf8_pair (char_of (192 + of_char c div (64::nat))) (char_of (128 + of_char c mod (64::nat))) = Some c"
proof -
  let ?n = "of_char c :: nat"
  have q: "?n div 64 = 2 \<or> ?n div 64 = 3" by (rule high_quotient [OF assms char_bound])
  have m: "?n mod 64 < 64" by simp
  have c: "char_of (?n div 64 * 64 + ?n mod 64) = c" by (simp only: div_mult_mod_eq char_of_char)
  have "(192 + ?n div 64 = 194 \<or> 192 + ?n div 64 = 195)" "192 + ?n div 64 < 256" "128 + ?n mod 64 < 256" using q m by auto
  then show ?thesis using q m c unfolding utf8_pair_def Let_def by auto
qed

lemma utf8_decode_encode: "utf8_decode (utf8_encode s) = Some s"
proof (induction s)
  case (Cons c s)
  have big: "\<not> (of_char (char_of (192 + of_char c div (64::nat)) :: char) :: nat) < 128" if "128 \<le> (of_char c :: nat)"
    using high_quotient [OF that char_bound] by auto
  show ?case using Cons utf8_pair_char [of c] big
    by (simp add: utf8_encode_def utf8_char_def Let_def)
qed (simp add: utf8_encode_def)

lemma utf8_encode_inject [simp]: "utf8_encode s = utf8_encode t \<longleftrightarrow> s = t"
  by (metis option.inject utf8_decode_encode)

subsection \<open>Base64\<close>

definition b64_digit :: "nat \<Rightarrow> char" where
  "b64_digit n =
     (if n < 26 then char_of (65 + n) else if n < 52 then char_of (71 + n)
      else if n < 62 then char_of (n - 4) else if n = 62 then CHR ''+'' else CHR ''/'')"

definition b64_val :: "char \<Rightarrow> nat option" where
  "b64_val c =
     (let n = of_char c in
      if 65 \<le> n \<and> n \<le> 90 then Some (n - 65)
      else if 97 \<le> n \<and> n \<le> 122 then Some (n - 71)
      else if 48 \<le> n \<and> n \<le> 57 then Some (n + 4)
      else if c = CHR ''+'' then Some 62 else if c = CHR ''/'' then Some 63 else None)"

fun sextets :: "nat list \<Rightarrow> nat list" where
  "sextets (a # b # c # r) = [a div 4, a mod 4 * 16 + b div 16, b mod 16 * 4 + c div 64, c mod 64] @ sextets r"
| "sextets [a, b] = [a div 4, a mod 4 * 16 + b div 16, b mod 16 * 4]"
| "sextets [a] = [a div 4, a mod 4 * 16]"
| "sextets [] = []"

fun octets :: "nat list \<Rightarrow> nat list" where
  "octets (w # x # y # z # r) = [w * 4 + x div 16, x mod 16 * 16 + y div 4, y mod 4 * 64 + z] @ octets r"
| "octets [w, x, y] = [w * 4 + x div 16, x mod 16 * 16 + y div 4]"
| "octets [w, x] = [w * 4 + x div 16]"
| "octets _ = []"

text \<open>\<open>btoa\<close>, on bytes.\<close>

definition btoa :: "string \<Rightarrow> string" where
  "btoa s = map b64_digit (sextets (map of_char s))
     @ (if length s mod 3 = 1 then ''=='' else if length s mod 3 = 2 then ''='' else '''')"

text \<open>\<open>atob\<close>: white space is dropped, padding may be left out, bits that are left over are ignored.\<close>

definition drop_padding :: "string \<Rightarrow> string" where
  "drop_padding s =
     (if length s mod 4 = 0 then
        (if suffix ''=='' s then take (length s - 2) s else if suffix ''='' s then take (length s - 1) s else s)
      else s)"

definition atob :: "string \<Rightarrow> string option" where
  "atob s =
     (let t = drop_padding (filter (\<lambda>c. c \<notin> {CHR 0x09, CHR 0x0A, CHR 0x0C, CHR 0x0D, CHR '' ''}) s);
          vs = map b64_val t
      in if length t mod 4 = 1 \<or> None \<in> set vs then None else Some (map char_of (octets (map the vs))))"

text \<open>The helpers of \<^verbatim>\<open>jwt.ts\<close>. \<open>None\<close> is the \<open>InvalidCharacterError\<close> of \<open>atob\<close>.\<close>

definition url_chars :: "string \<Rightarrow> string" where
  "url_chars s = replace_char (CHR ''_'') (CHR ''/'') (replace_char (CHR ''-'') (CHR ''+'') s)"

definition base64UrlParse :: "string \<Rightarrow> string option" where
  "base64UrlParse s = atob (filter (\<lambda>c. \<not> js_space c) (url_chars s))"

definition base64UrlStringify :: "string \<Rightarrow> string" where
  "base64UrlStringify a =
     replace_char (CHR ''/'') (CHR ''_'') (replace_char (CHR ''+'') (CHR ''-'') (filter (\<lambda>c. c \<noteq> CHR ''='') (btoa a)))"

lemma octets_sextets: "list_all (\<lambda>n. n < 256) ns \<Longrightarrow> octets (sextets ns) = ns"
proof (induction ns rule: sextets.induct)
  case (1 a b c r)
  then show ?case by auto
next
  case (2 a b)
  then show ?case by auto
next
  case (3 a)
  then show ?case by auto
qed simp

lemma sextets_bound: "list_all (\<lambda>n. n < 256) ns \<Longrightarrow> list_all (\<lambda>n. n < 64) (sextets ns)"
  by (induction ns rule: sextets.induct) (auto simp: less_mult_imp_div_less)

lemma sextets_length: "length (sextets ns) mod 4 \<noteq> 1"
  by (induction ns rule: sextets.induct) auto

lemma b64_val_digit: "n < 64 \<Longrightarrow> b64_val (b64_digit n) = Some n"
  by (auto simp: b64_val_def b64_digit_def Let_def)

definition b64_char :: "char \<Rightarrow> bool" where
  "b64_char c \<longleftrightarrow> (let n = of_char c :: nat in
     65 \<le> n \<and> n \<le> 90 \<or> 97 \<le> n \<and> n \<le> 122 \<or> 48 \<le> n \<and> n \<le> 57 \<or> c = CHR ''+'' \<or> c = CHR ''/'')"

definition url_char :: "char \<Rightarrow> bool" where
  "url_char c \<longleftrightarrow> (let n = of_char c :: nat in
     65 \<le> n \<and> n \<le> 90 \<or> 97 \<le> n \<and> n \<le> 122 \<or> 48 \<le> n \<and> n \<le> 57 \<or> c = CHR ''-'' \<or> c = CHR ''_'')"

lemma b64_char_digit: "n < 64 \<Longrightarrow> b64_char (b64_digit n)"
  by (auto simp: b64_char_def b64_digit_def Let_def)

lemma b64_char_simps: "b64_char c \<Longrightarrow> c \<noteq> CHR ''='' \<and> c \<noteq> CHR ''-'' \<and> c \<noteq> CHR ''_'' \<and> \<not> js_space c"
  by (auto simp: b64_char_def Let_def js_space_def)

lemma ascii_space_js: "c \<in> {CHR 0x09, CHR 0x0A, CHR 0x0C, CHR 0x0D, CHR '' ''} \<Longrightarrow> js_space c"
  by (auto simp: js_space_def)

definition b64_body :: "string \<Rightarrow> string" where
  "b64_body a = map b64_digit (sextets (map of_char a))"

lemma bytes_bound: "list_all (\<lambda>n. n < (256::nat)) (map of_char a)"
  by (simp add: list_all_iff char_bound)

lemma b64_body_chars: "c \<in> set (b64_body a) \<Longrightarrow> b64_char c"
  using sextets_bound [OF bytes_bound [of a]] by (auto simp: b64_body_def list_all_iff intro: b64_char_digit)

lemma drop_padding_none: "CHR ''='' \<notin> set s \<Longrightarrow> drop_padding s = s"
  by (auto simp: drop_padding_def suffix_def)

lemma atob_body: "atob (b64_body a) = Some a"
proof -
  let ?ns = "map of_char a :: nat list"
  have ns: "list_all (\<lambda>n. n < 64) (sextets ?ns)" by (rule sextets_bound [OF bytes_bound])
  have eq: "CHR ''='' \<notin> set (b64_body a)" using b64_body_chars b64_char_simps by blast
  have sp: "filter (\<lambda>c. c \<notin> {CHR 0x09, CHR 0x0A, CHR 0x0C, CHR 0x0D, CHR '' ''}) (b64_body a) = b64_body a"
    using b64_body_chars b64_char_simps ascii_space_js by (intro filter_True) blast
  have "map b64_val (b64_body a) = map Some (sextets ?ns)"
    using ns by (auto simp: b64_body_def list_all_iff b64_val_digit)
  then have "map (the \<circ> b64_val) (b64_body a) = sextets ?ns"
    by (metis (no_types, lifting) list.map_comp list.map_id0 map_map option.sel comp_apply map_idI)
  moreover have "None \<notin> set (map b64_val (b64_body a))"
    using \<open>map b64_val (b64_body a) = map Some (sextets ?ns)\<close> by auto
  moreover have "length (b64_body a) mod 4 \<noteq> 1" using sextets_length by (simp add: b64_body_def)
  ultimately show ?thesis
    unfolding atob_def sp Let_def drop_padding_none [OF eq]
    using octets_sextets [OF bytes_bound] by (simp add: comp_def)
qed

lemma url_stringify: "url_chars (base64UrlStringify a) = b64_body a"
  and stringify_chars: "c \<in> set (base64UrlStringify a) \<Longrightarrow> url_char c"
proof -
  have eq: "CHR ''='' \<notin> set (b64_body a)" using b64_body_chars b64_char_simps by blast
  have body: "filter (\<lambda>c. c \<noteq> CHR ''='') (btoa a) = b64_body a"
    using eq by (auto simp: btoa_def b64_body_def [symmetric] filter_id_conv)
  show "url_chars (base64UrlStringify a) = b64_body a"
    unfolding base64UrlStringify_def body
    using b64_body_chars [of _ a] b64_char_simps
    by (auto simp: url_chars_def replace_char_def intro!: map_idI)
  show "c \<in> set (base64UrlStringify a) \<Longrightarrow> url_char c"
  proof -
    assume "c \<in> set (base64UrlStringify a)"
    then obtain d where "d \<in> set (b64_body a)"
      "c = (if (if d = CHR ''+'' then CHR ''-'' else d) = CHR ''/'' then CHR ''_'' else if d = CHR ''+'' then CHR ''-'' else d)"
      unfolding base64UrlStringify_def body by (auto simp: replace_char_def)
    with b64_body_chars [of d a] show "url_char c"
      by (auto simp: b64_char_def url_char_def Let_def)
  qed
qed

lemma base64Url_roundtrip: "base64UrlParse (base64UrlStringify a) = Some a"
proof -
  have "filter (\<lambda>c. \<not> js_space c) (b64_body a) = b64_body a"
    using b64_body_chars b64_char_simps by (intro filter_True) blast
  then show ?thesis by (simp add: base64UrlParse_def url_stringify atob_body)
qed

lemma atob_btoa: "atob (btoa a) = Some a"
proof -
  have sp: "filter (\<lambda>c. c \<notin> {CHR 0x09, CHR 0x0A, CHR 0x0C, CHR 0x0D, CHR '' ''}) (b64_body a) = b64_body a"
    using b64_body_chars b64_char_simps ascii_space_js by (intro filter_True) blast
  have eq: "CHR ''='' \<notin> set (b64_body a)" using b64_body_chars b64_char_simps by blast
  have len: "length (b64_body a) mod 4 = (if length a mod 3 = 1 then 2 else if length a mod 3 = 2 then 3 else 0)"
  proof -
    have "length (sextets ns) mod 4 = (if length ns mod 3 = 1 then 2 else if length ns mod 3 = 2 then 3 else 0)" for ns
      by (induction ns rule: sextets.induct) auto
    then show ?thesis by (simp add: b64_body_def)
  qed
  have "drop_padding (btoa a) = b64_body a"
    using len drop_padding_none [OF eq] eq
    by (auto simp: btoa_def b64_body_def [symmetric] drop_padding_def suffix_def mod_Suc split: if_splits)
  then have "atob (btoa a) = atob (b64_body a)"
    unfolding atob_def using sp eq drop_padding_none [OF eq]
    by (simp add: btoa_def b64_body_def [symmetric])
  then show ?thesis by (simp add: atob_body)
qed

subsection \<open>URI components\<close>

definition uri_unreserved :: "char \<Rightarrow> bool" where
  "uri_unreserved c \<longleftrightarrow> (let n = of_char c :: nat in
     65 \<le> n \<and> n \<le> 90 \<or> 97 \<le> n \<and> n \<le> 122 \<or> 48 \<le> n \<and> n \<le> 57 \<or> c \<in> set (''-_.!~*()'' @ [CHR 0x27]))"

definition hex_upper :: "nat \<Rightarrow> char" where
  "hex_upper d = (if d < 10 then char_of (48 + d) else char_of (55 + d))"

definition percent :: "char \<Rightarrow> string" where
  "percent c = [CHR ''%'', hex_upper (of_char c div 16), hex_upper (of_char c mod 16)]"

definition uri_char :: "char \<Rightarrow> string" where
  "uri_char c = (if uri_unreserved c then [c] else concat (map percent (utf8_char c)))"

definition encodeURIComponent :: "string \<Rightarrow> string" where
  "encodeURIComponent s = concat (map uri_char s)"

definition hex2 :: "char \<Rightarrow> char \<Rightarrow> char option" where
  "hex2 a b = (case (hex_val a, hex_val b) of (Some x, Some y) \<Rightarrow> Some (char_of (x * 16 + y)) | _ \<Rightarrow> None)"

text \<open>\<open>None\<close> is the \<open>URIError\<close>.\<close>

fun decodeURIComponent :: "string \<Rightarrow> string option" where
  "decodeURIComponent [] = Some []"
| "decodeURIComponent (c # r) =
     (if c \<noteq> CHR ''%'' then map_option ((#) c) (decodeURIComponent r)
      else case r of
        a # b # r' \<Rightarrow>
          (case hex2 a b of
             None \<Rightarrow> None
           | Some x \<Rightarrow>
               if (of_char x :: nat) < 128 then map_option ((#) x) (decodeURIComponent r')
               else (case r' of
                  p # d # e # r'' \<Rightarrow>
                    if p \<noteq> CHR ''%'' then None
                    else (case hex2 d e of
                       None \<Rightarrow> None
                     | Some y \<Rightarrow>
                         (case utf8_pair x y of
                            None \<Rightarrow> None
                          | Some z \<Rightarrow> map_option ((#) z) (decodeURIComponent r'')))
                | _ \<Rightarrow> None))
      | _ \<Rightarrow> None)"

lemma hex_val_upper: "d < 16 \<Longrightarrow> hex_val (hex_upper d) = Some d"
  by (auto simp: hex_val_def hex_upper_def Let_def)

lemma hex2_percent: "hex2 (hex_upper (of_char c div 16)) (hex_upper (of_char c mod 16)) = Some c"
proof -
  have "(of_char c :: nat) div 16 < 16" using char_bound [of c] by (simp add: less_mult_imp_div_less)
  moreover have "char_of ((of_char c :: nat) div 16 * 16 + of_char c mod 16) = c"
    by (simp only: div_mult_mod_eq char_of_char)
  ultimately show ?thesis by (simp add: hex2_def hex_val_upper)
qed

lemma decode_uri_char: "decodeURIComponent (uri_char c @ s) = map_option ((#) c) (decodeURIComponent s)"
proof (cases "uri_unreserved c")
  case True
  then have "c \<noteq> CHR ''%''" by (auto simp: uri_unreserved_def Let_def)
  with True show ?thesis by (simp add: uri_char_def)
next
  case False
  show ?thesis
  proof (cases "(of_char c :: nat) < 128")
    case True
    with False show ?thesis by (simp add: uri_char_def utf8_char_def Let_def percent_def hex2_percent)
  next
    case ge: False
    then have c: "128 \<le> (of_char c :: nat)" by simp
    let ?x = "char_of (192 + of_char c div (64::nat)) :: char"
    let ?y = "char_of (128 + of_char c mod (64::nat)) :: char"
    have x: "\<not> (of_char ?x :: nat) < 128"
      using high_quotient [OF c char_bound] by auto
    have shape: "uri_char c = percent ?x @ percent ?y"
      using False ge by (simp add: uri_char_def utf8_char_def Let_def)
    have hx: "hex2 (hex_upper (of_char ?x div 16)) (hex_upper (of_char ?x mod 16)) = Some ?x"
      and hy: "hex2 (hex_upper (of_char ?y div 16)) (hex_upper (of_char ?y mod 16)) = Some ?y"
      by (rule hex2_percent)+
    show ?thesis
      unfolding shape percent_def using x utf8_pair_char [OF c] hx hy
      by (simp del: char_of_mod_256 of_char_of)
  qed
qed

lemma decode_no_percent: "CHR ''%'' \<notin> set s \<Longrightarrow> decodeURIComponent s = Some s"
  by (induction s) auto

theorem decode_encode_component: "decodeURIComponent (encodeURIComponent s) = Some s"
  by (induction s) (simp_all add: encodeURIComponent_def decode_uri_char)

definition uri_safe :: "char \<Rightarrow> bool" where
  "uri_safe c \<longleftrightarrow> uri_unreserved c \<or> c = CHR ''%''"

lemma hex_upper_unreserved: "d < 16 \<Longrightarrow> uri_unreserved (hex_upper d)"
  by (auto simp: uri_unreserved_def hex_upper_def Let_def)

lemma encoded_chars: "c \<in> set (encodeURIComponent s) \<Longrightarrow> uri_safe c"
proof -
  have p: "c \<in> set (percent d) \<Longrightarrow> uri_safe c" for d
  proof -
    have "(of_char d :: nat) div 16 < 16" using char_bound [of d] by (simp add: less_mult_imp_div_less)
    then show "c \<in> set (percent d) \<Longrightarrow> uri_safe c" by (auto simp: percent_def uri_safe_def hex_upper_unreserved)
  qed
  assume "c \<in> set (encodeURIComponent s)"
  then obtain x where x: "c \<in> set (uri_char x)" by (auto simp: encodeURIComponent_def)
  then show ?thesis using p by (auto simp: uri_char_def uri_safe_def [of c] split: if_splits)
qed

subsection \<open>Numbers in text\<close>

definition parseInt10 :: "string \<Rightarrow> int option" where
  "parseInt10 s =
     (let t = dropWhile js_space s;
          neg = (t \<noteq> [] \<and> hd t = CHR ''-'');
          u = (if t \<noteq> [] \<and> (hd t = CHR ''-'' \<or> hd t = CHR ''+'') then tl t else t);
          ds = takeWhile is_digit u
      in if ds = [] then None else Some (if neg then - int (nat_of_js ds) else int (nat_of_js ds)))"

text \<open>The decimal literal at the start of a text, with what follows it.\<close>

definition js_decimal :: "string \<Rightarrow> (gval \<times> string) option" where
  "js_decimal t =
     (let neg = (t \<noteq> [] \<and> hd t = CHR ''-'');
          u = (if t \<noteq> [] \<and> (hd t = CHR ''-'' \<or> hd t = CHR ''+'') then tl t else t);
          ip = takeWhile is_digit u; r1 = dropWhile is_digit u;
          dot = (r1 \<noteq> [] \<and> hd r1 = CHR ''.'');
          fp = (if dot then takeWhile is_digit (tl r1) else []);
          r2 = (if dot then dropWhile is_digit (tl r1) else r1)
      in if ip = [] \<and> fp = [] then None
         else case json_exponent r2 of
           None \<Rightarrow> Some (number_value neg ip fp 0, r2)
         | Some (e, r3) \<Rightarrow> Some (number_value neg ip fp e, r3))"

definition parseFloat :: "string \<Rightarrow> gval option" where
  "parseFloat s = map_option fst (js_decimal (dropWhile js_space s))"

text \<open>\<open>Number(v)\<close>: \<open>None\<close> is NaN. An array is converted by way of its string.\<close>

definition text_number :: "string \<Rightarrow> gval option" where
  "text_number s =
     (let t = trim s in
      if t = [] then Some (GNum 0)
      else case js_decimal t of Some (v, []) \<Rightarrow> Some v | _ \<Rightarrow> None)"

fun to_number :: "gval \<Rightarrow> gval option" where
  "to_number (GNum i) = Some (GNum i)"
| "to_number (GDec m n) = Some (GDec m n)"
| "to_number (GBool b) = Some (GNum (if b then 1 else 0))"
| "to_number GNull = Some (GNum 0)"
| "to_number (GStr s) = text_number s"
| "to_number (GArr xs) = text_number (js_string (GArr xs))"
| "to_number v = None"

text \<open>\<open>v > n\<close> and \<open>v <= n\<close> for an integer \<open>n\<close>: a comparison with NaN is false.\<close>

definition num_greater :: "gval \<Rightarrow> int \<Rightarrow> bool" where
  "num_greater v n = (case v of GNum i \<Rightarrow> i > n | GDec m k \<Rightarrow> m > n * 10 ^ k | _ \<Rightarrow> False)"

definition js_greater :: "gval \<Rightarrow> int \<Rightarrow> bool" where
  "js_greater v n = (case to_number v of None \<Rightarrow> False | Some x \<Rightarrow> num_greater x n)"

definition js_at_most :: "gval \<Rightarrow> int \<Rightarrow> bool" where
  "js_at_most v n = (case to_number v of None \<Rightarrow> False | Some x \<Rightarrow> \<not> num_greater x n)"

lemma js_compare_int [simp]: "js_greater (GNum i) n \<longleftrightarrow> i > n" "js_at_most (GNum i) n \<longleftrightarrow> i \<le> n"
  by (auto simp: js_greater_def js_at_most_def num_greater_def)

lemma nat_digits_scan: "takeWhile is_digit (js_of_nat n) = js_of_nat n" "dropWhile is_digit (js_of_nat n) = []"
  using js_of_nat_digits by (auto simp: takeWhile_eq_all_conv)

lemma js_of_nat_head: "hd (js_of_nat n) \<noteq> CHR ''-''" "hd (js_of_nat n) \<noteq> CHR ''+''" "\<not> js_space (hd (js_of_nat n))"
proof -
  have d: "is_digit (hd (js_of_nat n))" by (rule js_of_nat_digits [of _ n]) (simp add: js_of_nat_nonempty)
  then show "hd (js_of_nat n) \<noteq> CHR ''-''" "hd (js_of_nat n) \<noteq> CHR ''+''" "\<not> js_space (hd (js_of_nat n))"
    by (auto simp: is_digit_def js_space_def Let_def)
qed

lemma parseInt_printed: "parseInt10 (js_of_int i) = Some i"
proof -
  have "dropWhile js_space (js_of_nat n) = js_of_nat n" for n
    using js_of_nat_head(3) [of n] js_of_nat_nonempty [of n] by (cases "js_of_nat n") auto
  moreover have "\<not> js_space (CHR ''-'')" by (simp add: js_space_def)
  ultimately show ?thesis
    using js_of_nat_head js_of_nat_nonempty
    by (auto simp: parseInt10_def js_of_int_def Let_def nat_digits_scan nat_of_js_of_nat)
qed

subsection \<open>Members of every object\<close>

definition object_members :: "string list" where
  "object_members = [''constructor'', ''__defineGetter__'', ''__defineSetter__'', ''hasOwnProperty'',
     ''__lookupGetter__'', ''__lookupSetter__'', ''isPrototypeOf'', ''propertyIsEnumerable'', ''toString'',
     ''valueOf'', ''__proto__'', ''toLocaleString'']"

subsection \<open>Entries of a form\<close>

text \<open>A value of \<open>FormData\<close>: text, or an upload (the identity of a \<open>File\<close>).\<close>

datatype form_value = Field string | Upload nat

subsection \<open>Dates\<close>

text \<open>\<open>toUTCString\<close> of a time in milliseconds: days since 1 March of year 0 give year, month and day.\<close>

definition two_digits :: "int \<Rightarrow> string" where
  "two_digits n = (if n < 10 then ''0'' else []) @ js_of_int n"

definition day_names :: "string list" where
  "day_names = [''Sun'', ''Mon'', ''Tue'', ''Wed'', ''Thu'', ''Fri'', ''Sat'']"

definition month_names :: "string list" where
  "month_names = [''Mar'', ''Apr'', ''May'', ''Jun'', ''Jul'', ''Aug'', ''Sep'', ''Oct'', ''Nov'', ''Dec'', ''Jan'', ''Feb'']"

definition civil_date :: "int \<Rightarrow> int \<times> int \<times> int" where
  "civil_date days =
     (let z = days + 719468; era = z div 146097; doe = z mod 146097;
          yoe = (doe - doe div 1460 + doe div 36524 - doe div 146096) div 365;
          doy = doe - (365 * yoe + yoe div 4 - yoe div 100);
          mp = (5 * doy + 2) div 153
      in (yoe + era * 400 + (if mp < 10 then 0 else 1), mp, doy - (153 * mp + 2) div 5 + 1))"

definition toUTCString :: "int \<Rightarrow> string" where
  "toUTCString ms =
     (let days = ms div 86400000; secs = ms mod 86400000 div 1000; (y, mp, d) = civil_date days
      in day_names ! nat ((days + 4) mod 7) @ '', '' @ two_digits d @ '' '' @ month_names ! nat mp @ '' '' @ js_of_int y @ '' ''
         @ two_digits (secs div 3600) @ '':'' @ two_digits (secs mod 3600 div 60) @ '':'' @ two_digits (secs mod 60) @ '' GMT'')"

lemma toUTCString_example: "toUTCString 1709212245000 = ''Thu, 29 Feb 2024 13:10:45 GMT''"
  by code_simp

end
