(* ===== verification/Jwt.thy ===== *)
theory Jwt
  imports JsText
begin

section \<open>JSON web tokens\<close>

text \<open>
  \<^verbatim>\<open>router/jwt.ts\<close> with the options that its callers use, \<open>HS256\<close> and a secret that is a string. The
  keyed hash of the platform, HMAC with SHA-256, is the parameter \<open>mac\<close>, from the bytes of a key and
  the bytes of a message to the bytes of the signature; the import of a key that starts like a PEM block
  or is empty is refused by the platform. The clock is the parameter \<open>now\<close>, in milliseconds.

  The laws: a token that was made verifies until it expires and decodes to its payload
  (\<open>jwt_roundtrip\<close>); a token that verifies carries the keyed hash of exactly its first two parts and
  has not expired (\<open>jwt_accepted\<close>); under a hash without collisions, no part of the body can change and
  no other key accepts the token (\<open>jwt_binding\<close>).
\<close>

type_synonym mac = "string \<Rightarrow> string \<Rightarrow> string"

definition utf8ToUint8Array :: "string \<Rightarrow> string option" where
  "utf8ToUint8Array str = base64UrlParse (btoa (utf8_encode str))"

text \<open>\<open>_decodePayload\<close> on text whose URL characters were replaced: the illegal length throws, every
  other failure is \<open>null\<close>.\<close>

definition decodePayload :: "string \<Rightarrow> js_error + gval" where
  "decodePayload raw0 =
     sbind (if length raw0 mod 4 = 0 then Inr raw0
            else if length raw0 mod 4 = 2 then Inr (raw0 @ ''=='')
            else if length raw0 mod 4 = 3 then Inr (raw0 @ ''='')
            else Inl (Thrown ''Illegal base64url string!''))
       (\<lambda>raw. Inr (case atob raw of
          None \<Rightarrow> GNull
        | Some bytes \<Rightarrow>
            (case utf8_decode bytes of
               None \<Rightarrow> GNull
             | Some t \<Rightarrow> (case json_parse t of None \<Rightarrow> GNull | Some v \<Rightarrow> v))))"

text \<open>\<open>decode\<close>: header and payload.\<close>

definition jwt_decode :: "string \<Rightarrow> js_error + gval \<times> gval" where
  "jwt_decode token =
     (case js_split (CHR ''.'') token of
        h # p # _ \<Rightarrow>
          sbind (decodePayload (url_chars h)) (\<lambda>header.
            sbind (decodePayload (url_chars p)) (\<lambda>payload. Inr (header, payload)))
      | h # [] \<Rightarrow> sbind (decodePayload (url_chars h)) (\<lambda>header. Inl (TypeError ''replace of undefined''))
      | [] \<Rightarrow> Inl (TypeError ''replace of undefined''))"

text \<open>The bytes of a secret as \<open>crypto.subtle.importKey\<close> takes them.\<close>

definition import_key :: "string \<Rightarrow> js_error + string" where
  "import_key secret =
     (if prefix ''-----BEGIN'' secret then Inl (Thrown ''importKey'')
      else case utf8ToUint8Array secret of
        None \<Rightarrow> Inl (Thrown ''atob'')
      | Some key \<Rightarrow> if key = [] then Inl (Thrown ''importKey'') else Inr key)"

definition text_bytes :: "string \<Rightarrow> js_error + string" where
  "text_bytes s = (case utf8ToUint8Array s of None \<Rightarrow> Inl (Thrown ''atob'') | Some b \<Rightarrow> Inr b)"

text \<open>\<open>Math.floor(Date.now() / 1000)\<close>.\<close>

definition seconds :: "int \<Rightarrow> int" where
  "seconds now = now div 1000"

definition stamped :: "int \<Rightarrow> gobj \<Rightarrow> gobj" where
  "stamped now payload = (if truthy (prop_of payload ''iat'') then payload else oset ''iat'' (GNum (seconds now)) payload)"

definition jwt_header :: gobj where
  "jwt_header = [(''typ'', GStr ''JWT''), (''alg'', GStr ''HS256'')]"

definition jwt_encode :: "mac \<Rightarrow> int \<Rightarrow> gobj \<Rightarrow> string \<Rightarrow> js_error + string" where
  "jwt_encode mac now payload secret =
     sbind (text_bytes (json_text (GObj jwt_header))) (\<lambda>h.
     sbind (text_bytes (json_text (GObj (stamped now payload)))) (\<lambda>p.
       let partialToken = base64UrlStringify h @ ''.'' @ base64UrlStringify p in
       sbind (import_key secret) (\<lambda>key.
       sbind (text_bytes partialToken) (\<lambda>message.
         Inr (partialToken @ ''.'' @ base64UrlStringify (mac key message))))))"

definition jwt_verify :: "mac \<Rightarrow> int \<Rightarrow> string \<Rightarrow> string \<Rightarrow> js_error + bool" where
  "jwt_verify mac now token secret =
     (case js_split (CHR ''.'') token of
        [h, p, s] \<Rightarrow>
          sbind (jwt_decode token) (\<lambda>(header, payload).
            if \<not> truthy payload then Inr False
            else if truthy (gprop payload ''nbf'') \<and> js_greater (gprop payload ''nbf'') (seconds now) then Inr False
            else if truthy (gprop payload ''exp'') \<and> js_at_most (gprop payload ''exp'') (seconds now) then Inr False
            else
              sbind (import_key secret) (\<lambda>key.
                case base64UrlParse s of
                  None \<Rightarrow> Inl (Thrown ''atob'')
                | Some signature \<Rightarrow>
                    sbind (text_bytes (h @ ''.'' @ p)) (\<lambda>message. Inr (signature = mac key message))))
      | _ \<Rightarrow> Inl (Thrown ''token must consist of 3 parts''))"

subsection \<open>Laws\<close>

lemma utf8ToUint8Array_bytes: "utf8ToUint8Array s = Some (utf8_encode s)"
proof -
  have "filter (\<lambda>c. \<not> js_space c) (url_chars (btoa b)) = btoa b" for b
  proof -
    have c: "b64_char c \<or> c = CHR ''=''" if "c \<in> set (btoa b)" for c
      using that b64_body_chars [of c b] by (auto simp: btoa_def b64_body_def split: if_splits)
    then have "url_chars (btoa b) = btoa b"
      using b64_char_simps by (force simp: url_chars_def replace_char_def intro!: map_idI)
    moreover have "filter (\<lambda>c. \<not> js_space c) (btoa b) = btoa b"
      using c b64_char_simps by (force simp: js_space_def Let_def filter_id_conv)
    ultimately show ?thesis by simp
  qed
  then show ?thesis by (simp add: utf8ToUint8Array_def base64UrlParse_def atob_btoa)
qed

lemma text_bytes_encode [simp]: "text_bytes s = Inr (utf8_encode s)"
  by (simp add: text_bytes_def utf8ToUint8Array_bytes)

definition usable_secret :: "string \<Rightarrow> bool" where
  "usable_secret secret \<longleftrightarrow> secret \<noteq> [] \<and> \<not> prefix ''-----BEGIN'' secret"

lemma import_key_usable: "import_key secret = (if usable_secret secret then Inr (utf8_encode secret) else Inl (Thrown ''importKey''))"
proof -
  have "utf8_encode [] = []" by (simp add: utf8_encode_def)
  then have "utf8_encode secret = [] \<longleftrightarrow> secret = []" by (metis utf8_encode_inject)
  then show ?thesis by (auto simp: import_key_def usable_secret_def utf8ToUint8Array_bytes)
qed

text \<open>A token with the given body and signature bytes.\<close>

definition token_body :: "int \<Rightarrow> gobj \<Rightarrow> string" where
  "token_body now payload = base64UrlStringify (utf8_encode (json_text (GObj jwt_header))) @ ''.''
     @ base64UrlStringify (utf8_encode (json_text (GObj (stamped now payload))))"

lemma jwt_encode_eq:
  "jwt_encode mac now payload secret =
     (if usable_secret secret then
        Inr (token_body now payload @ ''.'' @ base64UrlStringify (mac (utf8_encode secret) (utf8_encode (token_body now payload))))
      else Inl (Thrown ''importKey''))"
  by (simp add: jwt_encode_def import_key_usable token_body_def Let_def)

lemma stringify_no_dot: "CHR ''.'' \<notin> set (base64UrlStringify b)"
  using stringify_chars [of "CHR ''.''" b] by (auto simp: url_char_def)

lemma token_split:
  "js_split (CHR ''.'') (base64UrlStringify a @ ''.'' @ base64UrlStringify b @ ''.'' @ base64UrlStringify c)
     = [base64UrlStringify a, base64UrlStringify b, base64UrlStringify c]"
  by (simp add: js_split_append js_split_plain stringify_no_dot)

lemma decodePayload_stringify:
  "decodePayload (url_chars (base64UrlStringify (utf8_encode t))) = Inr (case json_parse t of None \<Rightarrow> GNull | Some v \<Rightarrow> v)"
proof -
  let ?b = "b64_body (utf8_encode t)"
  have len: "length ?b mod 4 \<noteq> 1" using sextets_length by (simp add: b64_body_def)
  have eq: "CHR ''='' \<notin> set ?b" using b64_body_chars b64_char_simps by blast
  have pad: "atob (?b @ q) = atob ?b" if "q = '''' \<or> length ?b mod 4 = 2 \<and> q = ''=='' \<or> length ?b mod 4 = 3 \<and> q = ''=''" for q
  proof -
    let ?f = "filter (\<lambda>c. c \<notin> {CHR 0x09, CHR 0x0A, CHR 0x0C, CHR 0x0D, CHR '' ''})"
    have sp: "?f ?b = ?b"
      using b64_body_chars b64_char_simps ascii_space_js by (intro filter_True) blast
    have "?f q = q" using that by auto
    then have "?f (?b @ q) = ?b @ q" by (simp only: filter_append sp)
    moreover have "drop_padding (?b @ q) = ?b"
      using that eq drop_padding_none [OF eq] by (auto simp: drop_padding_def suffix_def mod_Suc)
    ultimately show ?thesis unfolding atob_def sp by (simp add: drop_padding_none [OF eq])
  qed
  show ?thesis
    using len pad by (auto simp: decodePayload_def url_stringify atob_body utf8_decode_encode)
qed

lemma encoded_parts:
  assumes "jwt_encode mac now payload secret = Inr token"
  obtains c where "token = base64UrlStringify (utf8_encode (json_text (GObj jwt_header))) @ ''.''
     @ base64UrlStringify (utf8_encode (json_text (GObj (stamped now payload)))) @ ''.'' @ base64UrlStringify c"
    "c = mac (utf8_encode secret) (utf8_encode (token_body now payload))" "usable_secret secret"
  using assms by (auto simp: jwt_encode_eq token_body_def split: if_splits)

definition json_pure :: "gval \<Rightarrow> bool" where
  "json_pure v \<longleftrightarrow> wf_gval v \<and> lowest_terms v \<and> json_value v = v \<and> v \<noteq> GUndef"

lemma json_pure_text: "json_pure v \<Longrightarrow> json_parse (json_text v) = Some v"
  using json_roundtrip [of v] printed_none [of v] by (auto simp: json_pure_def json_text_def split: option.splits)

lemma header_text: "json_parse (json_text (GObj jwt_header)) = Some (GObj jwt_header)"
  by (rule json_pure_text) (simp add: json_pure_def jwt_header_def)

lemma jwt_decode_encoded:
  assumes "jwt_encode mac now payload secret = Inr token" and "json_pure (GObj (stamped now payload))"
  shows "jwt_decode token = Inr (GObj jwt_header, GObj (stamped now payload))"
proof -
  obtain c where "token = base64UrlStringify (utf8_encode (json_text (GObj jwt_header))) @ ''.''
     @ base64UrlStringify (utf8_encode (json_text (GObj (stamped now payload)))) @ ''.'' @ base64UrlStringify c"
    using encoded_parts [OF assms(1)] by blast
  then show ?thesis using json_pure_text [OF assms(2)]
    by (simp add: jwt_decode_def token_split [simplified] decodePayload_stringify header_text)
qed

definition claims_live :: "int \<Rightarrow> gval \<Rightarrow> bool" where
  "claims_live now payload \<longleftrightarrow>
     \<not> (truthy (gprop payload ''nbf'') \<and> js_greater (gprop payload ''nbf'') (seconds now)) \<and>
     \<not> (truthy (gprop payload ''exp'') \<and> js_at_most (gprop payload ''exp'') (seconds now))"

lemma jwt_verify_encoded:
  assumes "jwt_encode mac now payload secret = Inr token" and "json_pure (GObj (stamped now payload))"
  shows "jwt_verify mac now' token secret = Inr (claims_live now' (GObj (stamped now payload)))"
proof -
  obtain c where t: "token = base64UrlStringify (utf8_encode (json_text (GObj jwt_header))) @ ''.''
     @ base64UrlStringify (utf8_encode (json_text (GObj (stamped now payload)))) @ ''.'' @ base64UrlStringify c"
    and c: "c = mac (utf8_encode secret) (utf8_encode (token_body now payload))" "usable_secret secret"
    using encoded_parts [OF assms(1)] by blast
  have "js_split (CHR ''.'') token = [base64UrlStringify (utf8_encode (json_text (GObj jwt_header))),
      base64UrlStringify (utf8_encode (json_text (GObj (stamped now payload)))), base64UrlStringify c]"
    unfolding t by (rule token_split)
  then show ?thesis
    using c by (simp add: jwt_verify_def jwt_decode_encoded [OF assms] base64Url_roundtrip import_key_usable
        token_body_def claims_live_def)
qed

lemma jwt_accepted:
  assumes "jwt_verify mac now token secret = Inr True"
  shows "\<exists>h p s header payload. js_split (CHR ''.'') token = [h, p, s] \<and> usable_secret secret \<and>
     base64UrlParse s = Some (mac (utf8_encode secret) (utf8_encode (h @ ''.'' @ p))) \<and>
     jwt_decode token = Inr (header, payload) \<and> truthy payload \<and> claims_live now payload"
proof -
  from assms obtain h p s where hps: "js_split (CHR ''.'') token = [h, p, s]"
    by (auto simp: jwt_verify_def split: list.splits)
  from assms hps obtain header payload where d: "jwt_decode token = Inr (header, payload)"
    by (auto simp: jwt_verify_def sbind_simps)
  from assms hps d have "truthy payload" "claims_live now payload" "usable_secret secret"
    by (auto simp: jwt_verify_def claims_live_def import_key_usable split: if_splits)
  moreover from assms hps d this have "base64UrlParse s = Some (mac (utf8_encode secret) (utf8_encode (h @ ''.'' @ p)))"
    by (auto simp: jwt_verify_def claims_live_def import_key_usable split: if_splits option.splits)
  ultimately show ?thesis using hps d by blast
qed

text \<open>The signature part of a token, as bytes.\<close>

definition signature_of :: "string \<Rightarrow> string option" where
  "signature_of token = (case js_split (CHR ''.'') token of [h, p, s] \<Rightarrow> base64UrlParse s | _ \<Rightarrow> None)"

definition body_of :: "string \<Rightarrow> string" where
  "body_of token = (case js_split (CHR ''.'') token of [h, p, s] \<Rightarrow> h @ ''.'' @ p | _ \<Rightarrow> [])"

lemma encoded_signature:
  assumes "jwt_encode mac now payload secret = Inr token"
  shows "signature_of token = Some (mac (utf8_encode secret) (utf8_encode (body_of token)))"
    and "body_of token = token_body now payload"
  using encoded_parts [OF assms] token_split
  by (metis (no_types, lifting) list.simps(4) list.simps(5) signature_of_def body_of_def base64Url_roundtrip token_body_def append.assoc)+

lemma decode_body: "js_split (CHR ''.'') t = [h, p, s] \<Longrightarrow> js_split (CHR ''.'') t' = [h, p, s'] \<Longrightarrow> jwt_decode t = jwt_decode t'"
  by (simp add: jwt_decode_def)

text \<open>Under a keyed hash without collisions, a token that bears the signature of one that was issued is
  accepted only under the key it was issued with, and says what that one says.\<close>

lemma jwt_binding:
  assumes free: "\<And>k m k' m'. mac k m = mac k' m' \<Longrightarrow> k = k' \<and> m = m'"
    and accepted: "jwt_verify mac now' token' secret' = Inr True"
    and issued: "jwt_encode mac now payload secret = Inr token" and sig: "signature_of token' = signature_of token"
  shows "secret' = secret \<and> body_of token' = body_of token \<and> jwt_decode token' = jwt_decode token"
proof -
  obtain h p s where hps: "js_split (CHR ''.'') token' = [h, p, s]"
    and s: "base64UrlParse s = Some (mac (utf8_encode secret') (utf8_encode (h @ ''.'' @ p)))"
    using jwt_accepted [OF accepted] by blast
  then have "signature_of token' = Some (mac (utf8_encode secret') (utf8_encode (body_of token')))"
    by (simp add: signature_of_def body_of_def)
  with sig encoded_signature(1) [OF issued] free have eq: "secret' = secret" "body_of token' = body_of token"
    by (metis option.inject utf8_encode_inject)+
  obtain c where c: "js_split (CHR ''.'') token = [base64UrlStringify (utf8_encode (json_text (GObj jwt_header))),
      base64UrlStringify (utf8_encode (json_text (GObj (stamped now payload)))), base64UrlStringify c]"
    using encoded_parts [OF issued] token_split by metis
  let ?H = "base64UrlStringify (utf8_encode (json_text (GObj jwt_header)))"
  let ?P = "base64UrlStringify (utf8_encode (json_text (GObj (stamped now payload))))"
  have dot: "CHR ''.'' \<notin> set h" "CHR ''.'' \<notin> set p"
    using hps js_split_no_sep [of h "CHR ''.''" token'] js_split_no_sep [of p "CHR ''.''" token'] by auto
  from eq(2) hps c have "h @ ''.'' @ p = ?H @ ''.'' @ ?P" by (simp add: body_of_def)
  then have "js_split (CHR ''.'') (h @ CHR ''.'' # p) = js_split (CHR ''.'') (?H @ CHR ''.'' # ?P)" by simp
  then have "h = ?H" "p = ?P" using dot stringify_no_dot by (simp_all add: js_split_append js_split_plain)
  then have "jwt_decode token' = jwt_decode token" using decode_body [OF hps] c by blast
  with eq show ?thesis by blast
qed

end
