(* ===== verification/AuthTokens.thy ===== *)
theory AuthTokens
  imports Jwt Artifacts
begin

section \<open>The signed tokens of the server: forms, redirect logins, session mints\<close>

text \<open>
  \<^verbatim>\<open>router/auth-token.ts\<close>. Three kinds of token are signed with keys that are derived from the first
  session key by a suffix. The keyed hash, the clock, and the fresh \<open>jti\<close> of a mint are parameters. The
  verifiers catch every exception, so they return a plain value.

  The laws: the comparison in constant time is equality; each token is accepted exactly while it is fresh,
  with what was signed; and a token of one kind is never accepted as another (\<open>domain_separation\<close>),
  for a keyed hash without collisions.
\<close>

unbundle bit_operations_syntax

subsection \<open>Keys and fingerprints\<close>

definition first_key :: "string list \<Rightarrow> string" where
  "first_key keys = (case keys of k # _ \<Rightarrow> k | [] \<Rightarrow> ''undefined'')"

definition formTokenKey :: "string list \<Rightarrow> string" where
  "formTokenKey keys = first_key keys @ ''|houdini-form-csrf''"

definition sessionTokenKey :: "string list \<Rightarrow> string" where
  "sessionTokenKey keys = first_key keys @ ''|houdini-session-mint''"

definition redirectTxnKey :: "string list \<Rightarrow> string" where
  "redirectTxnKey keys = first_key keys @ ''|houdini-redirect-txn''"

definition CSRF_TTL_SECONDS :: int where
  "CSRF_TTL_SECONDS = 60 * 60 * 2"

definition SESSION_TTL_SECONDS :: int where
  "SESSION_TTL_SECONDS = 60"

definition REDIRECT_TXN_TTL_SECONDS :: int where
  "REDIRECT_TXN_TTL_SECONDS = 60 * 10"

text \<open>The loop over the characters collects the differing bits.\<close>

definition timingSafeEqual :: "string \<Rightarrow> string \<Rightarrow> bool" where
  "timingSafeEqual a b =
     (if length a \<noteq> length b then False
      else fold (\<lambda>(x, y) mismatch. mismatch OR ((of_char x :: nat) XOR of_char y)) (zip a b) 0 = 0)"

text \<open>Only the levels of objects are sorted: an array is written by \<open>JSON.stringify\<close>.\<close>

function stableStringify :: "gval \<Rightarrow> string" where
  "stableStringify v =
     (case v of
        GObj ps \<Rightarrow>
          ''{'' @ join '','' (map (\<lambda>k. json_string k @ '':'' @ (case map_of ps k of None \<Rightarrow> [] | Some x \<Rightarrow> stableStringify x))
                          (sort (okeys ps))) @ ''}''
      | _ \<Rightarrow> json_text (or_default v GNull))"
  by pat_completeness auto
termination
  by (relation "measure gdepth") (use gdepth_obj in \<open>auto dest: map_of_SomeD\<close>)

declare stableStringify.simps [simp del]

definition hex_text :: "string \<Rightarrow> string" where
  "hex_text bytes = concat (map (\<lambda>b. [hex_digit (of_char b div 16), hex_digit (of_char b mod 16)]) bytes)"

definition sessionFingerprint :: "mac \<Rightarrow> gobj \<Rightarrow> string \<Rightarrow> string" where
  "sessionFingerprint mac session key = hex_text (mac (utf8_encode key) (utf8_encode (stableStringify (GObj session))))"

definition sessionTokenFingerprint :: "mac \<Rightarrow> gobj \<Rightarrow> string list \<Rightarrow> string" where
  "sessionTokenFingerprint mac session keys = sessionFingerprint mac session (sessionTokenKey keys)"

subsection \<open>Form tokens\<close>

definition form_claims :: "mac \<Rightarrow> int \<Rightarrow> gobj \<Rightarrow> string list \<Rightarrow> gobj" where
  "form_claims mac now session keys =
     [(''houdiniForm'', GBool True), (''sid'', GStr (sessionFingerprint mac session (formTokenKey keys))),
      (''exp'', GNum (seconds now + CSRF_TTL_SECONDS))]"

definition signFormToken :: "mac \<Rightarrow> int \<Rightarrow> gobj \<Rightarrow> string list \<Rightarrow> js_error + string" where
  "signFormToken mac now session keys = jwt_encode mac now (form_claims mac now session keys) (formTokenKey keys)"

text \<open>The payload of a token that verifies, \<open>None\<close> if verification fails or throws.\<close>

definition verified_payload :: "mac \<Rightarrow> int \<Rightarrow> string \<Rightarrow> string \<Rightarrow> gval option" where
  "verified_payload mac now token key =
     (if jwt_verify mac now token key = Inr True then
        (case jwt_decode token of Inr (header, payload) \<Rightarrow> Some payload | Inl e \<Rightarrow> None)
      else None)"

definition verifyFormToken :: "mac \<Rightarrow> int \<Rightarrow> gval \<Rightarrow> gobj \<Rightarrow> string list \<Rightarrow> bool" where
  "verifyFormToken mac now token session keys =
     (case token of
        GStr t \<Rightarrow>
          (case verified_payload mac now t (formTokenKey keys) of
             None \<Rightarrow> False
           | Some payload \<Rightarrow>
               truthy payload \<and> gprop payload ''houdiniForm'' = GBool True \<and>
               (case gprop payload ''sid'' of
                  GStr sid \<Rightarrow> timingSafeEqual sid (sessionFingerprint mac session (formTokenKey keys))
                | _ \<Rightarrow> False))
      | _ \<Rightarrow> False)"

subsection \<open>Transactions of redirect logins\<close>

record redirect_txn =
  tx_nonce :: string
  tx_redirectTo :: string
  tx_provider :: "string option"
  tx_codeVerifier :: "string option"
  tx_oidcNonce :: "string option"

definition optional :: "string \<Rightarrow> string option \<Rightarrow> gobj" where
  "optional k v = (case v of None \<Rightarrow> [] | Some s \<Rightarrow> [(k, GStr s)])"

definition txn_claims :: "int \<Rightarrow> redirect_txn \<Rightarrow> gobj" where
  "txn_claims now txn =
     [(''houdiniRedirect'', GBool True), (''nonce'', GStr (tx_nonce txn)), (''redirectTo'', GStr (tx_redirectTo txn))]
     @ optional ''provider'' (tx_provider txn) @ optional ''codeVerifier'' (tx_codeVerifier txn)
     @ optional ''oidcNonce'' (tx_oidcNonce txn)
     @ [(''exp'', GNum (seconds now + REDIRECT_TXN_TTL_SECONDS))]"

definition signRedirectTxn :: "mac \<Rightarrow> int \<Rightarrow> redirect_txn \<Rightarrow> string list \<Rightarrow> js_error + string" where
  "signRedirectTxn mac now txn keys = jwt_encode mac now (txn_claims now txn) (redirectTxnKey keys)"

definition string_prop :: "gval \<Rightarrow> string \<Rightarrow> string option" where
  "string_prop v k = (case gprop v k of GStr s \<Rightarrow> Some s | _ \<Rightarrow> None)"

definition verifyRedirectTxn :: "mac \<Rightarrow> int \<Rightarrow> gval \<Rightarrow> string list \<Rightarrow> redirect_txn option" where
  "verifyRedirectTxn mac now cookie keys =
     (case cookie of
        GStr t \<Rightarrow>
          (case verified_payload mac now t (redirectTxnKey keys) of
             None \<Rightarrow> None
           | Some payload \<Rightarrow>
               if \<not> truthy payload \<or> gprop payload ''houdiniRedirect'' \<noteq> GBool True then None
               else
                 (case (string_prop payload ''nonce'', string_prop payload ''redirectTo'') of
                    (Some nonce, Some redirectTo) \<Rightarrow>
                      Some \<lparr>tx_nonce = nonce, tx_redirectTo = redirectTo, tx_provider = string_prop payload ''provider'',
                        tx_codeVerifier = string_prop payload ''codeVerifier'', tx_oidcNonce = string_prop payload ''oidcNonce''\<rparr>
                  | _ \<Rightarrow> None))
      | _ \<Rightarrow> None)"

text \<open>\<open>base64url\<close> strips padding at the end only; \<open>randomToken\<close> gets its random bytes from the platform.\<close>

definition base64url :: "string \<Rightarrow> string" where
  "base64url bytes =
     rev (dropWhile (\<lambda>c. c = CHR ''='')
       (rev (replace_char (CHR ''/'') (CHR ''_'') (replace_char (CHR ''+'') (CHR ''-'') (btoa bytes)))))"

definition randomToken :: "string \<Rightarrow> string" where
  "randomToken bytes = base64url bytes"

subsection \<open>Session mints\<close>

datatype session_action = WriteSession gval bool | ClearSession

definition mint_claims :: "mac \<Rightarrow> int \<Rightarrow> string \<Rightarrow> gval \<Rightarrow> string list \<Rightarrow> bool \<Rightarrow> gobj \<Rightarrow> gobj" where
  "mint_claims mac now uuid payload keys merge priorSession =
     (if nullish payload then [(''houdiniSession'', GBool True), (''clear'', GBool True)]
      else [(''houdiniSession'', GBool True), (''payload'', payload), (''merge'', GBool merge)])
     @ [(''sid'', GStr (sessionTokenFingerprint mac priorSession keys)), (''jti'', GStr uuid),
        (''exp'', GNum (seconds now + SESSION_TTL_SECONDS))]"

definition signSessionToken ::
  "mac \<Rightarrow> int \<Rightarrow> string \<Rightarrow> gval \<Rightarrow> string list \<Rightarrow> bool \<Rightarrow> gobj \<Rightarrow> js_error + string" where
  "signSessionToken mac now uuid payload keys merge priorSession =
     jwt_encode mac now (mint_claims mac now uuid payload keys merge priorSession) (sessionTokenKey keys)"

record session_result =
  sr_action :: session_action
  sr_sid :: string
  sr_jti :: string

definition verifySessionToken :: "mac \<Rightarrow> int \<Rightarrow> gval \<Rightarrow> string list \<Rightarrow> session_result option" where
  "verifySessionToken mac now token keys =
     (case token of
        GStr t \<Rightarrow>
          (case verified_payload mac now t (sessionTokenKey keys) of
             None \<Rightarrow> None
           | Some payload \<Rightarrow>
               if \<not> truthy payload \<or> gprop payload ''houdiniSession'' \<noteq> GBool True then None
               else
                 (case (string_prop payload ''sid'', string_prop payload ''jti'') of
                    (Some sid, Some jti) \<Rightarrow>
                      Some \<lparr>sr_action =
                          (if gprop payload ''clear'' = GBool True then ClearSession
                           else WriteSession (or_default (gprop payload ''payload'') (GObj []))
                                  (gprop payload ''merge'' = GBool True)),
                        sr_sid = sid, sr_jti = jti\<rparr>
                  | _ \<Rightarrow> None))
      | _ \<Rightarrow> None)"

subsection \<open>The comparison in constant time\<close>

lemma xor_nat_zero: "(m :: nat) XOR n = 0 \<longleftrightarrow> m = n"
  by (metis xor.assoc xor.left_neutral xor.right_neutral xor_self_eq)

lemma mismatch_zero:
  "fold (\<lambda>(x, y) mismatch. mismatch OR ((of_char x :: nat) XOR of_char y)) ps m = 0 \<longleftrightarrow>
   m = 0 \<and> list_all (\<lambda>(x, y). x = y) ps"
proof (induction ps arbitrary: m)
  case (Cons p ps)
  obtain x y where p: "p = (x, y)" by (cases p)
  have "m OR ((of_char x :: nat) XOR of_char y) = 0 \<longleftrightarrow> m = 0 \<and> x = y"
    by (simp only: or_eq_0_iff xor_nat_zero of_char_eq_iff)
  then show ?case unfolding p by (simp only: fold_simps prod.case Cons.IH list.pred_inject conj_assoc)
qed simp

lemma timingSafeEqual_eq: "timingSafeEqual a b \<longleftrightarrow> a = b"
proof -
  have "length a = length b \<Longrightarrow> list_all (\<lambda>(x, y). x = y) (zip a b) \<longleftrightarrow> a = b"
    by (induction a b rule: list_induct2) auto
  then show ?thesis by (auto simp: timingSafeEqual_def mismatch_zero)
qed

subsection \<open>What was signed is what is read, while it is fresh\<close>

lemma verified_issued:
  assumes "jwt_encode mac now claims key = Inr t" and "json_pure (GObj (stamped now claims))"
    and "prop_of (stamped now claims) ''nbf'' = GUndef" and "prop_of (stamped now claims) ''exp'' = GNum e" and "e \<noteq> 0"
  shows "verified_payload mac now' t key = (if seconds now' < e then Some (GObj (stamped now claims)) else None)"
proof -
  have "claims_live now' (GObj (stamped now claims)) \<longleftrightarrow> seconds now' < e"
    using assms(5) by (auto simp: claims_live_def assms(3,4))
  then show ?thesis
    by (simp add: verified_payload_def jwt_verify_encoded [OF assms(1,2)] jwt_decode_encoded [OF assms(1,2)])
qed

lemma seconds_later: "0 \<le> now \<Longrightarrow> 0 < d \<Longrightarrow> seconds now + d \<noteq> 0"
  using pos_imp_zdiv_nonneg_iff [of 1000 now] by (auto simp: seconds_def)

text \<open>No \<open>iat\<close> among the claims: it is appended.\<close>

lemma stamped_new: "''iat'' \<notin> set (okeys claims) \<Longrightarrow> stamped now claims = claims @ [(''iat'', GNum (seconds now))]"
proof -
  assume new: "''iat'' \<notin> set (okeys claims)"
  then have "map_of claims ''iat'' = None" by (simp add: map_of_eq_None_iff)
  with new show ?thesis by (simp add: stamped_def prop_of_def oget_def oset_new)
qed

lemma json_pure_obj:
  "json_pure (GObj ps) \<longleftrightarrow> distinct (okeys ps) \<and> list_all (\<lambda>(k, v). json_pure v) ps"
proof -
  have "filter (\<lambda>(k, v). v \<noteq> GUndef) (map (\<lambda>(k, v). (k, json_value v)) ps) = ps \<longleftrightarrow>
      list_all (\<lambda>(k, v). json_value v = v \<and> v \<noteq> GUndef) ps"
  proof (induction ps)
    case (Cons p ps)
    obtain k v where p: "p = (k, v)" by (cases p)
    let ?f = "\<lambda>ps. filter (\<lambda>(k, v). v \<noteq> GUndef) (map (\<lambda>(k, v). (k, json_value v)) ps)"
    have len: "length (?f ps) \<le> length ps" using length_filter_le [of _ "map (\<lambda>(k, v). (k, json_value v)) ps"] by simp
    then have "?f ps \<noteq> (k, v) # ps" by (metis impossible_Cons)
    with Cons p show ?case by auto
  qed simp
  then show ?thesis by (auto simp: json_pure_def list_all_iff)
qed

lemma json_pure_simps [simp]:
  "json_pure (GBool b)" "json_pure (GNum i)" "json_pure (GStr s)" "json_pure GNull"
  by (simp_all add: json_pure_def)

theorem form_token_accepted:
  assumes "signFormToken mac now session keys = Inr t" and "0 \<le> now"
  shows "verifyFormToken mac now' (GStr t) session' keys \<longleftrightarrow>
    seconds now' < seconds now + CSRF_TTL_SECONDS \<and>
    sessionFingerprint mac session (formTokenKey keys) = sessionFingerprint mac session' (formTokenKey keys)"
proof -
  have "verified_payload mac now' t (formTokenKey keys)
      = (if seconds now' < seconds now + CSRF_TTL_SECONDS then Some (GObj (stamped now (form_claims mac now session keys))) else None)"
    by (rule verified_issued [OF assms(1) [unfolded signFormToken_def]])
       (use assms(2) seconds_later [of now CSRF_TTL_SECONDS] in
         \<open>auto simp: form_claims_def stamped_new json_pure_obj prop_of_def oget_def CSRF_TTL_SECONDS_def\<close>)
  then show ?thesis
    by (simp add: verifyFormToken_def timingSafeEqual_eq stamped_new form_claims_def prop_of_def oget_def)
qed

lemma txn_token_read:
  assumes "signRedirectTxn mac now txn keys = Inr t" and "0 \<le> now"
  shows "verifyRedirectTxn mac now' (GStr t) keys =
    (if seconds now' < seconds now + REDIRECT_TXN_TTL_SECONDS then Some txn else None)"
proof -
  have new: "''iat'' \<notin> set (okeys (txn_claims now txn))"
    by (auto simp: txn_claims_def optional_def split: option.splits)
  have props: "prop_of (stamped now (txn_claims now txn)) ''nbf'' = GUndef"
    "prop_of (stamped now (txn_claims now txn)) ''exp'' = GNum (seconds now + REDIRECT_TXN_TTL_SECONDS)"
    "json_pure (GObj (stamped now (txn_claims now txn)))"
    by (auto simp: stamped_new [OF new], auto simp: txn_claims_def json_pure_obj prop_of_def oget_def optional_def split: option.splits)
  have "verified_payload mac now' t (redirectTxnKey keys)
      = (if seconds now' < seconds now + REDIRECT_TXN_TTL_SECONDS then Some (GObj (stamped now (txn_claims now txn))) else None)"
    by (rule verified_issued [OF assms(1) [unfolded signRedirectTxn_def] props(3,1,2)])
       (use assms(2) seconds_later in \<open>simp add: REDIRECT_TXN_TTL_SECONDS_def\<close>)
  moreover have "string_prop (GObj (stamped now (txn_claims now txn))) ''nonce'' = Some (tx_nonce txn)"
    "string_prop (GObj (stamped now (txn_claims now txn))) ''redirectTo'' = Some (tx_redirectTo txn)"
    "string_prop (GObj (stamped now (txn_claims now txn))) ''provider'' = tx_provider txn"
    "string_prop (GObj (stamped now (txn_claims now txn))) ''codeVerifier'' = tx_codeVerifier txn"
    "string_prop (GObj (stamped now (txn_claims now txn))) ''oidcNonce'' = tx_oidcNonce txn"
    "gprop (GObj (stamped now (txn_claims now txn))) ''houdiniRedirect'' = GBool True"
    unfolding stamped_new [OF new]
    by (auto simp: txn_claims_def string_prop_def prop_of_def oget_def optional_def split: option.splits)
  ultimately show ?thesis by (simp add: verifyRedirectTxn_def del: gprop.simps)
qed

definition mint_action :: "gval \<Rightarrow> bool \<Rightarrow> session_action" where
  "mint_action payload merge = (if nullish payload then ClearSession else WriteSession payload merge)"

lemma mint_token_read:
  assumes "signSessionToken mac now uuid payload keys merge prior = Inr t" and "0 \<le> now"
    and "json_pure payload \<or> nullish payload"
  shows "verifySessionToken mac now' (GStr t) keys =
    (if seconds now' < seconds now + SESSION_TTL_SECONDS
     then Some \<lparr>sr_action = mint_action payload merge, sr_sid = sessionTokenFingerprint mac prior keys, sr_jti = uuid\<rparr>
     else None)"
proof -
  let ?c = "mint_claims mac now uuid payload keys merge prior"
  have new: "''iat'' \<notin> set (okeys ?c)" by (simp add: mint_claims_def)
  have props: "prop_of (stamped now ?c) ''nbf'' = GUndef" "prop_of (stamped now ?c) ''exp'' = GNum (seconds now + SESSION_TTL_SECONDS)"
    "json_pure (GObj (stamped now ?c))"
    using assms(3) by (auto simp: stamped_new [OF new], auto simp: mint_claims_def json_pure_obj prop_of_def oget_def nullish_def)
  have "verified_payload mac now' t (sessionTokenKey keys)
      = (if seconds now' < seconds now + SESSION_TTL_SECONDS then Some (GObj (stamped now ?c)) else None)"
    by (rule verified_issued [OF assms(1) [unfolded signSessionToken_def] props(3,1,2)])
       (use assms(2) seconds_later in \<open>simp add: SESSION_TTL_SECONDS_def\<close>)
  then show ?thesis
    by (cases "nullish payload"; simp add: verifySessionToken_def stamped_new [OF new])
       (auto simp: mint_claims_def mint_action_def string_prop_def prop_of_def oget_def or_default_def)
qed

subsection \<open>No token is accepted as one of another kind\<close>

datatype issued_token = CookieToken gobj | FormToken gobj | TxnToken redirect_txn | MintToken string gval bool gobj

fun issue :: "mac \<Rightarrow> int \<Rightarrow> string list \<Rightarrow> issued_token \<Rightarrow> js_error + string" where
  "issue mac now keys (CookieToken claims) = jwt_encode mac now claims (first_key keys)"
| "issue mac now keys (FormToken session) = signFormToken mac now session keys"
| "issue mac now keys (TxnToken txn) = signRedirectTxn mac now txn keys"
| "issue mac now keys (MintToken uuid payload merge prior) = signSessionToken mac now uuid payload keys merge prior"

fun issue_key :: "string list \<Rightarrow> issued_token \<Rightarrow> string" where
  "issue_key keys (CookieToken claims) = first_key keys"
| "issue_key keys (FormToken session) = formTokenKey keys"
| "issue_key keys (TxnToken txn) = redirectTxnKey keys"
| "issue_key keys (MintToken uuid payload merge prior) = sessionTokenKey keys"

lemma issue_encodes: "issue mac now keys i = Inr t \<Longrightarrow> \<exists>claims. jwt_encode mac now claims (issue_key keys i) = Inr t"
  by (cases i) (auto simp: signFormToken_def signRedirectTxn_def signSessionToken_def)

lemma verified_accepts: "verified_payload mac now t key = Some p \<Longrightarrow> jwt_verify mac now t key = Inr True"
  by (simp add: verified_payload_def split: if_splits)

text \<open>
  C14. For a collision-free MAC, a token that carries the signature of an issued token passes only the
  verification of its own kind: form tokens, redirect transactions, session mints and session cookies
  cannot stand for one another.
\<close>

theorem domain_separation:
  assumes free: "\<And>k m k' m'. mac k m = mac k' m' \<Longrightarrow> k = k' \<and> m = m'"
    and issued: "issue mac now keys i = Inr t" and sig: "signature_of t' = signature_of t"
  shows "(verifyFormToken mac now' (GStr t') session keys \<longrightarrow> (\<exists>s. i = FormToken s)) \<and>
    (verifyRedirectTxn mac now' (GStr t') keys \<noteq> None \<longrightarrow> (\<exists>x. i = TxnToken x)) \<and>
    (verifySessionToken mac now' (GStr t') keys \<noteq> None \<longrightarrow> (\<exists>u p m s. i = MintToken u p m s)) \<and>
    (jwt_verify mac now' t' (first_key keys) = Inr True \<longrightarrow> (\<exists>c. i = CookieToken c))"
proof -
  obtain claims where enc: "jwt_encode mac now claims (issue_key keys i) = Inr t" using issue_encodes [OF issued] by blast
  have key: "key = issue_key keys i" if "jwt_verify mac now' t' key = Inr True" for key
    using jwt_binding [OF free that enc sig] by blast
  have "verifyFormToken mac now' (GStr t') session keys \<Longrightarrow> formTokenKey keys = issue_key keys i"
    by (rule key) (auto simp: verifyFormToken_def split: option.splits dest: verified_accepts)
  moreover have "verifyRedirectTxn mac now' (GStr t') keys \<noteq> None \<Longrightarrow> redirectTxnKey keys = issue_key keys i"
    by (rule key) (auto simp: verifyRedirectTxn_def split: option.splits dest: verified_accepts)
  moreover have "verifySessionToken mac now' (GStr t') keys \<noteq> None \<Longrightarrow> sessionTokenKey keys = issue_key keys i"
    by (rule key) (auto simp: verifySessionToken_def split: option.splits dest: verified_accepts)
  ultimately show ?thesis using key [of "first_key keys"]
    by (cases i) (auto simp: formTokenKey_def redirectTxnKey_def sessionTokenKey_def simp del: not_None_eq)
qed

end
