(* ===== verification/JsonPure.thy ===== *)
theory JsonPure
  imports AuthTokens
begin

section \<open>What a parser of JSON gives survives JSON\<close>

text \<open>
  Every value that \<open>json_parse\<close> returns is \<open>json_pure\<close>: its objects have no key twice, its numbers are in
  lowest terms, and nothing of it is dropped when it is printed again. So what a verified token says can be
  signed again and read again without loss (\<open>verified_pure\<close>).
\<close>

lemma dec_norm_pure: "json_pure (dec_norm m n)"
  by (induction m n rule: dec_norm.induct) (auto simp: json_pure_def)

lemma json_number_pure: "json_number s = Some (v, r) \<Longrightarrow> json_pure v"
  by (auto simp: json_number_def number_value_def Let_def dec_norm_pure split: if_splits option.splits)

lemma json_pure_arr: "json_pure (GArr vs) \<longleftrightarrow> list_all json_pure vs"
proof -
  have one: "(if json_value x = GUndef then GNull else json_value x) = x \<longleftrightarrow> json_value x = x \<and> x \<noteq> GUndef" for x
    by (cases x) (auto split: if_splits)
  have "json_value (GArr vs) = GArr vs \<longleftrightarrow> list_all (\<lambda>x. json_value x = x \<and> x \<noteq> GUndef) vs"
    unfolding json_value.simps gval.inject by (induction vs) (simp_all only: list.map list.inject one list.pred_inject refl simp_thms)
  then show ?thesis by (auto simp: json_pure_def list_all_iff simp del: json_value.simps)
qed

lemma json_literal_pure: "json_literal w v s = Some (x, r) \<Longrightarrow> json_pure v \<Longrightarrow> json_pure x"
  by (auto simp: json_literal_def split: if_splits)

lemma json_read_pure:
  "json_read s = Some (v, r) \<Longrightarrow> json_pure v"
  "json_elements acc s = Some (v, r) \<Longrightarrow> list_all json_pure acc \<Longrightarrow> json_pure v"
  "json_members macc s = Some (v, r) \<Longrightarrow> json_pure (GObj macc) \<Longrightarrow> json_pure v"
proof (induction s and acc s and macc s arbitrary: v r and v r and v r rule: json_read_json_elements_json_members.induct)
  case (1 s)
  from "1.prems" obtain c rest where c: "skip_ws s = c # rest"
    by (subst (asm) json_read.simps) (auto split: list.splits)
  note IH = "1.IH" [OF c]
  show ?case
  proof (cases "c = CHR ''{'' \<or> c = CHR ''[''")
    case True
    with "1.prems" c consider "v = GObj [] \<or> v = GArr []"
      | "c = CHR ''{''" "json_members [] rest = Some (v, r)" "\<exists>d r'. skip_ws rest = d # r' \<and> d \<noteq> CHR ''}''"
      | "c = CHR ''[''" "json_elements [] rest = Some (v, r)" "\<exists>d r'. skip_ws rest = d # r' \<and> d \<noteq> CHR '']''"
      by (subst (asm) json_read.simps) (auto split: list.splits if_splits)
    then show ?thesis
      by cases (use IH c in \<open>fastforce simp: json_pure_obj json_pure_arr\<close>)+
  next
    case False
    with "1.prems" c show ?thesis
      by (subst (asm) json_read.simps)
         (auto split: list.splits if_splits dest!: json_number_pure dest: json_literal_pure)
  qed
next
  case (2 acc s)
  from "2.prems" obtain x r1 c r2 where x: "json_read s = Some (x, r1)" and c: "skip_ws r1 = c # r2"
    and split: "v = GArr (acc @ [x]) \<and> r = r2
      \<or> c \<noteq> CHR '']'' \<and> c = CHR '','' \<and> length r2 < length s \<and> json_elements (acc @ [x]) r2 = Some (v, r)"
    by (subst (asm) json_elements.simps) (auto split: option.splits list.splits if_splits)
  have acc: "list_all json_pure (acc @ [x])" using "2.prems"(2) "2.IH"(1) [OF x] by simp
  from split show ?case
  proof
    assume "v = GArr (acc @ [x]) \<and> r = r2"
    with acc show ?thesis by (simp add: json_pure_arr)
  next
    assume s: "c \<noteq> CHR '']'' \<and> c = CHR '','' \<and> length r2 < length s \<and> json_elements (acc @ [x]) r2 = Some (v, r)"
    with "2.IH"(2) [OF x refl c] acc show ?thesis by simp
  qed
next
  case (3 acc s)
  from "3.prems" obtain r0 k r1 r2 x r3 c r4 where q: "skip_ws s = dquote # r0" and k: "json_chars [] r0 = Some (k, r1)"
    and r2: "skip_ws r1 = CHR '':'' # r2" "length r2 < length s" and x: "json_read r2 = Some (x, r3)" and c: "skip_ws r3 = c # r4"
    and split: "v = GObj (oset k x acc) \<and> r = r4
      \<or> c \<noteq> CHR ''}'' \<and> c = CHR '','' \<and> length r4 < length s \<and> json_members (oset k x acc) r4 = Some (v, r)"
    by (subst (asm) json_members.simps) (auto split: option.splits list.splits if_splits)
  note IH = "3.IH" [OF q _ k refl r2(1)]
  from IH(1) [OF _ _ x] r2 have "json_pure x" by simp
  with "3.prems"(2) have acc: "json_pure (GObj (oset k x acc))"
    by (simp add: json_pure_obj distinct_oset list_all_oset)
  with split IH(2) [OF _ _ x refl c] r2 show ?case by auto
qed

lemma json_parse_pure: "json_parse s = Some v \<Longrightarrow> json_pure v"
  by (auto simp: json_parse_def split: option.splits if_splits dest: json_read_pure(1))

lemma decodePayload_pure: "decodePayload s = Inr v \<Longrightarrow> json_pure v"
  by (auto simp: decodePayload_def sbind_simps split: if_splits option.splits dest: json_parse_pure)

lemma verified_pure: "verified_payload mac now t key = Some p \<Longrightarrow> json_pure p"
  by (auto simp: verified_payload_def jwt_decode_def sbind_simps split: if_splits sum.splits list.splits
      dest: decodePayload_pure)

theorem json_reparse:
  assumes "json_parse s = Some v"
  shows "json_parse (json_text v) = Some v"
  using assms by (intro json_pure_text json_parse_pure)

end
