(* ===== verification/Cookies.thy ===== *)
theory Cookies
  imports JsText
begin

section \<open>Cookies: parsing a Cookie header, building a Set-Cookie header\<close>

text \<open>
  \<^verbatim>\<open>router/cookies.ts\<close>. \<open>cookie_parse\<close> walks the header by index; its model walks the rest of the header
  from that index on. \<open>obj\<close> starts as an object literal, so the name of a member of \<open>Object.prototype\<close>
  counts as assigned already (\<open>inherited_cookie_ignored\<close>). \<open>cookie_serialize\<close> throws on every invalid
  option, in the order of the source; a date is given by its UTC text.

  \<open>cookie_roundtrip\<close>: the cookies of a header that was put together from encoded pairs are the pairs.
\<close>

subsection \<open>parse\<close>

definition assigned :: "(string, string) omap \<Rightarrow> string \<Rightarrow> bool" where
  "assigned obj key \<longleftrightarrow> key \<in> set (okeys obj) \<or> key \<in> set object_members"

text \<open>\<open>decode\<close> under \<open>tryDecode\<close>.\<close>

definition cookie_decode :: "string \<Rightarrow> string" where
  "cookie_decode s =
     (if CHR ''%'' \<in> set s then (case decodeURIComponent s of None \<Rightarrow> s | Some t \<Rightarrow> t) else s)"

definition unquote_value :: "string \<Rightarrow> string" where
  "unquote_value v = (if v \<noteq> [] \<and> hd v = dquote then butlast (tl v) else v)"

text \<open>What follows the last semicolon of \<open>pre\<close>, and the rest of the header.\<close>

definition backtrack :: "string \<Rightarrow> string \<Rightarrow> string" where
  "backtrack pre s = rev (takeWhile (\<lambda>c. c \<noteq> CHR '';'') (rev pre)) @ drop (length pre) s"

lemma backtrack_shorter: "CHR '';'' \<in> set pre \<Longrightarrow> length pre \<le> length s \<Longrightarrow> length (backtrack pre s) < length s"
proof -
  assume "CHR '';'' \<in> set pre" and le: "length pre \<le> length s"
  then have "takeWhile (\<lambda>c. c \<noteq> CHR '';'') (rev pre) \<noteq> rev pre" by (auto simp: takeWhile_eq_all_conv)
  then have "length (takeWhile (\<lambda>c. c \<noteq> CHR '';'') (rev pre)) < length pre"
    by (metis length_rev length_takeWhile_le linorder_neqE_nat not_less takeWhile_eq_take take_all_iff)
  with le show ?thesis by (simp add: backtrack_def)
qed

definition name_part :: "string \<Rightarrow> string" where
  "name_part s = takeWhile (\<lambda>c. c \<noteq> CHR ''='') s"

definition value_part :: "string \<Rightarrow> string" where
  "value_part s = takeWhile (\<lambda>c. c \<noteq> CHR '';'') (tl (dropWhile (\<lambda>c. c \<noteq> CHR ''='') s))"

definition next_pair :: "string \<Rightarrow> string" where
  "next_pair s = tl (dropWhile (\<lambda>c. c \<noteq> CHR '';'') (tl (dropWhile (\<lambda>c. c \<noteq> CHR ''='') s)))"

lemma next_pair_shorter: "s \<noteq> [] \<Longrightarrow> length (next_pair s) < length s"
proof -
  assume "s \<noteq> []"
  have "length (next_pair s) \<le> length (tl (dropWhile (\<lambda>c. c \<noteq> CHR ''='') s))"
    unfolding next_pair_def by (metis diff_le_self le_trans length_dropWhile_le length_tl)
  also have "\<dots> \<le> length s - 1" by (simp add: diff_le_mono length_dropWhile_le)
  finally show ?thesis using \<open>s \<noteq> []\<close> by (cases s) auto
qed

function cookie_loop :: "string \<Rightarrow> (string, string) omap \<Rightarrow> (string, string) omap" where
  "cookie_loop s obj =
     (if CHR ''='' \<notin> set s then obj
      else if CHR '';'' \<in> set (name_part s) then cookie_loop (backtrack (name_part s) s) obj
      else
        let key = trim (name_part s) in
        cookie_loop (next_pair s)
          (if assigned obj key then obj
           else oset key (cookie_decode (unquote_value (trim (value_part s)))) obj))"
  by pat_completeness auto
termination
proof (relation "measure (\<lambda>(s, obj). length s)")
  fix s :: string and obj :: "(string, string) omap"
  assume "\<not> CHR ''='' \<notin> set s" "CHR '';'' \<in> set (name_part s)"
  then show "((backtrack (name_part s) s, obj), s, obj) \<in> measure (\<lambda>(s, obj). length s)"
    using backtrack_shorter [of "name_part s" s] by (simp add: name_part_def length_takeWhile_le)
next
  fix s :: string and obj :: "(string, string) omap" and x
  assume "\<not> CHR ''='' \<notin> set s"
  then have "s \<noteq> []" by auto
  then show "((next_pair s, if assigned obj x then obj
      else oset x (cookie_decode (unquote_value (trim (value_part s)))) obj), s, obj) \<in> measure (\<lambda>(s, obj). length s)"
    by (simp add: next_pair_shorter)
qed simp

declare cookie_loop.simps [simp del]

definition cookie_parse :: "string \<Rightarrow> (string, string) omap" where
  "cookie_parse header = cookie_loop header []"

subsection \<open>serialize\<close>

datatype js_date = InvalidDate | UTCDate string

record cookie_options =
  co_encode :: bool
  co_maxAge :: gval
  co_domain :: string
  co_path :: string
  co_expires :: "js_date option"
  co_httpOnly :: bool
  co_secure :: bool
  co_priority :: gval
  co_sameSite :: gval

definition no_options :: cookie_options where
  "no_options = \<lparr>co_encode = False, co_maxAge = GUndef, co_domain = [], co_path = [], co_expires = None,
     co_httpOnly = False, co_secure = False, co_priority = GUndef, co_sameSite = GUndef\<rparr>"

text \<open>\<open>fieldContentRegExp.test(s)\<close>.\<close>

definition field_content :: "string \<Rightarrow> bool" where
  "field_content s \<longleftrightarrow> s \<noteq> [] \<and>
     list_all (\<lambda>c. let n = of_char c :: nat in n = 9 \<or> 32 \<le> n \<and> n \<le> 126 \<or> 128 \<le> n) s"

definition lower_char :: "char \<Rightarrow> char" where
  "lower_char c = (let n = of_char c :: nat in if 65 \<le> n \<and> n \<le> 90 then char_of (n + 32) else c)"

text \<open>\<open>Math.floor(maxAge - 0)\<close>, \<open>None\<close> for NaN.\<close>

definition floor_number :: "gval \<Rightarrow> int option" where
  "floor_number v = (case to_number v of
     Some (GNum i) \<Rightarrow> Some i | Some (GDec m n) \<Rightarrow> Some (m div 10 ^ n) | _ \<Rightarrow> None)"

definition lowered :: "gval \<Rightarrow> gval" where
  "lowered v = (case v of GStr s \<Rightarrow> GStr (map lower_char s) | _ \<Rightarrow> v)"

definition require :: "bool \<Rightarrow> string \<Rightarrow> string \<Rightarrow> js_error + string" where
  "require ok message part = (if ok then Inr part else Inl (TypeError message))"

definition max_age_part :: "cookie_options \<Rightarrow> js_error + string" where
  "max_age_part opt =
     (if truthy (co_maxAge opt) then
        (case floor_number (co_maxAge opt) of
           None \<Rightarrow> Inl (TypeError ''option maxAge is invalid'')
         | Some i \<Rightarrow> Inr (''; Max-Age='' @ js_of_int i))
      else Inr [])"

definition domain_part :: "cookie_options \<Rightarrow> js_error + string" where
  "domain_part opt =
     (if co_domain opt \<noteq> [] then
        require (field_content (co_domain opt)) ''option domain is invalid'' (''; Domain='' @ co_domain opt)
      else Inr [])"

definition path_part :: "cookie_options \<Rightarrow> js_error + string" where
  "path_part opt =
     (if co_path opt \<noteq> [] then
        require (field_content (co_path opt)) ''option path is invalid'' (''; Path='' @ co_path opt)
      else Inr [])"

definition expires_part :: "cookie_options \<Rightarrow> js_error + string" where
  "expires_part opt =
     (case co_expires opt of
        None \<Rightarrow> Inr []
      | Some InvalidDate \<Rightarrow> Inl (TypeError ''option expires is invalid'')
      | Some (UTCDate t) \<Rightarrow> Inr (''; Expires='' @ t))"

definition priority_part :: "cookie_options \<Rightarrow> js_error + string" where
  "priority_part opt =
     (if truthy (co_priority opt) then
        (let p = lowered (co_priority opt) in
         if p = GStr ''low'' then Inr ''; Priority=Low''
         else if p = GStr ''medium'' then Inr ''; Priority=Medium''
         else if p = GStr ''high'' then Inr ''; Priority=High''
         else Inl (TypeError ''option priority is invalid''))
      else Inr [])"

definition same_site_part :: "cookie_options \<Rightarrow> js_error + string" where
  "same_site_part opt =
     (if truthy (co_sameSite opt) then
        (let p = lowered (co_sameSite opt) in
         if p = GBool True \<or> p = GStr ''strict'' then Inr ''; SameSite=Strict''
         else if p = GStr ''lax'' then Inr ''; SameSite=Lax''
         else if p = GStr ''none'' then Inr ''; SameSite=None''
         else Inl (TypeError ''option sameSite is invalid''))
      else Inr [])"

definition cookie_serialize :: "string \<Rightarrow> string \<Rightarrow> cookie_options \<Rightarrow> js_error + string" where
  "cookie_serialize name val opt =
     (if co_encode opt then Inl (TypeError ''option encode is invalid'')
      else if \<not> field_content name then Inl (TypeError ''argument name is invalid'')
      else
        let v = encodeURIComponent val in
        if v \<noteq> [] \<and> \<not> field_content v then Inl (TypeError ''argument val is invalid'')
        else
          sbind (max_age_part opt) (\<lambda>maxAge.
          sbind (domain_part opt) (\<lambda>domain.
          sbind (path_part opt) (\<lambda>path.
          sbind (expires_part opt) (\<lambda>expires.
          sbind (priority_part opt) (\<lambda>priority.
          sbind (same_site_part opt) (\<lambda>sameSite.
            Inr (name @ ''='' @ v @ maxAge @ domain @ path @ expires
              @ (if co_httpOnly opt then ''; HttpOnly'' else [])
              @ (if co_secure opt then ''; Secure'' else []) @ priority @ sameSite))))))))"

subsection \<open>Laws\<close>

definition good_name :: "string \<Rightarrow> bool" where
  "good_name n \<longleftrightarrow> n \<noteq> [] \<and> CHR ''='' \<notin> set n \<and> CHR '';'' \<notin> set n \<and>
     \<not> js_space (hd n) \<and> \<not> js_space (last n) \<and> n \<notin> set object_members"

lemma uri_safe_simps:
  "uri_safe c \<Longrightarrow> c \<noteq> CHR ''='' \<and> c \<noteq> CHR '';'' \<and> c \<noteq> dquote \<and> \<not> js_space c"
  by (auto simp: uri_safe_def uri_unreserved_def js_space_def Let_def dquote_def)

lemma trim_no_space: "list_all (\<lambda>c. \<not> js_space c) s \<Longrightarrow> trim s = s"
  by (cases "s = []") (simp add: trim_def, rule trim_id, auto simp: list_all_iff)

lemma trim_prefix: "list_all js_space sp \<Longrightarrow> s \<noteq> [] \<Longrightarrow> \<not> js_space (hd s) \<Longrightarrow> \<not> js_space (last s) \<Longrightarrow> trim (sp @ s) = s"
proof -
  assume "list_all js_space sp" "s \<noteq> []" "\<not> js_space (hd s)" "\<not> js_space (last s)"
  then have "dropWhile js_space (sp @ s) = dropWhile js_space s" by (auto simp: list_all_iff dropWhile_append2)
  then have "trim (sp @ s) = trim s" by (simp add: trim_def)
  with \<open>s \<noteq> []\<close> \<open>\<not> js_space (hd s)\<close> \<open>\<not> js_space (last s)\<close> show ?thesis by (simp add: trim_id)
qed

lemma cookie_value: "cookie_decode (unquote_value (trim (encodeURIComponent v))) = v"
proof -
  let ?e = "encodeURIComponent v"
  have safe: "list_all (\<lambda>c. \<not> js_space c) ?e" "?e \<noteq> [] \<Longrightarrow> hd ?e \<noteq> dquote"
    using encoded_chars uri_safe_simps by (auto simp: list_all_iff) (metis encoded_chars hd_in_set uri_safe_simps)
  have "cookie_decode ?e = v"
    using decode_encode_component [of v] decode_no_percent [of ?e] by (auto simp: cookie_decode_def)
  with safe show ?thesis by (cases "?e = []") (simp_all add: trim_no_space unquote_value_def)
qed

lemma cookie_step:
  assumes name: "good_name n" and sp: "list_all js_space sp"
    and tail: "tail = [] \<or> hd tail = CHR '';''"
  shows "cookie_loop (sp @ n @ ''='' @ encodeURIComponent v @ tail) obj
     = cookie_loop (tl tail) (if assigned obj n then obj else oset n v obj)"
proof -
  let ?e = "encodeURIComponent v" let ?s = "sp @ n @ ''='' @ ?e @ tail"
  have sp_eq: "CHR ''='' \<notin> set (sp @ n)" "CHR '';'' \<notin> set (sp @ n)"
    using name sp by (auto simp: good_name_def list_all_iff js_space_def dest!: bspec)
  have nm: "name_part ?s = sp @ n" and rest: "tl (dropWhile (\<lambda>c. c \<noteq> CHR ''='') ?s) = ?e @ tail"
    using scan_upto(1,2) [OF sp_eq(1), of "?e @ tail"] by (simp_all add: name_part_def)
  have e: "CHR '';'' \<notin> set ?e" using encoded_chars uri_safe_simps by blast
  have "takeWhile (\<lambda>c. c \<noteq> CHR '';'') (?e @ tail) = ?e \<and> tl (dropWhile (\<lambda>c. c \<noteq> CHR '';'') (?e @ tail)) = tl tail"
    using tail by (cases tail) (simp_all add: scan_upto [OF e])
  then have val: "value_part ?s = ?e" and nxt: "next_pair ?s = tl tail"
    unfolding value_part_def next_pair_def rest by blast+
  have key: "trim (sp @ n) = n" using name sp by (intro trim_prefix) (auto simp: good_name_def)
  show ?thesis
    using sp_eq by (subst cookie_loop.simps) (simp add: nm [simplified] val [simplified] nxt [simplified] key cookie_value)
qed

definition cookie_line :: "(string \<times> string) list \<Rightarrow> string" where
  "cookie_line cs = join ''; '' (map (\<lambda>(n, v). n @ ''='' @ encodeURIComponent v) cs)"

lemma cookie_loop_line:
  "cs \<noteq> [] \<Longrightarrow> list_all (\<lambda>(n, v). good_name n) cs \<Longrightarrow> distinct (okeys obj @ okeys cs) \<Longrightarrow> list_all js_space sp \<Longrightarrow>
   cookie_loop (sp @ cookie_line cs) obj = obj @ cs"
proof (induction cs arbitrary: obj sp)
  case (Cons c cs)
  obtain n v where c: "c = (n, v)" by (cases c)
  have name: "good_name n" using Cons.prems(2) c by simp
  have fresh: "n \<notin> set (okeys obj)" "\<not> assigned obj n"
    using Cons.prems(3) c name by (auto simp: assigned_def good_name_def)
  show ?case
  proof (cases "cs = []")
    case True
    have "cookie_loop [] obj' = obj'" for obj' by (subst cookie_loop.simps) simp
    then show ?thesis
      using cookie_step [OF name Cons.prems(4), of "[]" v obj] fresh True c
      by (simp add: cookie_line_def oset_new)
  next
    case False
    have line: "cookie_line (c # cs) = n @ ''='' @ encodeURIComponent v @ '';'' @ '' '' @ cookie_line cs"
      using False c by (simp add: cookie_line_def join_Cons)
    have "cookie_loop (sp @ cookie_line (c # cs)) obj = cookie_loop ('' '' @ cookie_line cs) (obj @ [(n, v)])"
      unfolding line using cookie_step [OF name Cons.prems(4), of "'';'' @ '' '' @ cookie_line cs" v obj] fresh
      by (simp add: oset_new)
    also have "\<dots> = (obj @ [(n, v)]) @ cs"
      using False Cons.prems c by (intro Cons.IH) (auto simp: js_space_def)
    finally show ?thesis using c by simp
  qed
qed simp

theorem cookie_roundtrip:
  assumes "list_all (\<lambda>(n, v). good_name n) cs" and "distinct (okeys cs)"
  shows "cookie_parse (cookie_line cs) = cs"
proof (cases "cs = []")
  case True
  then show ?thesis by (simp add: cookie_parse_def cookie_line_def cookie_loop.simps)
next
  case False
  then show ?thesis using cookie_loop_line [of cs "[]" "[]"] assms by (simp add: cookie_parse_def)
qed

text \<open>The name and value that \<open>cookie_serialize\<close> writes come first, whatever the options.\<close>

definition attribute :: "string \<Rightarrow> bool" where
  "attribute p \<longleftrightarrow> p = [] \<or> hd p = CHR '';''"

lemma attribute_append: "attribute p \<Longrightarrow> attribute q \<Longrightarrow> attribute (p @ q)"
  by (cases p) (auto simp: attribute_def)

lemma attribute_parts:
  "max_age_part opt = Inr p \<Longrightarrow> attribute p" "domain_part opt = Inr p \<Longrightarrow> attribute p"
  "path_part opt = Inr p \<Longrightarrow> attribute p" "expires_part opt = Inr p \<Longrightarrow> attribute p"
  "priority_part opt = Inr p \<Longrightarrow> attribute p" "same_site_part opt = Inr p \<Longrightarrow> attribute p"
  "attribute (if b then ''; HttpOnly'' else [])" "attribute (if b then ''; Secure'' else [])"
  by (auto simp: attribute_def max_age_part_def domain_part_def path_part_def expires_part_def priority_part_def
      same_site_part_def require_def Let_def split: if_splits option.splits js_date.splits)

lemma serialize_value:
  assumes "cookie_serialize name val opt = Inr header"
  shows "\<exists>attributes. header = name @ ''='' @ encodeURIComponent val @ attributes \<and> attribute attributes"
proof -
  from assms obtain a b c d e f where "max_age_part opt = Inr a" "domain_part opt = Inr b" "path_part opt = Inr c"
      "expires_part opt = Inr d" "priority_part opt = Inr e" "same_site_part opt = Inr f"
    and h: "header = name @ ''='' @ encodeURIComponent val @ a @ b @ c @ d
      @ (if co_httpOnly opt then ''; HttpOnly'' else []) @ (if co_secure opt then ''; Secure'' else []) @ e @ f"
    by (auto simp: cookie_serialize_def Let_def sbind_simps split: if_splits)
  then have "attribute a" "attribute b" "attribute c" "attribute d" "attribute e" "attribute f"
    by (auto dest: attribute_parts(1-6))
  then have "attribute (a @ b @ c @ d @ (if co_httpOnly opt then ''; HttpOnly'' else [])
      @ (if co_secure opt then ''; Secure'' else []) @ e @ f)"
    by (intro attribute_append attribute_parts(7,8))
  then show ?thesis unfolding h by blast
qed

lemma cookie_kept: "map_of obj n = Some v \<Longrightarrow> map_of (cookie_loop s obj) n = Some v"
proof (induction s obj rule: cookie_loop.induct)
  case (1 s obj)
  have "assigned obj n" using 1(3) by (force simp: assigned_def dest: map_of_SomeD)
  then have "\<not> assigned obj k \<Longrightarrow> n \<noteq> k" for k by blast
  with 1 show ?case
    by (subst cookie_loop.simps) (simp add: Let_def omap_simps)
qed


lemma inherited_cookie_ignored: "cookie_parse ''toString=1; a=2'' = [(''a'', ''2'')]"
  by code_simp

end
