(* ===== verification/Sessions.thy ===== *)
theory Sessions
  imports AuthTokens Cookies
begin

section \<open>Sessions: cookies, single-use tokens, the auth endpoint\<close>

text \<open>
  \<^verbatim>\<open>router/session.ts\<close>. A request comes with its URL taken apart by the platform (\<open>url\<close>); the parser of
  the platform for a Referer is the parameter \<open>ev_parse_url\<close>. A response collects its status, its target
  and its Set-Cookie headers. The OAuth library and the callbacks of the configuration are parameters of
  the environment: \<open>pv_server\<close> is the authorization endpoint that discovery finds, \<open>ev_exchange\<close> the
  tokens of a code exchange that succeeds, \<open>ev_user\<close> maps them to a user, \<open>ev_onSignIn\<close> gives the
  session of a user, \<open>ev_challenge\<close> the PKCE challenge. Random values come in a record \<open>fresh\<close>.
  The store of consumed tokens is a parameter \<open>consume\<close>, as in the configuration;
  \<open>default_consume\<close> is the one in memory.
\<close>

subsection \<open>Requests and responses\<close>

record url =
  u_protocol :: string
  u_hostname :: string
  u_origin :: string
  u_pathname :: string
  u_search :: string
  u_params :: "(string \<times> string) list"

text \<open>The body as the platform reads it: the entries of a form, a JSON value, or the chunks of its bytes.\<close>

record request =
  rq_method :: string
  rq_url :: url
  rq_headers :: "(string, string) omap"
  rq_form :: "(string \<times> form_value) list"
  rq_json :: "gval option"
  rq_chunks :: "string list option"

text \<open>A target is a path, or an absolute URL with the parameters that were set on it.\<close>

datatype target = Path string | External string "(string \<times> string) list"

record response =
  rs_status :: nat
  rs_location :: "target option"
  rs_setCookies :: "string list"

definition plain_response :: "nat \<Rightarrow> response" where
  "plain_response status = \<lparr>rs_status = status, rs_location = None, rs_setCookies = []\<rparr>"

definition redirect_response :: "nat \<Rightarrow> target \<Rightarrow> response" where
  "redirect_response status t = \<lparr>rs_status = status, rs_location = Some t, rs_setCookies = []\<rparr>"

definition set_cookie :: "string \<Rightarrow> response \<Rightarrow> response" where
  "set_cookie c r = r\<lparr>rs_setCookies := [c]\<rparr>"

definition append_cookie :: "string \<Rightarrow> response \<Rightarrow> response" where
  "append_cookie c r = r\<lparr>rs_setCookies := rs_setCookies r @ [c]\<rparr>"

text \<open>\<open>searchParams.get\<close> and \<open>searchParams.set\<close>.\<close>

definition query_param :: "(string \<times> string) list \<Rightarrow> string \<Rightarrow> string option" where
  "query_param ps k = map_of ps k"

definition set_param :: "string \<Rightarrow> string \<Rightarrow> (string \<times> string) list \<Rightarrow> (string \<times> string) list" where
  "set_param k v ps =
     (if k \<in> set (okeys ps) then
        takeWhile (\<lambda>(k', x). k' \<noteq> k) ps @ [(k, v)] @ filter (\<lambda>(k', x). k' \<noteq> k) (dropWhile (\<lambda>(k', x). k' \<noteq> k) ps)
      else ps @ [(k, v)])"

record oauth_provider =
  pv_clientId :: string
  pv_scopes :: "string list"
  pv_pkce :: bool
  pv_issuer :: bool
  pv_server :: "js_error + string \<times> (string \<times> string) list"

record server_env =
  ev_mac :: mac
  ev_keys :: "string list"
  ev_authUrl :: string
  ev_allowedOrigins :: "string list"
  ev_redirect :: "(string \<times> (string \<times> string) list) option"
  ev_providers :: "(string, oauth_provider) omap option"
  ev_parse_url :: "string \<Rightarrow> url option"
  ev_challenge :: "string \<Rightarrow> string"
  ev_exchange :: "string \<Rightarrow> redirect_txn \<Rightarrow> (string \<times> string) list \<Rightarrow> gval option"
  ev_user :: "string \<Rightarrow> gval \<Rightarrow> js_error + gval"
  ev_onSignIn :: "(string \<Rightarrow> gval \<Rightarrow> gval \<Rightarrow> js_error + gval) option"

record fresh =
  fr_nonce :: string
  fr_state :: string
  fr_oidcNonce :: string
  fr_codeVerifier :: string
  fr_uuid :: string

subsection \<open>Hosts, origins, redirect targets\<close>

definition insecure_loopback :: "url option \<Rightarrow> bool" where
  "insecure_loopback u =
     (case u of
        None \<Rightarrow> False
      | Some x \<Rightarrow>
          u_protocol x = ''http:'' \<and>
          (u_hostname x = ''localhost'' \<or> suffix ''.localhost'' (u_hostname x) \<or> u_hostname x = ''127.0.0.1'' \<or>
           u_hostname x = ''[::1]'' \<or> u_hostname x = ''::1''))"

definition req_header :: "request \<Rightarrow> string \<Rightarrow> string option" where
  "req_header rq name = map_of (rq_headers rq) name"

definition isAllowedOrigin :: "request \<Rightarrow> string list \<Rightarrow> bool" where
  "isAllowedOrigin rq extra =
     (case req_header rq ''origin'' of
        None \<Rightarrow> False
      | Some origin \<Rightarrow> origin \<noteq> [] \<and> origin \<in> set (u_origin (rq_url rq) # extra))"

text \<open>\<open>safeRelative\<close> of a value: \<open>None\<close> is a value that is not a string.\<close>

definition safeRelative :: "string option \<Rightarrow> string" where
  "safeRelative v =
     (case v of
        None \<Rightarrow> ''/''
      | Some s \<Rightarrow>
          if \<not> prefix ''/'' s \<or> prefix ''//'' s \<or> CHR 0x5C \<in> set s \<or> js_includes s ''://'' then ''/'' else s)"

definition sameOriginRefererPath :: "server_env \<Rightarrow> request \<Rightarrow> string option" where
  "sameOriginRefererPath ev rq =
     (case req_header rq ''referer'' of
        None \<Rightarrow> None
      | Some referer \<Rightarrow>
          if referer = [] then None
          else case ev_parse_url ev referer of
            None \<Rightarrow> None
          | Some ref \<Rightarrow> if u_origin ref \<noteq> u_origin (rq_url rq) then None else Some (u_pathname ref @ u_search ref))"

definition oauthCallbackUrl :: "server_env \<Rightarrow> request \<Rightarrow> string" where
  "oauthCallbackUrl ev rq = u_origin (rq_url rq) @ ev_authUrl ev"

subsection \<open>The cookies\<close>

definition session_cookie_name :: string where
  "session_cookie_name = ''__houdini__''"

definition REDIRECT_TXN_COOKIE :: string where
  "REDIRECT_TXN_COOKIE = ''__Host-houdini-txn''"

definition REDIRECT_TXN_COOKIE_INSECURE :: string where
  "REDIRECT_TXN_COOKIE_INSECURE = ''houdini-txn''"

definition redirectTxnCookie :: "string \<Rightarrow> bool \<Rightarrow> string" where
  "redirectTxnCookie v secure =
     (if secure then REDIRECT_TXN_COOKIE @ ''='' @ v @ ''; Path=/; HttpOnly; Secure; SameSite=Lax; Max-Age='' @ js_of_int REDIRECT_TXN_TTL_SECONDS
      else REDIRECT_TXN_COOKIE_INSECURE @ ''='' @ v @ ''; Path=/; HttpOnly; SameSite=Lax; Max-Age='' @ js_of_int REDIRECT_TXN_TTL_SECONDS)"

definition clearRedirectTxnCookie :: "bool \<Rightarrow> string" where
  "clearRedirectTxnCookie secure =
     (if secure then REDIRECT_TXN_COOKIE @ ''=; Path=/; HttpOnly; Secure; SameSite=Lax; Max-Age=0''
      else REDIRECT_TXN_COOKIE_INSECURE @ ''=; Path=/; HttpOnly; SameSite=Lax; Max-Age=0'')"

definition secure_attribute :: "request option \<Rightarrow> string" where
  "secure_attribute rq =
     (case rq of Some r \<Rightarrow> (if insecure_loopback (Some (rq_url r)) then [] else ''Secure; '') | None \<Rightarrow> ''Secure; '')"

definition clear_session :: "request option \<Rightarrow> response \<Rightarrow> response" where
  "clear_session rq response =
     set_cookie (session_cookie_name @ ''=; Path=/; HttpOnly; '' @ secure_attribute rq @ ''SameSite=Lax; Max-Age=0'') response"

text \<open>\<open>{ ...v }\<close> for any value: a string and an array give their indices.\<close>

definition own_enumerable :: "gval \<Rightarrow> gobj" where
  "own_enumerable v =
     (case v of
        GObj ps \<Rightarrow> ps
      | GArr xs \<Rightarrow> map (\<lambda>(i, x). (js_of_nat i, x)) (enumerate 0 xs)
      | GStr s \<Rightarrow> map (\<lambda>(i, c). (js_of_nat i, GStr [c])) (enumerate 0 s)
      | _ \<Rightarrow> [])"

definition sign_session :: "mac \<Rightarrow> int \<Rightarrow> gobj \<Rightarrow> string \<Rightarrow> js_error + string" where
  "sign_session mac now session key = jwt_encode mac now session key"

definition week_ms :: int where
  "week_ms = 7 * 24 * 60 * 60 * 1000"

definition session_claims :: "int \<Rightarrow> gobj \<Rightarrow> gobj" where
  "session_claims now v = oset ''exp'' (GNum (seconds (now + week_ms))) v"

text \<open>With no key at all, \<open>encode\<close> refuses the secret \<open>undefined\<close>.\<close>

definition session_token :: "server_env \<Rightarrow> int \<Rightarrow> gobj \<Rightarrow> js_error + string" where
  "session_token ev now v =
     (case ev_keys ev of
        [] \<Rightarrow> Inl (Thrown ''secret must be a string or a JWK object'')
      | key # _ \<Rightarrow> jwt_encode (ev_mac ev) now (session_claims now v) key)"

definition set_session :: "server_env \<Rightarrow> int \<Rightarrow> request \<Rightarrow> response \<Rightarrow> gobj \<Rightarrow> js_error + response" where
  "set_session ev now rq response v =
     sbind (session_token ev now v) (\<lambda>serialized.
       Inr (set_cookie (session_cookie_name @ ''='' @ serialized @ ''; Path=/; HttpOnly; '' @ secure_attribute (Some rq)
              @ ''SameSite=Lax; Expires='' @ toUTCString (now + week_ms) @ '' '') response))"

text \<open>The loop over the secrets: the first that verifies decides.\<close>

fun session_of :: "mac \<Rightarrow> int \<Rightarrow> string \<Rightarrow> string list \<Rightarrow> gobj" where
  "session_of mac now cookie [] = []"
| "session_of mac now cookie (secret # secrets) =
     (case verified_payload mac now cookie secret of
        None \<Rightarrow> session_of mac now cookie secrets
      | Some payload \<Rightarrow> odel ''iat'' (odel ''exp'' (own_enumerable payload)))"

definition get_session :: "mac \<Rightarrow> int \<Rightarrow> string option \<Rightarrow> string list \<Rightarrow> gobj" where
  "get_session mac now cookies secrets =
     (case cookies of
        None \<Rightarrow> []
      | Some header \<Rightarrow>
          (case map_of (cookie_parse header) session_cookie_name of
             None \<Rightarrow> []
           | Some cookie \<Rightarrow> if cookie = [] \<or> cookie = ''{}'' then [] else session_of mac now cookie secrets))"

definition request_session :: "server_env \<Rightarrow> int \<Rightarrow> request \<Rightarrow> gobj" where
  "request_session ev now rq = get_session (ev_mac ev) now (req_header rq ''cookie'') (ev_keys ev)"

subsection \<open>Single use\<close>

definition SESSION_TOKEN_TTL_MS :: int where
  "SESSION_TOKEN_TTL_MS = 60 * 1000"

type_synonym consumed = "(string, int) omap"

definition default_consume :: "int \<Rightarrow> string \<Rightarrow> int \<Rightarrow> consumed \<Rightarrow> bool \<times> consumed" where
  "default_consume now jti ttlMs store =
     (let live = filter (\<lambda>(i, expiry). \<not> expiry \<le> now) store in
      if jti \<in> set (okeys live) then (False, live) else (True, oset jti (now + ttlMs) live))"

text \<open>\<open>applySessionToken\<close>: whether it applied and the response, or an exception, and the store, which
  keeps a token as consumed even if writing the session throws.\<close>

definition applySessionToken ::
  "(int \<Rightarrow> string \<Rightarrow> int \<Rightarrow> 's \<Rightarrow> bool \<times> 's) \<Rightarrow> server_env \<Rightarrow> int \<Rightarrow> request \<Rightarrow> response \<Rightarrow> gval \<Rightarrow> 's \<Rightarrow>
   (js_error + bool \<times> response) \<times> 's" where
  "applySessionToken consume ev now rq response token store =
     (case verifySessionToken (ev_mac ev) now token (ev_keys ev) of
        None \<Rightarrow> (Inr (False, response), store)
      | Some verified \<Rightarrow>
          let presenter = request_session ev now rq;
              presenterSid = sessionTokenFingerprint (ev_mac ev) presenter (ev_keys ev)
          in if \<not> timingSafeEqual (sr_sid verified) presenterSid then (Inr (False, response), store)
             else
               let (ok, store') = consume now (sr_jti verified) SESSION_TOKEN_TTL_MS store in
               if \<not> ok then (Inr (False, response), store')
               else case sr_action verified of
                 ClearSession \<Rightarrow> (Inr (True, clear_session (Some rq) response), store')
               | WriteSession session merge \<Rightarrow>
                   (sbind (set_session ev now rq response
                       (if merge then spread presenter (own_enumerable session) else own_enumerable session))
                     (\<lambda>r. Inr (True, r)), store'))"

subsection \<open>The login endpoint\<close>

definition txn_cookie_response ::
  "server_env \<Rightarrow> int \<Rightarrow> request \<Rightarrow> redirect_txn \<Rightarrow> target \<Rightarrow> js_error + response" where
  "txn_cookie_response ev now rq txn t =
     sbind (signRedirectTxn (ev_mac ev) now txn (ev_keys ev)) (\<lambda>signed.
       Inr (append_cookie (redirectTxnCookie signed (\<not> insecure_loopback (Some (rq_url rq)))) (redirect_response 302 t)))"

definition oauth_start ::
  "server_env \<Rightarrow> int \<Rightarrow> fresh \<Rightarrow> request \<Rightarrow> oauth_provider \<Rightarrow> string \<Rightarrow> string \<Rightarrow> js_error + response" where
  "oauth_start ev now fr rq provider providerName redirectTo =
     sbind (pv_server provider) (\<lambda>(base, ps0).
      let oidcNonce = (if pv_issuer provider then Some (fr_oidcNonce fr) else None);
          codeVerifier = (if pv_pkce provider then Some (fr_codeVerifier fr) else None);
          ps1 = set_param ''client_id'' (pv_clientId provider) ps0;
          ps2 = set_param ''redirect_uri'' (oauthCallbackUrl ev rq) ps1;
          ps3 = set_param ''response_type'' ''code'' ps2;
          ps4 = set_param ''scope'' (join '' '' (pv_scopes provider)) ps3;
          ps5 = set_param ''state'' (fr_state fr) ps4;
          ps6 = (case codeVerifier of
                   None \<Rightarrow> ps5
                 | Some v \<Rightarrow> set_param ''code_challenge_method'' ''S256'' (set_param ''code_challenge'' (ev_challenge ev v) ps5));
          ps7 = (case oidcNonce of None \<Rightarrow> ps6 | Some n \<Rightarrow> set_param ''nonce'' n ps6)
      in txn_cookie_response ev now rq
           \<lparr>tx_nonce = fr_state fr, tx_redirectTo = redirectTo, tx_provider = Some providerName,
             tx_codeVerifier = codeVerifier, tx_oidcNonce = oidcNonce\<rparr> (External base ps7))"

text \<open>\<open>providers?.[name]\<close>: an inherited member of the object is found too, and has no \<open>server\<close>.\<close>

definition lookup_provider :: "server_env \<Rightarrow> string \<Rightarrow> js_error + oauth_provider option" where
  "lookup_provider ev name =
     (case ev_providers ev of
        None \<Rightarrow> Inr None
      | Some pvs \<Rightarrow>
          (case map_of pvs name of
             Some pv \<Rightarrow> Inr (Some pv)
           | None \<Rightarrow>
               if name \<in> set object_members then Inl (TypeError ''provider.server is not a function'') else Inr None))"

definition login_endpoint :: "server_env \<Rightarrow> int \<Rightarrow> fresh \<Rightarrow> request \<Rightarrow> js_error + response option" where
  "login_endpoint ev now fr rq =
     (if ev_redirect ev = None \<and> ev_providers ev = None then Inr None
      else if rq_method rq \<noteq> ''GET'' then Inr (Some (plain_response 405))
      else
        let ps = u_params (rq_url rq);
            redirectTo = safeRelative (case query_param ps ''redirectTo'' of Some v \<Rightarrow> Some v | None \<Rightarrow> sameOriginRefererPath ev rq);
            requested = (case query_param ps ''provider'' of None \<Rightarrow> [] | Some name \<Rightarrow> name)
        in sbind (if requested = [] then Inr None else lookup_provider ev requested) (\<lambda>provider.
             case provider of
               Some pv \<Rightarrow> sbind (oauth_start ev now fr rq pv requested redirectTo) (\<lambda>r. Inr (Some r))
             | None \<Rightarrow>
                 (case ev_redirect ev of
                    None \<Rightarrow> Inr (Some (plain_response 400))
                  | Some (base, ps0) \<Rightarrow>
                      let forwarded = fold (\<lambda>(k, v) q. if k \<noteq> ''redirectTo'' then set_param k v q else q) ps ps0;
                          t = External base (set_param ''return'' (oauthCallbackUrl ev rq)
                                (set_param ''state'' (fr_nonce fr) forwarded))
                      in sbind (txn_cookie_response ev now rq
                            \<lparr>tx_nonce = fr_nonce fr, tx_redirectTo = redirectTo, tx_provider = None,
                              tx_codeVerifier = None, tx_oidcNonce = None\<rparr> t) (\<lambda>r. Inr (Some r)))))"

subsection \<open>The auth endpoint\<close>

definition burn_txn :: "request \<Rightarrow> response \<Rightarrow> response" where
  "burn_txn rq r = append_cookie (clearRedirectTxnCookie (\<not> insecure_loopback (Some (rq_url rq)))) r"

definition oauth_callback :: "server_env \<Rightarrow> int \<Rightarrow> request \<Rightarrow> redirect_txn \<Rightarrow> string \<Rightarrow> oauth_provider \<Rightarrow> js_error + response" where
  "oauth_callback ev now rq txn name provider =
     sbind (pv_server provider) (\<lambda>endpoint.
       case ev_exchange ev name txn (u_params (rq_url rq)) of
         None \<Rightarrow> Inr (burn_txn rq (plain_response 403))
       | Some tokens \<Rightarrow>
           sbind (ev_user ev name tokens) (\<lambda>user.
           sbind (case ev_onSignIn ev of None \<Rightarrow> Inr (GObj []) | Some f \<Rightarrow> f name user tokens) (\<lambda>session.
           sbind (set_session ev now rq (redirect_response 302 (Path (tx_redirectTo txn)))
               (own_enumerable (or_default session (GObj []))))
             (\<lambda>r. Inr (burn_txn rq r)))))"

text \<open>The transaction cookie: the name without prefix counts on loopback only.\<close>

definition raw_txn :: "request \<Rightarrow> string option" where
  "raw_txn rq =
     (let cookies = cookie_parse (case req_header rq ''cookie'' of None \<Rightarrow> [] | Some c \<Rightarrow> c) in
      case map_of cookies REDIRECT_TXN_COOKIE of
        Some v \<Rightarrow> Some v
      | None \<Rightarrow> if insecure_loopback (Some (rq_url rq)) then map_of cookies REDIRECT_TXN_COOKIE_INSECURE else None)"

definition or_undefined :: "string option \<Rightarrow> gval" where
  "or_undefined v = (case v of None \<Rightarrow> GUndef | Some s \<Rightarrow> GStr s)"

text \<open>A handler gives a response, none at all, or an exception, and the store of consumed tokens.\<close>

type_synonym 's handler = "server_env \<Rightarrow> int \<Rightarrow> request \<Rightarrow> 's \<Rightarrow> (js_error + response option) \<times> 's"

type_synonym 's consumer = "int \<Rightarrow> string \<Rightarrow> int \<Rightarrow> 's \<Rightarrow> bool \<times> 's"

definition auth_get :: "'s consumer \<Rightarrow> 's handler" where
  "auth_get consume ev now rq store =
     (if ev_redirect ev = None \<and> ev_providers ev = None then (Inr None, store)
      else
        let ps = u_params (rq_url rq);
            txn = verifyRedirectTxn (ev_mac ev) now (or_undefined (raw_txn rq)) (ev_keys ev);
            state = (case query_param ps ''state'' of None \<Rightarrow> [] | Some x \<Rightarrow> x)
        in case txn of
             None \<Rightarrow> (Inr (Some (burn_txn rq (plain_response 403))), store)
           | Some t \<Rightarrow>
               if state = [] \<or> \<not> timingSafeEqual (tx_nonce t) state then (Inr (Some (burn_txn rq (plain_response 403))), store)
               else
                 let name = (case tx_provider t of None \<Rightarrow> [] | Some n \<Rightarrow> n) in
                 case (if name = [] then Inr None else lookup_provider ev name) of
                   Inl e \<Rightarrow> (Inl e, store)
                 | Inr (Some pv) \<Rightarrow> (sbind (oauth_callback ev now rq t name pv) (\<lambda>r. Inr (Some r)), store)
                 | Inr None \<Rightarrow>
                     let (result, store') = applySessionToken consume ev now rq (redirect_response 302 (Path (tx_redirectTo t)))
                           (or_undefined (query_param ps ''token'')) store
                     in (sbind result (\<lambda>(applied, r). Inr (Some (burn_txn rq (if applied then r else plain_response 403)))), store'))"

definition form_field :: "request \<Rightarrow> string \<Rightarrow> form_value option" where
  "form_field rq k = map_of (rq_form rq) k"

definition auth_post :: "'s consumer \<Rightarrow> 's handler" where
  "auth_post consume ev now rq store =
     (if \<not> isAllowedOrigin rq (ev_allowedOrigins ev) then (Inr (Some (plain_response 403)), store)
      else
        let contentType = (case req_header rq ''content-type'' of None \<Rightarrow> [] | Some c \<Rightarrow> c) in
        if js_includes contentType ''urlencoded'' \<or> js_includes contentType ''multipart'' then
          (if form_field rq ''__houdini_logout'' = None then (Inr (Some (plain_response 400)), store)
           else
             let t = safeRelative (case form_field rq ''redirectTo'' of Some (Field s) \<Rightarrow> Some s | _ \<Rightarrow> None) in
             (Inr (Some (clear_session (Some rq) (redirect_response 303 (Path t)))), store))
        else
          (case rq_json rq of
             None \<Rightarrow> (Inr (Some (plain_response 400)), store)
           | Some body \<Rightarrow>
               if \<not> truthy body \<or> \<not> is_object body then (Inr (Some (plain_response 400)), store)
               else
                 (case gprop body ''token'' of
                    GStr t \<Rightarrow>
                      let (result, store') = applySessionToken consume ev now rq (plain_response 200) (GStr t) store
                      in (sbind result (\<lambda>(applied, r). Inr (Some (if applied then r else plain_response 403))), store')
                  | _ \<Rightarrow>
                      if gprop body ''session'' = GNull then (Inr (Some (clear_session (Some rq) (plain_response 200))), store)
                      else
                        (sbind (set_session ev now rq (plain_response 200)
                            (spread (request_session ev now rq) (own_enumerable (or_default (gprop body ''session'') (GObj [])))))
                          (\<lambda>r. Inr (Some r)), store))))"

definition auth_endpoint :: "'s consumer \<Rightarrow> 's handler" where
  "auth_endpoint consume ev now rq store =
     (if rq_method rq = ''GET'' then auth_get consume ev now rq store
      else if rq_method rq = ''POST'' then auth_post consume ev now rq store
      else (Inr None, store))"

definition handle_request :: "'s consumer \<Rightarrow> fresh \<Rightarrow> 's handler" where
  "handle_request consume fr ev now rq store =
     (if u_pathname (rq_url rq) = ev_authUrl ev @ ''/login'' then (login_endpoint ev now fr rq, store)
      else if prefix (ev_authUrl ev) (u_pathname (rq_url rq)) then auth_endpoint consume ev now rq store
      else (Inr None, store))"

end
