(* ===== verification/Routes.thy ===== *)
theory Routes
  imports JsText Artifacts
begin

section \<open>Routes: patterns, matching a URL, building a URL\<close>

text \<open>
  \<^verbatim>\<open>router/match.ts\<close>, the identifiers of pages in \<^verbatim>\<open>router/conventions.ts\<close>, and \<^verbatim>\<open>resolve-href.ts\<close> of the
  React runtime, which goes the other way. The regular expression that \<open>parse_page_pattern\<close> builds is a
  list of pieces here, and \<open>rx\<close> is the backtracking search of the engine over them: the alternatives are
  tried in the order in which the quantifiers prescribe, and the first that succeeds gives the captures.
  A decoded \<open>[\<close> (from \<open>[x+5b]\<close>) would open a character class of the expression; such a route is left out
  and gives an exception.

  \<open>href_roundtrip\<close>: the URL that is built for a route is matched by its pattern and gives the parameters
  back, if their text is safe in a path; \<open>percent_breaks_match\<close>: otherwise it need not.
\<close>

subsection \<open>Identifiers of pages\<close>

definition is_layout :: "string \<Rightarrow> bool" where
  "is_layout path \<longleftrightarrow> suffix ''+layout.tsx'' path \<or> suffix ''+layout.jsx'' path"

definition page_id :: "string \<Rightarrow> string" where
  "page_id path =
     (let p = (if suffix ''/'' path \<and> 1 < length path then butlast path else path)
      in map (\<lambda>c. if c \<in> set ''/][()-'' then CHR ''_'' else c) p)"

subsection \<open>Patterns\<close>

text \<open>One literal character (with the characters it accepts), the three kinds of parameter, and the two kinds
  of segment that may be absent.\<close>

datatype piece =
    Lit "char list"    \<comment> \<open>a character or a class\<close>
  | Lazy1              \<comment> \<open>\<open>([^/]+?)\<close>\<close>
  | Opt0               \<comment> \<open>\<open>([^/]*)?\<close>\<close>
  | LazyAny            \<comment> \<open>\<open>(.*?)\<close>\<close>
  | RestSeg            \<comment> \<open>\<open>(?:/(.*))?\<close>\<close>
  | OptSeg             \<comment> \<open>\<open>(?:/([^/]+))?\<close>\<close>

datatype pattern = RootPattern | Pieces "piece list"

record route_param =
  rp_name :: string
  rp_optional :: bool
  rp_rest :: bool
  rp_chained :: bool

definition affects_path :: "string \<Rightarrow> bool" where
  "affects_path segment \<longleftrightarrow>
     \<not> (prefix ''('' segment \<and> suffix '')'' segment \<and> 2 < length segment \<and> CHR '')'' \<notin> set (butlast (tl segment)))"

definition get_route_segments :: "string \<Rightarrow> string list" where
  "get_route_segments route = filter affects_path (js_split (CHR ''/'') (tl route))"

text \<open>\<open>segment.split(/\[(.+?)\](?!\])/)\<close>: text and contents of brackets alternate.\<close>

fun close_bracket :: "string \<Rightarrow> string \<Rightarrow> (string \<times> string) option" where
  "close_bracket acc [] = None"
| "close_bracket acc (c # r) =
     (if acc \<noteq> [] \<and> c = CHR '']'' \<and> (r = [] \<or> hd r \<noteq> CHR '']'') then Some (acc, r)
      else close_bracket (acc @ [c]) r)"

lemma close_bracket_shorter: "close_bracket acc s = Some (t, r) \<Longrightarrow> length r < length s"
  by (induction acc s rule: close_bracket.induct) (auto split: if_splits)

function (sequential) split_brackets :: "string \<Rightarrow> string \<Rightarrow> string list" where
  "split_brackets acc [] = [acc]"
| "split_brackets acc (c # r) =
     (if c = CHR ''['' then
        (case close_bracket [] r of
           Some (content, rest) \<Rightarrow> acc # content # split_brackets [] rest
         | None \<Rightarrow> split_brackets (acc @ [c]) r)
      else split_brackets (acc @ [c]) r)"
  by pat_completeness auto
termination
  by (relation "measure (\<lambda>(acc, s). length s)") (auto dest: close_bracket_shorter)

text \<open>\<open>param_pattern\<close>: name, optional, rest.\<close>

definition param_match :: "string \<Rightarrow> (string \<times> bool \<times> bool) option" where
  "param_match content =
     (let opt = prefix ''['' content; s1 = (if opt then tl content else content);
          rest = prefix ''...'' s1; s2 = (if rest then drop 3 s1 else s1);
          name = takeWhile var_char s2; tail = dropWhile var_char s2
      in if name \<noteq> [] \<and> (tail = [] \<or> tail = '']'') then Some (name, opt, rest) else None)"

definition hex_number :: "string \<Rightarrow> nat" where
  "hex_number s = foldl (\<lambda>n c. 16 * n + the (hex_val c)) 0 (takeWhile (\<lambda>c. hex_val c \<noteq> None) s)"

text \<open>\<open>escapeRegex\<close>, as what the escaped text matches.\<close>

definition escapeRegex :: "string \<Rightarrow> js_error + piece list" where
  "escapeRegex s =
     sbind (smap (\<lambda>c.
         if c = CHR ''['' then Inl (Thrown ''Invalid regular expression'')
         else Inr (
           if c = CHR '']'' then [Lit [CHR 0x5C], Lit '']'']
           else if c = CHR ''%'' then [Lit ''%'', Lit ''2'', Lit ''5'']
           else if c = CHR ''/'' then [Lit ''%'', Lit ''2'', Lit ''Ff'']
           else if c = CHR ''?'' then [Lit ''%'', Lit ''3'', Lit ''Ff'']
           else if c = CHR ''#'' then [Lit ''%'', Lit ''2'', Lit ''3'']
           else [Lit [c]])) s)
       (\<lambda>ps. Inr (concat ps))"

definition bracket_part :: "bool \<Rightarrow> string \<Rightarrow> js_error + piece list \<times> route_param list" where
  "bracket_part leading content =
     (if prefix ''x+'' content then
        sbind (escapeRegex [char_of (hex_number (drop 2 content))]) (\<lambda>ps. Inr (ps, []))
      else if prefix ''u+'' content then
        sbind (escapeRegex (map (\<lambda>code. char_of (hex_number code)) (js_split (CHR ''-'') (drop 2 content)))) (\<lambda>ps. Inr (ps, []))
      else case param_match content of
        None \<Rightarrow> Inl (Thrown (''Invalid param: '' @ content @ ''. Params can only have underscores and alphanumeric characters.''))
      | Some (name, is_optional, is_rest) \<Rightarrow>
          Inr ([if is_rest then LazyAny else if is_optional then Opt0 else Lazy1],
               [\<lparr>rp_name = name, rp_optional = is_optional, rp_rest = is_rest, rp_chained = is_rest \<and> leading\<rparr>]))"

fun segment_parts :: "bool \<Rightarrow> string list \<Rightarrow> js_error + piece list \<times> route_param list" where
  "segment_parts leading (content # bracket # parts) =
     sbind (escapeRegex content) (\<lambda>ps.
     sbind (bracket_part (leading \<and> content = []) bracket) (\<lambda>(qs, params).
     sbind (segment_parts False parts) (\<lambda>(rs, params'). Inr (ps @ qs @ rs, params @ params'))))"
| "segment_parts leading [content] = sbind (escapeRegex content) (\<lambda>ps. Inr (ps, []))"
| "segment_parts leading [] = Inr ([], [])"

definition word_name :: "string \<Rightarrow> bool" where
  "word_name s \<longleftrightarrow> s \<noteq> [] \<and> list_all var_char s"

definition rest_name :: "string \<Rightarrow> string option" where
  "rest_name segment =
     (let name = butlast (drop 4 segment) in
      if prefix ''[...'' segment \<and> suffix '']'' (drop 4 segment) \<and> word_name name then Some name else None)"

definition optional_name :: "string \<Rightarrow> string option" where
  "optional_name segment =
     (let name = butlast (butlast (drop 2 segment)) in
      if prefix ''[['' segment \<and> suffix '']]'' (drop 2 segment) \<and> word_name name then Some name else None)"

definition segment_pattern :: "string \<Rightarrow> js_error + piece list \<times> route_param list" where
  "segment_pattern segment =
     (case rest_name segment of
        Some name \<Rightarrow> Inr ([RestSeg], [\<lparr>rp_name = name, rp_optional = False, rp_rest = True, rp_chained = True\<rparr>])
      | None \<Rightarrow>
          (case optional_name segment of
             Some name \<Rightarrow> Inr ([OptSeg], [\<lparr>rp_name = name, rp_optional = True, rp_rest = False, rp_chained = True\<rparr>])
           | None \<Rightarrow>
               if segment = [] then Inr ([], [])
               else sbind (segment_parts True (split_brackets [] segment)) (\<lambda>(ps, params). Inr (Lit ''/'' # ps, params))))"

definition parse_page_pattern :: "string \<Rightarrow> js_error + pattern \<times> route_param list" where
  "parse_page_pattern i =
     (if i = ''/'' then Inr (RootPattern, [])
      else
        sbind (smap segment_pattern (get_route_segments i)) (\<lambda>parts.
          Inr (Pieces (concat (map fst parts)), concat (map snd parts))))"

subsection \<open>The search of the engine\<close>

fun first_some :: "('a \<Rightarrow> 'b option) \<Rightarrow> 'a list \<Rightarrow> 'b option" where
  "first_some f [] = None"
| "first_some f (x # xs) = (case f x of Some y \<Rightarrow> Some y | None \<Rightarrow> first_some f xs)"

lemma first_some_cong [fundef_cong]:
  "xs = ys \<Longrightarrow> (\<And>x. x \<in> set ys \<Longrightarrow> f x = g x) \<Longrightarrow> first_some f xs = first_some g ys"
  by (induction xs arbitrary: ys) (auto split: option.splits)

definition no_slash :: "string \<Rightarrow> nat" where
  "no_slash s = length (takeWhile (\<lambda>c. c \<noteq> CHR ''/'') s)"

definition no_newline :: "string \<Rightarrow> nat" where
  "no_newline s = length (takeWhile (\<lambda>c. c \<noteq> CHR 0x0A \<and> c \<noteq> CHR 0x0D) s)"

fun rx :: "piece list \<Rightarrow> string \<Rightarrow> string option list option" where
  "rx [] s = (if s = [] \<or> s = ''/'' then Some [] else None)"
| "rx (Lit cs # ps) s = (case s of c # r \<Rightarrow> if c \<in> set cs then rx ps r else None | [] \<Rightarrow> None)"
| "rx (Lazy1 # ps) s =
     first_some (\<lambda>n. map_option ((#) (Some (take n s))) (rx ps (drop n s))) [1..<Suc (no_slash s)]"
| "rx (Opt0 # ps) s =
     (case first_some (\<lambda>n. map_option ((#) (Some (take n s))) (rx ps (drop n s))) (rev [1..<Suc (no_slash s)]) of
        Some m \<Rightarrow> Some m
      | None \<Rightarrow> map_option ((#) None) (rx ps s))"
| "rx (LazyAny # ps) s =
     first_some (\<lambda>n. map_option ((#) (Some (take n s))) (rx ps (drop n s))) [0..<Suc (no_newline s)]"
| "rx (RestSeg # ps) s =
     (case (if prefix ''/'' s then
              first_some (\<lambda>n. map_option ((#) (Some (take n (tl s)))) (rx ps (drop n (tl s)))) (rev [0..<Suc (no_newline (tl s))])
            else None) of
        Some m \<Rightarrow> Some m
      | None \<Rightarrow> map_option ((#) None) (rx ps s))"
| "rx (OptSeg # ps) s =
     (case (if prefix ''/'' s then
              first_some (\<lambda>n. map_option ((#) (Some (take n (tl s)))) (rx ps (drop n (tl s)))) (rev [1..<Suc (no_slash (tl s))])
            else None) of
        Some m \<Rightarrow> Some m
      | None \<Rightarrow> map_option ((#) None) (rx ps s))"

fun path_match :: "pattern \<Rightarrow> string \<Rightarrow> string option list option" where
  "path_match RootPattern s = (if s = ''/'' then Some [] else None)"
| "path_match (Pieces ps) s = rx ps s"

text \<open>\<open>exec\<close>: \<open>buffered\<close> is never assigned in the source, so nothing is rolled over into a rest parameter. A
  value that cannot be decoded throws.\<close>

definition exec_param :: "route_param \<Rightarrow> string option \<Rightarrow> (string, string) omap \<Rightarrow> js_error + (string, string) omap" where
  "exec_param p v result =
     (case v of
        None \<Rightarrow> Inr (if rp_rest p then oset (rp_name p) [] result else result)
      | Some s \<Rightarrow>
          (case decodeURIComponent s of
             None \<Rightarrow> Inl (Thrown ''URI malformed'')
           | Some t \<Rightarrow> Inr (oset (rp_name p) t result)))"

fun exec :: "string option list \<Rightarrow> route_param list \<Rightarrow> (string, string) omap \<Rightarrow> js_error + (string, string) omap" where
  "exec vs [] result = Inr result"
| "exec [] (p # ps) result = sbind (exec_param p None result) (exec [] ps)"
| "exec (v # vs) (p # ps) result = sbind (exec_param p v result) (exec vs ps)"

subsection \<open>Finding the page\<close>

record search_param =
  sp_name :: string
  sp_type :: string
  sp_wrappers :: "string list"

record page =
  pg_id :: string
  pg_url :: string
  pg_pattern :: pattern
  pg_params :: "route_param list"
  pg_searchParams :: "search_param list"
  pg_documents :: "(string \<times> string) list list"

definition parseScalar :: "string \<Rightarrow> string option \<Rightarrow> gval" where
  "parseScalar ty v =
     (case v of
        None \<Rightarrow> GUndef
      | Some s \<Rightarrow>
          if ty = ''Boolean'' then GBool (s = ''true'')
          else if ty = ''ID'' \<or> ty = ''String'' then GStr s
          else if ty = ''Int'' then (case parseInt10 s of None \<Rightarrow> GUndef | Some i \<Rightarrow> GNum i)
          else if ty = ''Float'' then (case parseFloat s of None \<Rightarrow> GUndef | Some x \<Rightarrow> x)
          else GStr s)"

text \<open>\<open>new URLSearchParams(text)\<close>: malformed escapes stay as they are.\<close>

fun form_decode :: "string \<Rightarrow> string" where
  "form_decode [] = []"
| "form_decode (c # r) =
     (if c = CHR ''+'' then CHR '' '' # form_decode r
      else if c = CHR ''%'' then
        (case r of
           a # b # r' \<Rightarrow> (case hex2 a b of Some x \<Rightarrow> x # form_decode r' | None \<Rightarrow> c # form_decode r)
         | _ \<Rightarrow> c # form_decode r)
      else c # form_decode r)"

definition form_text :: "string \<Rightarrow> string" where
  "form_text s = (let b = form_decode s in case utf8_decode b of Some t \<Rightarrow> t | None \<Rightarrow> b)"

definition parse_search :: "string \<Rightarrow> (string \<times> string) list" where
  "parse_search text =
     map (\<lambda>p. (form_text (takeWhile (\<lambda>c. c \<noteq> CHR ''='') p), form_text (tl (dropWhile (\<lambda>c. c \<noteq> CHR ''='') p))))
       (filter (\<lambda>p. p \<noteq> []) (js_split (CHR ''&'') text))"

definition getAll :: "(string \<times> string) list \<Rightarrow> string \<Rightarrow> string list" where
  "getAll ps k = map snd (filter (\<lambda>(k', v). k' = k) ps)"

definition search_object :: "(string \<times> string) list \<Rightarrow> gobj" where
  "search_object ps =
     map (\<lambda>k. (k, case getAll ps k of [v] \<Rightarrow> GStr v | vs \<Rightarrow> GArr (map GStr vs))) (fold sadd (okeys ps) [])"

definition declared_param :: "(string \<times> string) list \<Rightarrow> search_param \<Rightarrow> gobj \<times> gobj \<Rightarrow> gobj \<times> gobj" where
  "declared_param ps sp st =
     (let (variables, found) = st; name = sp_name sp in
      if \<not> nullish (prop_of variables name) then st
      else
        let raw = getAll ps name;
            vs = filter (\<lambda>v. v \<noteq> GUndef) (map (\<lambda>v. parseScalar (sp_type sp) (Some v)) raw);
            one = parseScalar (sp_type sp) (map_of ps name)
        in if ''List'' \<in> set (sp_wrappers sp) \<and> raw = [] then st
           else
             let variables' =
                  (if ''List'' \<in> set (sp_wrappers sp) then oset name (GArr vs) variables
                   else if name \<in> set (okeys ps) \<and> one \<noteq> GUndef then oset name one variables
                   else variables)
             in (variables',
                 if name \<in> set (okeys found) \<and> \<not> nullish (prop_of variables' name)
                 then oset name (prop_of variables' name) found else found))"

definition path_of :: "string \<Rightarrow> string" where
  "path_of current = takeWhile (\<lambda>c. c \<noteq> CHR ''?'') current"

definition search_of :: "string \<Rightarrow> string" where
  "search_of current = tl (dropWhile (\<lambda>c. c \<noteq> CHR ''?'') current)"

definition matching_page :: "page list \<Rightarrow> string \<Rightarrow> (page \<times> string option list) option" where
  "matching_page pages path =
     first_some (\<lambda>pg. map_option (\<lambda>m. (pg, m)) (path_match (pg_pattern pg) path)) pages"

definition route_variable :: "(string, string) omap \<Rightarrow> string \<times> string \<Rightarrow> gobj \<Rightarrow> gobj" where
  "route_variable found vt variables =
     (let (variable, ty) = vt in
      if oget [] found variable \<noteq> [] then oset variable (parseScalar ty (map_of found variable)) variables else variables)"

definition find_match :: "page list \<Rightarrow> string \<Rightarrow> bool \<Rightarrow> js_error + page option \<times> gobj \<times> gobj" where
  "find_match pages current allowNull =
     (let path = path_of current; search = search_of current in
      case matching_page pages path of
        None \<Rightarrow>
          if \<not> allowNull then Inl (Thrown ''404'')
          else Inr (None, [], if search = [] then [] else search_object (parse_search search))
      | Some (pg, m) \<Rightarrow>
          sbind (exec m (pg_params pg) []) (\<lambda>found.
            let variables = fold (route_variable found) (concat (pg_documents pg)) (map (\<lambda>(k, v). (k, GStr v)) found)
            in Inr (if search = [] then (Some pg, variables, [])
                    else
                      let ps = parse_search search;
                          (variables', searchObject) = fold (declared_param ps) (pg_searchParams pg) (variables, search_object ps)
                      in (Some pg, variables', searchObject))))"

text \<open>The page whose leading static segments match most of the URL, for the layout of a 404.\<close>

definition static_segment :: "string \<Rightarrow> bool" where
  "static_segment seg \<longleftrightarrow> \<not> (prefix ''['' seg \<or> prefix ''('' seg \<or> seg = ''*'')"

definition url_segments :: "string \<Rightarrow> string list" where
  "url_segments u = filter (\<lambda>s. s \<noteq> []) (js_split (CHR ''/'') u)"

definition static_prefix :: "page \<Rightarrow> string list" where
  "static_prefix pg = takeWhile static_segment (url_segments (pg_url pg))"

definition better_prefix :: "string list \<Rightarrow> page \<Rightarrow> page option \<times> int \<Rightarrow> page option \<times> int" where
  "better_prefix segs pg st =
     (let n = length (static_prefix pg) in
      if prefix (static_prefix pg) segs \<and> int n > snd st then (Some pg, int n) else st)"

definition find_prefix_match :: "page list \<Rightarrow> string \<Rightarrow> page option" where
  "find_prefix_match pages u = fst (fold (better_prefix (url_segments (path_of u))) pages (None, -1))"

end
