(* ===== verification/Hrefs.thy ===== *)
theory Hrefs
  imports Routes Scalars
begin

section \<open>Coercion of transport values, and the URLs of links\<close>

text \<open>
  \<^verbatim>\<open>runtime/coerce.ts\<close>, the shared core that turns the text of a URL or a form into values, and
  \<^verbatim>\<open>houdini-react/runtime/resolve-href.ts\<close>, which builds the URL of a link from its parameters and search
  values. The functions of custom scalars come from the configuration (\<open>scalar_table\<close>).
\<close>

subsection \<open>Coercion\<close>

definition decodeScalar :: "string \<Rightarrow> gval" where
  "decodeScalar v = (case json_parse v of Some x \<Rightarrow> x | None \<Rightarrow> GStr v)"

function unmarshalValue :: "(gval \<Rightarrow> gval) option \<Rightarrow> gval \<Rightarrow> gval" where
  "unmarshalValue f v =
     (if nullish v then v
      else case v of
        GArr xs \<Rightarrow> GArr (map (unmarshalValue f) xs)
      | _ \<Rightarrow> (let decoded = (case v of GStr s \<Rightarrow> decodeScalar s | _ \<Rightarrow> v)
              in case f of None \<Rightarrow> decoded | Some g \<Rightarrow> g decoded))"
  by pat_completeness auto
termination
  by (relation "measure (\<lambda>(f, v). gdepth v)") (use gdepth_arr in auto)

declare unmarshalValue.simps [simp del]

subsection \<open>Marshallers of a route\<close>

type_synonym marshalers = "(string, gval \<Rightarrow> js_error + gval) omap"

type_synonym unmarshalers = "(string, gval \<Rightarrow> gval) omap"

definition scalarMarshalers :: "(string \<times> string option) list \<Rightarrow> scalar_table \<Rightarrow> marshalers" where
  "scalarMarshalers defs scalars =
     fold (\<lambda>(name, ty) out.
        case (case ty of None \<Rightarrow> None | Some t \<Rightarrow> if t = [] then None else map_of scalars t) of
          None \<Rightarrow> out
        | Some fns \<Rightarrow> (case sf_marshal fns of None \<Rightarrow> out | Some f \<Rightarrow> oset name f out)) defs []"

definition scalarUnmarshalers :: "(string \<times> string option) list \<Rightarrow> scalar_table \<Rightarrow> unmarshalers" where
  "scalarUnmarshalers defs scalars =
     fold (\<lambda>(name, ty) out.
        case (case ty of None \<Rightarrow> None | Some t \<Rightarrow> if t = [] then None else map_of scalars t) of
          None \<Rightarrow> out
        | Some fns \<Rightarrow> (case sf_unmarshal fns of None \<Rightarrow> out | Some f \<Rightarrow> oset name f out)) defs []"

definition unmarshalScalars :: "gobj \<Rightarrow> unmarshalers \<Rightarrow> gobj" where
  "unmarshalScalars vs fs =
     fold (\<lambda>(key, f) out. if nullish (prop_of out key) then out else oset key (unmarshalValue (Some f) (prop_of out key)) out) fs vs"

definition marshalValue :: "marshalers \<Rightarrow> string \<Rightarrow> gval \<Rightarrow> js_error + string" where
  "marshalValue ms key v =
     (case map_of ms key of
        None \<Rightarrow> Inr (js_string v)
      | Some f \<Rightarrow> sbind (f v) (\<lambda>w. Inr (js_string w)))"

subsection \<open>resolveHref\<close>

text \<open>The three replacements, each one pass over the text.\<close>

definition render :: "marshalers \<Rightarrow> gobj \<Rightarrow> string \<Rightarrow> js_error + string option" where
  "render ms params key =
     (let v = prop_of params key in
      if nullish v then Inr None else sbind (marshalValue ms key v) (\<lambda>t. Inr (Some t)))"

definition upto_bracket :: "string \<Rightarrow> string" where
  "upto_bracket s = takeWhile (\<lambda>c. c \<noteq> CHR '']'') s"

definition from_bracket :: "string \<Rightarrow> string" where
  "from_bracket s = dropWhile (\<lambda>c. c \<noteq> CHR '']'') s"

lemma from_bracket_length: "length (from_bracket s) \<le> length s"
  by (simp add: from_bracket_def length_dropWhile_le)

lemma drop_from_shorter: "length (from_bracket (drop k s)) - m < Suc (length s)" "length (from_bracket s) - m < Suc (length s)"
  using from_bracket_length [of "drop k s"] from_bracket_length [of s] by (auto simp: less_Suc_eq_le)

text \<open>\<open>/\[\[([^\]]+)\]\]\<close>\<close>

function sub_optional :: "(string \<Rightarrow> js_error + string option) \<Rightarrow> string \<Rightarrow> js_error + string" where
  "sub_optional f s =
     (case s of
        [] \<Rightarrow> Inr []
      | c # r \<Rightarrow>
          let key = upto_bracket (drop 3 s); rest = from_bracket (drop 3 s) in
          if prefix ''/[['' s \<and> key \<noteq> [] \<and> prefix '']]'' rest then
            sbind (f key) (\<lambda>v.
            sbind (sub_optional f (drop 2 rest)) (\<lambda>t.
              Inr ((case v of None \<Rightarrow> [] | Some x \<Rightarrow> CHR ''/'' # x) @ t)))
          else sbind (sub_optional f r) (\<lambda>t. Inr (c # t)))"
  by pat_completeness auto
termination
  by (relation "measure (\<lambda>(f, s). length s)") (auto simp: drop_from_shorter)

text \<open>\<open>\[\.\.\.([^\]]+)\]\<close>\<close>

function sub_rest :: "(string \<Rightarrow> js_error + string option) \<Rightarrow> string \<Rightarrow> js_error + string" where
  "sub_rest f s =
     (case s of
        [] \<Rightarrow> Inr []
      | c # r \<Rightarrow>
          let key = upto_bracket (drop 4 s); rest = from_bracket (drop 4 s) in
          if prefix ''[...'' s \<and> key \<noteq> [] \<and> rest \<noteq> [] then
            sbind (f key) (\<lambda>v.
            sbind (sub_rest f (drop 1 rest)) (\<lambda>t. Inr ((case v of None \<Rightarrow> [] | Some x \<Rightarrow> x) @ t)))
          else sbind (sub_rest f r) (\<lambda>t. Inr (c # t)))"
  by pat_completeness auto
termination
  by (relation "measure (\<lambda>(f, s). length s)") (auto simp: drop_from_shorter)

text \<open>\<open>\[([^\]]+)\]\<close>: an absent parameter leaves its name.\<close>

function sub_plain :: "(string \<Rightarrow> js_error + string option) \<Rightarrow> string \<Rightarrow> js_error + string" where
  "sub_plain f s =
     (case s of
        [] \<Rightarrow> Inr []
      | c # r \<Rightarrow>
          let key = upto_bracket (drop 1 s); rest = from_bracket (drop 1 s) in
          if prefix ''['' s \<and> key \<noteq> [] \<and> rest \<noteq> [] then
            sbind (f key) (\<lambda>v.
            sbind (sub_plain f (drop 1 rest)) (\<lambda>t. Inr ((case v of None \<Rightarrow> key | Some x \<Rightarrow> x) @ t)))
          else sbind (sub_plain f r) (\<lambda>t. Inr (c # t)))"
  by pat_completeness auto
termination
  by (relation "measure (\<lambda>(f, s). length s)") (auto simp: drop_from_shorter)

declare sub_optional.simps [simp del] sub_rest.simps [simp del] sub_plain.simps [simp del]

definition resolveHref :: "marshalers \<Rightarrow> string \<Rightarrow> gobj \<Rightarrow> js_error + string" where
  "resolveHref ms href params =
     sbind (sub_optional (render ms params) href) (\<lambda>a.
     sbind (sub_rest (render ms params) a) (sub_plain (render ms params)))"

subsection \<open>serializeSearch\<close>

text \<open>\<open>URLSearchParams.toString()\<close>.\<close>

definition form_unreserved :: "char \<Rightarrow> bool" where
  "form_unreserved c \<longleftrightarrow> (let n = of_char c :: nat in
     65 \<le> n \<and> n \<le> 90 \<or> 97 \<le> n \<and> n \<le> 122 \<or> 48 \<le> n \<and> n \<le> 57 \<or> c \<in> set ''*-._'')"

definition form_char :: "char \<Rightarrow> string" where
  "form_char c =
     (if c = CHR '' '' then ''+'' else if form_unreserved c then [c] else concat (map percent (utf8_char c)))"

definition form_encode :: "string \<Rightarrow> string" where
  "form_encode s = concat (map form_char s)"

definition search_text :: "(string \<times> string) list \<Rightarrow> string" where
  "search_text ps = join ''&'' (map (\<lambda>(k, v). form_encode k @ ''='' @ form_encode v) ps)"

definition search_pairs :: "marshalers \<Rightarrow> gobj \<Rightarrow> js_error + (string \<times> string) list" where
  "search_pairs ms search =
     sbind (smap (\<lambda>(key, v).
         if nullish v then Inr []
         else case v of
           GArr entries \<Rightarrow> smap (\<lambda>e. sbind (marshalValue ms key e) (\<lambda>t. Inr (key, t))) (filter (\<lambda>e. \<not> nullish e) entries)
         | _ \<Rightarrow> sbind (marshalValue ms key v) (\<lambda>t. Inr [(key, t)])) search)
       (\<lambda>parts. Inr (concat parts))"

definition serializeSearch :: "marshalers \<Rightarrow> gobj \<Rightarrow> js_error + string" where
  "serializeSearch ms search =
     sbind (search_pairs ms search) (\<lambda>ps. Inr (if search_text ps = [] then [] else CHR ''?'' # search_text ps))"

record route_info =
  ri_params :: "(string \<times> string option) list"
  ri_searchParams :: "(string \<times> string option) list"

definition buildHref :: "string \<Rightarrow> route_info option \<Rightarrow> scalar_table \<Rightarrow> gobj option \<Rightarrow> gobj option \<Rightarrow> js_error + string" where
  "buildHref target route scalars params search =
     sbind (case params of
              None \<Rightarrow> Inr target
            | Some ps \<Rightarrow> resolveHref (scalarMarshalers (case route of None \<Rightarrow> [] | Some r \<Rightarrow> ri_params r) scalars) target ps) (\<lambda>href.
       case search of
         None \<Rightarrow> Inr href
       | Some s \<Rightarrow>
           sbind (serializeSearch (scalarMarshalers (case route of None \<Rightarrow> [] | Some r \<Rightarrow> ri_searchParams r) scalars) s)
             (\<lambda>t. Inr (href @ t)))"

end
