(* ===== verification/Forms.thy ===== *)
theory Forms
  imports Hrefs
begin

section \<open>Forms: coercion, multipart bodies, redirect templates\<close>

text \<open>
  \<^verbatim>\<open>runtime/formData.ts\<close>, \<^verbatim>\<open>runtime/multipart.ts\<close> and \<^verbatim>\<open>runtime/endpoint.ts\<close>. The flat keys of a form are
  folded into nested objects. These are object literals, so a segment \<open>__proto__\<close> leads to the prototype
  that all objects share: the model carries the properties that were put there (\<open>protos\<close>). A path that
  goes on below a list, an upload or a built-in function, or that meets a property of the prototype, is
  outside the model and ends in the exception \<open>unmodelled\<close>. The properties of a text or of an upload
  count as absent.
\<close>

subsection \<open>foldFormData\<close>

datatype raw = RLeaf form_value | RList "form_value list" | RObj "(string \<times> raw) list"

type_synonym raw_obj = "(string, raw) omap"

definition unmodelled :: js_error where
  "unmodelled = Thrown ''outside the model''"

definition list_segment :: "string \<Rightarrow> bool" where
  "list_segment segment \<longleftrightarrow> suffix ''[]'' segment"

definition segment_name :: "string \<Rightarrow> string" where
  "segment_name segment = (if list_segment segment then take (length segment - 2) segment else segment)"

text \<open>\<open>cursor[name]\<close>: an own property, a property of the prototype, or a member every object has.\<close>

definition raw_lookup :: "raw_obj \<Rightarrow> raw_obj \<Rightarrow> string \<Rightarrow> js_error + raw option" where
  "raw_lookup protos own name =
     (case map_of own name of
        Some r \<Rightarrow> Inr (Some r)
      | None \<Rightarrow> if name \<in> set (okeys protos) \<or> name \<in> set object_members then Inl unmodelled else Inr None)"

text \<open>The last segment.\<close>

definition put_last :: "raw_obj \<Rightarrow> string \<Rightarrow> form_value \<Rightarrow> raw_obj \<Rightarrow> js_error + raw_obj" where
  "put_last protos segment v own =
     (let name = segment_name segment in
      if list_segment segment then
        sbind (raw_lookup protos own name) (\<lambda>r.
          case r of
            None \<Rightarrow> Inr (oset name (RList [v]) own)
          | Some (RList vs) \<Rightarrow> Inr (oset name (RList (vs @ [v])) own)
          | Some _ \<Rightarrow> Inl (TypeError ''push is not a function''))
      else if name = ''__proto__'' then (case v of Field s \<Rightarrow> Inr own | Upload f \<Rightarrow> Inl unmodelled)
      else Inr (oset name (RLeaf v) own))"

text \<open>The walk along the segments. The flag says that the cursor is the prototype itself, whose own
  prototype is null.\<close>

fun put_path :: "bool \<Rightarrow> string list \<Rightarrow> form_value \<Rightarrow> raw_obj \<Rightarrow> raw_obj \<Rightarrow> js_error + raw_obj \<times> raw_obj" where
  "put_path at_proto [] v own protos = Inr (own, protos)"
| "put_path at_proto [segment] v own protos =
     sbind (put_last (if at_proto then [] else protos) segment v own) (\<lambda>own'. Inr (own', protos))"
| "put_path at_proto (segment # s # ss) v own protos =
     (let name = segment_name segment in
      if name = ''__proto__'' then
        (if at_proto then Inl (TypeError ''Immutable prototype object cannot have their prototype set'')
         else sbind (put_path True (s # ss) v protos []) (\<lambda>(protos', rest). Inr (own, protos')))
      else
        sbind (raw_lookup (if at_proto then [] else protos) own name) (\<lambda>r.
          case r of
            None \<Rightarrow> sbind (put_path False (s # ss) v [] protos) (\<lambda>(inner, protos'). Inr (oset name (RObj inner) own, protos'))
          | Some (RObj inner) \<Rightarrow>
              sbind (put_path False (s # ss) v inner protos) (\<lambda>(inner', protos'). Inr (oset name (RObj inner') own, protos'))
          | Some (RLeaf (Field t)) \<Rightarrow> Inl (TypeError ''Cannot create property on string'')
          | Some _ \<Rightarrow> Inl unmodelled))"

definition put_entry :: "string list option \<Rightarrow> string \<times> form_value \<Rightarrow> raw_obj \<times> raw_obj \<Rightarrow> js_error + raw_obj \<times> raw_obj" where
  "put_entry allowed kv st =
     (let (key, v) = kv; (root, protos) = st in
      if (case allowed of None \<Rightarrow> False | Some keys \<Rightarrow> key \<notin> set keys) then Inr (root, protos)
      else put_path False (js_split (CHR ''.'') key) v root protos)"

definition foldFormData :: "(string \<times> form_value) list \<Rightarrow> string list option \<Rightarrow> js_error + raw_obj \<times> raw_obj" where
  "foldFormData entries allowed = sfold (put_entry allowed) entries ([], [])"

subsection \<open>Coercion against the metadata\<close>

text \<open>A coerced value may hold uploads.\<close>

datatype fval = FPlain gval | FUpload nat | FList "fval list" | FObj "(string \<times> fval) list"

definition raw_text :: "raw \<Rightarrow> string" where
  "raw_text r = (case r of RLeaf (Field s) \<Rightarrow> s | _ \<Rightarrow> ''[object Object]'')"

definition coerceLeaf :: "scalar_table \<Rightarrow> string \<Rightarrow> raw \<Rightarrow> fval" where
  "coerceLeaf scalars ty v =
     (case v of
        RLeaf (Upload f) \<Rightarrow> FUpload f
      | _ \<Rightarrow>
          let text = raw_text v in
          FPlain
            (case map_of scalars ty of
               Some fns \<Rightarrow> if text = [] then GNull else unmarshalValue (sf_unmarshal fns) (GStr text)
             | None \<Rightarrow>
                 if ty = ''Int'' then (if text = [] then GNull else case parseInt10 text of None \<Rightarrow> GNull | Some i \<Rightarrow> GNum i)
                 else if ty = ''Float'' then (if text = [] then GNull else case parseFloat text of None \<Rightarrow> GNull | Some x \<Rightarrow> x)
                 else if ty = ''Boolean'' then GBool (text = ''true'' \<or> text = ''on'' \<or> text = ''1'')
                 else if ty = ''String'' \<or> ty = ''ID'' then GStr text
                 else if text = [] then GNull else GStr text))"

text \<open>\<open>raw?.[field]\<close>, for an entry of a list or a string below which nothing is found.\<close>

definition raw_field :: "raw_obj \<Rightarrow> raw option \<Rightarrow> string \<Rightarrow> js_error + raw option" where
  "raw_field protos r field = (case r of Some (RObj own) \<Rightarrow> raw_lookup protos own field | _ \<Rightarrow> Inr None)"

fun raw_depth :: "raw \<Rightarrow> nat" where
  "raw_depth (RObj ps) = Suc (fold max (map (\<lambda>(k, r). raw_depth r) ps) 0)"
| "raw_depth (RList vs) = 1"
| "raw_depth (RLeaf v) = 0"

definition opt_depth :: "raw option \<Rightarrow> nat" where
  "opt_depth r = (case r of None \<Rightarrow> 0 | Some x \<Rightarrow> raw_depth x)"

lemma raw_depth_mem: "(k, r) \<in> set ps \<Longrightarrow> raw_depth r < raw_depth (RObj ps)"
  by (force simp: less_Suc_eq_le intro: fold_max_ge)

lemma raw_field_depth: "raw_field protos r field = Inr (Some x) \<Longrightarrow> raw_depth x < opt_depth r"
  by (auto simp: raw_field_def raw_lookup_def opt_depth_def simp del: raw_depth.simps split: option.splits raw.splits if_splits
      dest!: map_of_SomeD intro: raw_depth_mem)

function coerceObject ::
  "scalar_table \<Rightarrow> (string, (string, string) omap) omap \<Rightarrow> raw_obj \<Rightarrow> raw option \<Rightarrow> (string \<times> string) list \<Rightarrow>
   js_error + (string \<times> fval) list" where
  "coerceObject scalars types protos raw known =
     sbind (smap (\<lambda>(field, ty).
         case raw_field protos raw field of
           Inl e \<Rightarrow> Inl e
         | Inr v \<Rightarrow>
           (case map_of types ty of
              Some nested \<Rightarrow>
                (case v of
                   None \<Rightarrow> Inr []
                 | Some (RList vs) \<Rightarrow>
                     sbind (smap (\<lambda>x. sbind (coerceObject scalars types protos (Some (RLeaf x)) nested) (\<lambda>ps. Inr (FObj ps))) vs)
                       (\<lambda>xs. Inr [(field, FList xs)])
                 | Some x \<Rightarrow> sbind (coerceObject scalars types protos (Some x) nested) (\<lambda>ps. Inr [(field, FObj ps)]))
            | None \<Rightarrow>
                (case v of
                   None \<Rightarrow> Inr (if ty = ''Boolean'' then [(field, FPlain (GBool False))] else [])
                 | Some (RList vs) \<Rightarrow> Inr [(field, FList (map (\<lambda>x. coerceLeaf scalars ty (RLeaf x)) vs))]
                 | Some x \<Rightarrow> Inr [(field, coerceLeaf scalars ty x)]))) known)
       (\<lambda>parts. Inr (concat parts))"
  by pat_completeness auto
termination
  by (relation "measure (\<lambda>(scalars, types, protos, raw, known). opt_depth raw)")
    (auto simp: opt_depth_def dest!: raw_field_depth)

declare coerceObject.simps [simp del]

definition coerceFormData ::
  "scalar_table \<Rightarrow> input_object \<Rightarrow> (string \<times> form_value) list \<Rightarrow> string list option \<Rightarrow>
   js_error + (string \<times> fval) list \<times> raw_obj" where
  "coerceFormData scalars input entries allowed =
     sbind (foldFormData entries allowed) (\<lambda>(root, protos).
     sbind (coerceObject scalars (io_types input) protos (Some (RObj root)) (io_fields input)) (\<lambda>ps. Inr (ps, protos)))"

subsection \<open>Multipart bodies\<close>

type_synonym file_map = "(nat, string list) omap"

definition note_file :: "nat \<Rightarrow> string \<Rightarrow> file_map \<Rightarrow> file_map" where
  "note_file f dotted files =
     (case map_of files f of
        Some ps \<Rightarrow> oset f (ps @ [dotted]) files
      | None \<Rightarrow> oset f [dotted] files)"

fun extractFiles :: "fval \<Rightarrow> string list \<Rightarrow> file_map \<Rightarrow> gval \<times> file_map"
  and extract_list :: "fval list \<Rightarrow> nat \<Rightarrow> string list \<Rightarrow> file_map \<Rightarrow> gval list \<times> file_map"
  and extract_props :: "(string \<times> fval) list \<Rightarrow> string list \<Rightarrow> file_map \<Rightarrow> gobj \<times> file_map" where
  "extractFiles (FUpload f) path files = (GNull, note_file f (join ''.'' path) files)"
| "extractFiles (FPlain v) path files = (v, files)"
| "extractFiles (FList vs) path files = (let (ws, fs) = extract_list vs 0 path files in (GArr ws, fs))"
| "extractFiles (FObj ps) path files = (let (qs, fs) = extract_props ps path files in (GObj qs, fs))"
| "extract_list [] i path files = ([], files)"
| "extract_list (v # vs) i path files =
     (let (w, fs) = extractFiles v (path @ [js_of_nat i]) files; (ws, fs') = extract_list vs (Suc i) path fs
      in (w # ws, fs'))"
| "extract_props [] path files = ([], files)"
| "extract_props ((k, v) # ps) path files =
     (let (w, fs) = extractFiles v (path @ [k]) files; (qs, fs') = extract_props ps path fs in ((k, w) # qs, fs'))"

datatype graphql_body = JsonBody string | MultipartBody string string "(string \<times> nat) list"

definition body_text :: "string \<Rightarrow> gval \<Rightarrow> string" where
  "body_text query variables = json_text (GObj [(''query'', GStr query), (''variables'', variables)])"

definition buildGraphQLBody :: "string \<Rightarrow> fval \<Rightarrow> graphql_body" where
  "buildGraphQLBody query variables =
     (let (operationVariables, files) = extractFiles variables [''variables''] [] in
      if files = [] then JsonBody (body_text query operationVariables)
      else
        let keys = map (\<lambda>i. js_of_nat (Suc i)) [0..<length files] in
        MultipartBody (body_text query operationVariables)
          (json_text (GObj (zip keys (map (\<lambda>(f, ps). GArr (map GStr ps)) files))))
          (zip keys (map fst files)))"

subsection \<open>Redirect templates\<close>

datatype template_part = Literal string | Interpolated "string list"

text \<open>\<open>v[k]\<close>: the elements and the length of a list or a text too. Members that are inherited are left out.\<close>

definition js_member :: "gval \<Rightarrow> string \<Rightarrow> gval" where
  "js_member v k =
     (case v of
        GArr xs \<Rightarrow> if k = ''length'' then GNum (int (length xs)) else prop_of (map (\<lambda>(i, x). (js_of_nat i, x)) (enumerate 0 xs)) k
      | GStr s \<Rightarrow> if k = ''length'' then GNum (int (length s)) else prop_of (map (\<lambda>(i, c). (js_of_nat i, GStr [c])) (enumerate 0 s)) k
      | _ \<Rightarrow> gprop v k)"

fun valueAtPath :: "gval \<Rightarrow> string list \<Rightarrow> gval" where
  "valueAtPath cursor [] = cursor"
| "valueAtPath cursor (key # path) = (if nullish cursor then GUndef else valueAtPath (js_member cursor key) path)"

fun interpolateRedirect :: "template_part list \<Rightarrow> gval \<Rightarrow> string option" where
  "interpolateRedirect [] data = Some []"
| "interpolateRedirect (Literal s # parts) data = map_option ((@) s) (interpolateRedirect parts data)"
| "interpolateRedirect (Interpolated p # parts) data =
     (let v = valueAtPath data p in
      if nullish v then None
      else map_option ((@) (encodeURIComponent (js_string v))) (interpolateRedirect parts data))"

end
