(* ===== verification/Server.thy ===== *)
theory Server
  imports JsonPure Sessions Forms
begin

section \<open>The server: dispatch of a request\<close>

text \<open>
  \<^verbatim>\<open>router/server.ts\<close>. The GraphQL server (the schema, its resolvers and Yoga), the remote API and the
  renderer of the framework are parameters of the record \<open>server\<close>: \<open>sv_execute\<close> gives the execution of a
  request under a session, \<open>sv_fetch\<close> the response of the remote API to headers and bytes at a URL,
  \<open>sv_render\<close> the response for a page. An execution says what the source reads of it: the operation name
  that was sent, the names of the operations of the document, and the result. The manifest is given.
  Exceptions that leave the handler are values.
\<close>

subsection \<open>The body of a request, up to a limit\<close>

fun read_chunks :: "nat \<Rightarrow> string \<Rightarrow> string list \<Rightarrow> string option" where
  "read_chunks maxBytes body [] = Some body"
| "read_chunks maxBytes body (chunk # chunks) =
     (if length body + length chunk > maxBytes then None else read_chunks maxBytes (body @ chunk) chunks)"

definition readBodyWithLimit :: "request \<Rightarrow> nat \<Rightarrow> string option" where
  "readBodyWithLimit rq maxBytes =
     (case rq_chunks rq of None \<Rightarrow> Some [] | Some chunks \<Rightarrow> read_chunks maxBytes [] chunks)"

subsection \<open>Configuration\<close>

datatype api_body = Sent request | Built graphql_body

record execution =
  ex_operationName :: "string option"
  ex_operations :: "string option list"
  ex_streamed :: bool
  ex_result :: gobj

record session_mutation =
  sm_path :: string
  sm_merge :: bool

record form_artifact =
  fa_raw :: string
  fa_input :: "input_object option"
  fa_fields :: "string list option"
  fa_redirect :: "template_part list option"

record upstream =
  up_status :: nat
  up_contentType :: "string option"
  up_text :: string

record reply =
  re_response :: response
  re_headers :: "(string, string) omap"
  re_text :: string

record rendering =
  rn_url :: string
  rn_match :: "page option"
  rn_is404 :: bool
  rn_session :: gobj
  rn_headers :: "(string, string) omap"
  rn_formResult :: "(string \<times> gval \<times> gval) option"
  rn_formToken :: string

record server =
  sv_env :: server_env
  sv_local :: bool
  sv_endpoint :: string
  sv_url :: "string option"
  sv_apiURL :: "string option"
  sv_pages :: "page list"
  sv_pageHeaders :: "page \<Rightarrow> gval option list"
  sv_formActions :: "(string, form_artifact) omap option"
  sv_sessionMutations :: "(string, session_mutation) omap option"
  sv_scalars :: scalar_table
  sv_formMaxBodyBytes :: "nat option"
  sv_execute :: "gobj \<Rightarrow> api_body \<Rightarrow> execution"
  sv_fetch :: "string \<Rightarrow> (string, string) omap \<Rightarrow> string \<Rightarrow> upstream option"
  sv_render :: "rendering \<Rightarrow> reply option"

text \<open>With no key configured, a random one stands in.\<close>

definition session_keys :: "string list \<Rightarrow> string \<Rightarrow> string list" where
  "session_keys configured uuid = (if configured = [] then [uuid] else configured)"

definition resolveApiEndpoint :: "server \<Rightarrow> string" where
  "resolveApiEndpoint sv =
     (case sv_url sv of Some u \<Rightarrow> u | None \<Rightarrow> (case sv_apiURL sv of Some u \<Rightarrow> u | None \<Rightarrow> ''/_api''))"

definition max_body :: "server \<Rightarrow> nat" where
  "max_body sv = (case sv_formMaxBodyBytes sv of Some n \<Rightarrow> n | None \<Rightarrow> 10 * 1024 * 1024)"

definition text_reply :: "nat \<Rightarrow> string \<Rightarrow> reply" where
  "text_reply status t = \<lparr>re_response = plain_response status, re_headers = [], re_text = t\<rparr>"

definition of_response :: "response \<Rightarrow> reply" where
  "of_response r = \<lparr>re_response = r, re_headers = [], re_text = []\<rparr>"

subsection \<open>Session mints\<close>

definition operationNameOf :: "execution \<Rightarrow> string option" where
  "operationNameOf ex =
     (case ex_operationName ex of
        Some (c # cs) \<Rightarrow> Some (c # cs)
      | _ \<Rightarrow> (case ex_operations ex of [Some (c # cs)] \<Rightarrow> Some (c # cs) | _ \<Rightarrow> None))"

text \<open>\<open>sessionMutations?.[name]\<close>: an inherited member of the object is found too, and has no path.\<close>

definition session_mutation_of :: "server \<Rightarrow> string \<Rightarrow> js_error + session_mutation option" where
  "session_mutation_of sv name =
     (case sv_sessionMutations sv of
        None \<Rightarrow> Inr None
      | Some ms \<Rightarrow>
          (case map_of ms name of
             Some m \<Rightarrow> Inr (Some m)
           | None \<Rightarrow> if name \<in> set object_members then Inl (TypeError ''split of undefined'') else Inr None))"

definition has_errors :: "gval \<Rightarrow> bool" where
  "has_errors errors \<longleftrightarrow> \<not> nullish errors \<and> truthy (js_member errors ''length'')"

definition session_value :: "session_mutation \<Rightarrow> gval \<Rightarrow> gval" where
  "session_value m result = valueAtPath result (js_split (CHR ''.'') (sm_path m))"

definition mintSessionToken ::
  "server \<Rightarrow> int \<Rightarrow> string \<Rightarrow> gval \<Rightarrow> gval \<Rightarrow> string option \<Rightarrow> string option \<Rightarrow> js_error + string option" where
  "mintSessionToken sv now uuid result errors operationName cookies =
     (if has_errors errors then Inr None
      else
        sbind (case operationName of None \<Rightarrow> Inr None | Some n \<Rightarrow> if n = [] then Inr None else session_mutation_of sv n) (\<lambda>m.
          case m of
            None \<Rightarrow> Inr None
          | Some session \<Rightarrow>
              let ev = sv_env sv;
                  priorSession = get_session (ev_mac ev) now cookies (ev_keys ev)
              in sbind (signSessionToken (ev_mac ev) now uuid (or_default (session_value session result) GNull) (ev_keys ev)
                    (sm_merge session) priorSession) (\<lambda>t. Inr (Some t))))"

subsection \<open>The local API\<close>

definition INTERNAL_FORM_HEADER :: string where
  "INTERNAL_FORM_HEADER = ''x-houdini-internal-form''"

definition HOUDINI_REQUEST_HEADER :: string where
  "HOUDINI_REQUEST_HEADER = ''x-houdini-request''"

definition HOUDINI_OPERATION_HEADER :: string where
  "HOUDINI_OPERATION_HEADER = ''x-houdini-operation''"

definition sent_header :: "(string, string) omap \<Rightarrow> string \<Rightarrow> bool" where
  "sent_header headers name \<longleftrightarrow> oget [] headers name \<noteq> []"

definition with_session_token :: "string \<Rightarrow> gobj \<Rightarrow> gobj" where
  "with_session_token t result =
     oset ''extensions'' (GObj (oset ''houdiniSession'' (GStr t) (own_enumerable (prop_of result ''extensions'')))) result"

definition local_api :: "server \<Rightarrow> int \<Rightarrow> string \<Rightarrow> (string, string) omap \<Rightarrow> api_body \<Rightarrow> js_error + gobj" where
  "local_api sv now uuid headers body =
     (let ev = sv_env sv; cookies = map_of headers ''cookie'';
          ex = sv_execute sv (get_session (ev_mac ev) now cookies (ev_keys ev)) body;
          result = ex_result ex
      in if ex_streamed ex \<or> \<not> truthy (prop_of result ''data'') then Inr result
         else if sent_header headers INTERNAL_FORM_HEADER then Inr result
         else sbind (mintSessionToken sv now uuid (prop_of result ''data'') (prop_of result ''errors'') (operationNameOf ex) cookies)
           (\<lambda>token. Inr (case token of None \<Rightarrow> result | Some t \<Rightarrow> with_session_token t result)))"

text \<open>The session goes to the in-process request as a signed cookie.\<close>

definition http_only :: cookie_options where
  "http_only = no_options\<lparr>co_httpOnly := True\<rparr>"

definition handoff :: "server_env \<Rightarrow> int \<Rightarrow> gobj \<Rightarrow> js_error + string" where
  "handoff ev now session =
     sbind (sign_session (ev_mac ev) now session (first_key (ev_keys ev))) (\<lambda>t. cookie_serialize session_cookie_name t http_only)"

text \<open>What a request of the client is given while the server renders, as it reads the response.\<close>

definition proxied_query :: "server \<Rightarrow> int \<Rightarrow> string \<Rightarrow> string \<Rightarrow> gval \<Rightarrow> gobj \<Rightarrow> js_error + gval" where
  "proxied_query sv now uuid query variables session =
     sbind (handoff (sv_env sv) now session) (\<lambda>cookie.
     sbind (local_api sv now uuid [(''content-type'', ''application/json''), (''cookie'', cookie)]
         (Built (JsonBody (body_text query variables)))) (\<lambda>result. Inr (json_value (GObj result))))"

subsection \<open>Pages\<close>

definition collect_headers :: "gval option list \<Rightarrow> (string, string) omap" where
  "collect_headers loaded =
     fold (\<lambda>result merged.
        case result of
          None \<Rightarrow> merged
        | Some v \<Rightarrow>
            if truthy v \<and> is_object v then
              fold (\<lambda>(k, x) m. if k = ''__proto__'' then m else oset k (js_string x) m) (own_enumerable v) merged
            else merged) loaded []"

definition collect_response_headers :: "server \<Rightarrow> page option \<Rightarrow> (string, string) omap" where
  "collect_response_headers sv match = (case match of None \<Rightarrow> [] | Some pg \<Rightarrow> collect_headers (sv_pageHeaders sv pg))"

definition has_header :: "(string, string) omap \<Rightarrow> string \<Rightarrow> bool" where
  "has_header headers name \<longleftrightarrow> (\<exists>k \<in> set (okeys headers). map lower_char k = name)"

definition apply_antiframing_defaults :: "(string, string) omap \<Rightarrow> (string, string) omap" where
  "apply_antiframing_defaults headers =
     (let h1 = (if has_header headers ''content-security-policy'' then headers
                else oset ''Content-Security-Policy'' (''frame-ancestors '' @ [CHR 0x27] @ ''self'' @ [CHR 0x27]) headers)
      in if has_header h1 ''x-frame-options'' then h1 else oset ''X-Frame-Options'' ''SAMEORIGIN'' h1)"

definition renderPage ::
  "server \<Rightarrow> int \<Rightarrow> request \<Rightarrow> string \<Rightarrow> (string \<times> gval \<times> gval) option \<Rightarrow> nat option \<Rightarrow> js_error + reply" where
  "renderPage sv now rq url formResult status =
     sbind (find_match (sv_pages sv) url True) (\<lambda>(exactMatch, variables, search).
       let match = (case exactMatch of Some pg \<Rightarrow> Some pg | None \<Rightarrow> find_prefix_match (sv_pages sv) url);
           headers = apply_antiframing_defaults (collect_response_headers sv match);
           session = request_session (sv_env sv) now rq
       in sbind (signFormToken (ev_mac (sv_env sv)) now session (ev_keys (sv_env sv))) (\<lambda>formToken.
            Inr (case sv_render sv \<lparr>rn_url = url, rn_match = match, rn_is404 = (exactMatch = None), rn_session = session,
                     rn_headers = headers, rn_formResult = formResult, rn_formToken = formToken\<rparr> of
                   None \<Rightarrow> text_reply 404 ''404''
                 | Some rendered \<Rightarrow>
                     (case status of
                        None \<Rightarrow> rendered
                      | Some n \<Rightarrow> rendered\<lparr>re_response := (re_response rendered)\<lparr>rs_status := n\<rparr>\<rparr>))))"

subsection \<open>Native forms\<close>

text \<open>\<open>marshalInputs\<close> where uploads occur: they stay as they are, an object of a nested type excepted. A
  scalar function on an upload or an input object is outside the model.\<close>

definition marshal_plain :: "(gval \<Rightarrow> js_error + gval) \<Rightarrow> fval \<Rightarrow> js_error + fval" where
  "marshal_plain fn v = (case v of FPlain w \<Rightarrow> sbind (fn w) (\<lambda>x. Inr (FPlain x)) | _ \<Rightarrow> Inl unmodelled)"

definition marshal_each :: "(gval \<Rightarrow> js_error + gval) \<Rightarrow> fval \<Rightarrow> js_error + fval" where
  "marshal_each fn v =
     (case v of
        FList vs \<Rightarrow> sbind (smap (marshal_plain fn) vs) (\<lambda>ws. Inr (FList ws))
      | _ \<Rightarrow> marshal_plain (each_value fn) v)"

function marshal_form :: "scalar_table \<Rightarrow> input_object \<Rightarrow> (string, string) omap option \<Rightarrow> fval \<Rightarrow> js_error + fval" where
  "marshal_form scalars ins flds input =
     (case input of
        FPlain v \<Rightarrow> sbind (marshal_fields scalars ins flds v) (\<lambda>w. Inr (FPlain w))
      | FUpload f \<Rightarrow> Inr (FObj [])
      | FList vs \<Rightarrow> sbind (smap (marshal_form scalars ins flds) vs) (\<lambda>ws. Inr (FList ws))
      | FObj ps \<Rightarrow>
          sbind (smap (\<lambda>(fieldName, v). sbind
            (case Option.bind flds (\<lambda>m. map_of m fieldName) of
               None \<Rightarrow> Inr v
             | Some ty \<Rightarrow>
                 if ty = [] then Inr v
                 else
                   (case Option.bind (map_of scalars ty) sf_marshal of
                      Some fn \<Rightarrow> marshal_each fn v
                    | None \<Rightarrow>
                        if isScalar scalars ty \<or> map_of (io_types ins) ty = None then Inr v
                        else marshal_form scalars ins (map_of (io_types ins) ty) v)) (\<lambda>w. Inr (fieldName, w))) ps)
            (\<lambda>qs. Inr (FObj qs)))"
  by pat_completeness auto
termination
proof (relation "measure (\<lambda>(scalars, ins, flds, input). size input)", goal_cases)
  case (2 scalars ins flds input vs v)
  then show ?case using size_list_estimation' [of v vs "size v" size] by (simp add: less_Suc_eq_le)
next
  case (3 scalars ins flds input ps kv k v ty)
  then show ?case using size_list_estimation' [of kv ps "size v" "size_prod (\<lambda>x. 0) size"]
    by (cases kv) (simp add: less_Suc_eq_le)
qed simp

declare marshal_form.simps [simp del]

definition form_variables :: "server \<Rightarrow> form_artifact \<Rightarrow> (string \<times> form_value) list \<Rightarrow> js_error + fval" where
  "form_variables sv artifact entries =
     sbind (coerceFormData (sv_scalars sv)
         (case fa_input artifact of Some io \<Rightarrow> io | None \<Rightarrow> \<lparr>io_fields = [], io_types = [], io_defaults = [], io_runtimeScalars = []\<rparr>)
         entries (fa_fields artifact)) (\<lambda>(coerced, protos).
       case fa_input artifact of
         None \<Rightarrow> Inr (FObj coerced)
       | Some io \<Rightarrow> marshal_form (sv_scalars sv) io (Some (io_fields io)) (FObj coerced))"

definition CSRF_FIELD :: string where
  "CSRF_FIELD = ''__houdini_csrf''"

definition field_value :: "form_value option \<Rightarrow> gval" where
  "field_value v = (case v of None \<Rightarrow> GNull | Some (Field s) \<Rightarrow> GStr s | Some (Upload f) \<Rightarrow> GObj [])"

definition content_type :: "request \<Rightarrow> string" where
  "content_type rq = (case req_header rq ''content-type'' of None \<Rightarrow> [] | Some c \<Rightarrow> c)"

text \<open>\<open>Number.isFinite(n) && n > max\<close> for the number of the header; an absent header is zero.\<close>

definition too_long :: "request \<Rightarrow> nat \<Rightarrow> bool" where
  "too_long rq maxBytes =
     (case req_header rq ''content-length'' of None \<Rightarrow> False | Some s \<Rightarrow> js_greater (GStr s) (int maxBytes))"

text \<open>What becomes of the result of the mutation: the page again with its errors, or a redirect that may write
  the session.\<close>

definition form_location :: "form_artifact \<Rightarrow> string \<Rightarrow> gval \<Rightarrow> string" where
  "form_location artifact url result =
     (case Option.bind (fa_redirect artifact) (\<lambda>t. interpolateRedirect t result) of
        Some (c # cs) \<Rightarrow> c # cs
      | _ \<Rightarrow> url)"

definition form_session ::
  "server \<Rightarrow> int \<Rightarrow> request \<Rightarrow> string \<Rightarrow> gval \<Rightarrow> response \<Rightarrow> js_error + response" where
  "form_session sv now rq mutationName result formResponse =
     sbind (session_mutation_of sv mutationName) (\<lambda>sessionWrite.
       case sessionWrite of
         None \<Rightarrow> Inr formResponse
       | Some m \<Rightarrow>
           let v = session_value m result in
           if nullish v then Inr (clear_session (Some rq) formResponse)
           else set_session (sv_env sv) now rq formResponse
             (if sm_merge m then spread (request_session (sv_env sv) now rq) (own_enumerable v) else own_enumerable v))"

definition form_outcome ::
  "server \<Rightarrow> int \<Rightarrow> request \<Rightarrow> string \<Rightarrow> string \<Rightarrow> string \<Rightarrow> form_artifact \<Rightarrow> gval \<Rightarrow> js_error + reply" where
  "form_outcome sv now rq url mutationName formId artifact result =
     (if has_errors (gprop result ''errors'') then
        renderPage sv now rq url (Some (formId, or_default (gprop result ''data'') GNull, gprop result ''errors'')) (Some 422)
      else
        sbind (form_session sv now rq mutationName (gprop result ''data'')
            (redirect_response 303 (Path (form_location artifact url (gprop result ''data''))))) (\<lambda>r. Inr (of_response r)))"

definition submit_form ::
  "server \<Rightarrow> int \<Rightarrow> string \<Rightarrow> request \<Rightarrow> string \<Rightarrow> gobj \<Rightarrow> string \<Rightarrow> form_artifact \<Rightarrow> js_error + reply" where
  "submit_form sv now uuid rq url session mutationName artifact =
     sbind (form_variables sv artifact (rq_form rq)) (\<lambda>variables.
     sbind (handoff (sv_env sv) now session) (\<lambda>cookie.
     sbind (local_api sv now uuid [(INTERNAL_FORM_HEADER, ''1''), (''cookie'', cookie)]
         (Built (buildGraphQLBody (fa_raw artifact) variables))) (\<lambda>result.
       let formId = (case form_field rq ''__houdini_form_id'' of Some (Field (c # cs)) \<Rightarrow> c # cs | _ \<Rightarrow> mutationName) in
       form_outcome sv now rq url mutationName formId artifact (json_value (GObj result)))))"

definition handleForm :: "server \<Rightarrow> int \<Rightarrow> string \<Rightarrow> request \<Rightarrow> string \<Rightarrow> js_error + reply option" where
  "handleForm sv now uuid rq url =
     (if rq_method rq \<noteq> ''POST'' then Inr None
      else if \<not> js_includes (content_type rq) ''application/x-www-form-urlencoded'' \<and>
              \<not> js_includes (content_type rq) ''multipart/form-data'' then Inr None
      else if \<not> isAllowedOrigin rq (ev_allowedOrigins (sv_env sv)) then Inr (Some (text_reply 403 ''Forbidden''))
      else if too_long rq (max_body sv) then Inr (Some (text_reply 413 ''Payload Too Large''))
      else case readBodyWithLimit rq (max_body sv) of
        None \<Rightarrow> Inr (Some (text_reply 413 ''Payload Too Large''))
      | Some bytes \<Rightarrow>
          let session = request_session (sv_env sv) now rq in
          if \<not> verifyFormToken (ev_mac (sv_env sv)) now (field_value (form_field rq CSRF_FIELD)) session (ev_keys (sv_env sv))
          then Inr (Some (text_reply 403 ''Forbidden''))
          else
            (case form_field rq ''__houdini_form'' of
               Some (Field mutationName) \<Rightarrow>
                 (case Option.bind (sv_formActions sv) (\<lambda>as. map_of as mutationName) of
                    None \<Rightarrow>
                      if sv_formActions sv \<noteq> None \<and> mutationName \<in> set object_members then
                        (if sv_local sv then Inl (TypeError ''input of undefined'')
                         else Inr (Some (text_reply 500 ''Form submissions require a local GraphQL server'')))
                      else Inr (Some (text_reply 400 (''Unknown form mutation: '' @ mutationName)))
                  | Some artifact \<Rightarrow>
                      if \<not> sv_local sv then Inr (Some (text_reply 500 ''Form submissions require a local GraphQL server''))
                      else sbind (submit_form sv now uuid rq url session mutationName artifact) (\<lambda>r. Inr (Some r)))
             | _ \<Rightarrow> Inr (Some (text_reply 400 ''Bad Request''))))"

subsection \<open>The session proxy of a remote API\<close>

definition proxy_path :: "server \<Rightarrow> string option" where
  "proxy_path sv = (if sv_local sv then None else Some (ev_authUrl (sv_env sv) @ ''/proxy''))"

definition forward_headers :: "(string, string) omap \<Rightarrow> (string, string) omap" where
  "forward_headers headers =
     odel HOUDINI_OPERATION_HEADER (odel ''content-length'' (odel ''host'' (odel ''cookie'' headers)))"

definition forward :: "server \<Rightarrow> request \<Rightarrow> string \<Rightarrow> upstream option" where
  "forward sv rq bytes = sv_fetch sv (resolveApiEndpoint sv) (forward_headers (rq_headers rq)) bytes"

definition applied_body :: "gval \<Rightarrow> gval" where
  "applied_body payload =
     GObj (oset ''extensions'' (GObj (oset ''houdiniSessionApplied'' (GBool True) (own_enumerable (gprop payload ''extensions''))))
       (own_enumerable payload))"

definition json_reply :: "response \<Rightarrow> gval \<Rightarrow> reply" where
  "json_reply carrier body = \<lparr>re_response = carrier, re_headers = [(''content-type'', ''application/json'')], re_text = json_text body\<rparr>"

definition proxy_session ::
  "'s consumer \<Rightarrow> server \<Rightarrow> int \<Rightarrow> string \<Rightarrow> request \<Rightarrow> nat \<Rightarrow> gval \<Rightarrow> 's \<Rightarrow> (js_error + reply) \<times> 's" where
  "proxy_session consume sv now uuid rq status payload store =
     (case mintSessionToken sv now uuid (gprop payload ''data'') (gprop payload ''errors'')
         (req_header rq HOUDINI_OPERATION_HEADER) (req_header rq ''cookie'') of
        Inl e \<Rightarrow> (Inl e, store)
      | Inr None \<Rightarrow> (Inr (json_reply (plain_response status) payload), store)
      | Inr (Some token) \<Rightarrow>
          let (result, store') = applySessionToken consume (sv_env sv) now rq (plain_response status) (GStr token) store
          in (sbind result (\<lambda>(applied, carrier).
               Inr (json_reply carrier (if applied then applied_body payload else payload))), store'))"

definition handleSessionProxy ::
  "'s consumer \<Rightarrow> server \<Rightarrow> int \<Rightarrow> string \<Rightarrow> request \<Rightarrow> 's \<Rightarrow> (js_error + reply option) \<times> 's" where
  "handleSessionProxy consume sv now uuid rq store =
     (if proxy_path sv \<noteq> Some (u_pathname (rq_url rq)) then (Inr None, store)
      else if rq_method rq \<noteq> ''POST'' then (Inr (Some (text_reply 405 ''Method Not Allowed'')), store)
      else if \<not> isAllowedOrigin rq (ev_allowedOrigins (sv_env sv)) then (Inr (Some (text_reply 403 ''Forbidden'')), store)
      else case readBodyWithLimit rq (max_body sv) of
        None \<Rightarrow> (Inr (Some (text_reply 413 ''Payload Too Large'')), store)
      | Some bytes \<Rightarrow>
          (case forward sv rq bytes of
             None \<Rightarrow> (Inr (Some (text_reply 502 ''Bad Gateway'')), store)
           | Some up \<Rightarrow>
               (case json_parse (up_text up) of
                  None \<Rightarrow>
                    (Inr (Some \<lparr>re_response = plain_response (up_status up),
                       re_headers = [(''content-type'', case up_contentType up of Some c \<Rightarrow> c | None \<Rightarrow> ''text/plain'')],
                       re_text = up_text up\<rparr>), store)
                | Some payload \<Rightarrow>
                    let (result, store') = proxy_session consume sv now uuid rq (up_status up) payload store
                    in (sbind result (\<lambda>r. Inr (Some r)), store'))))"

subsection \<open>Dispatch\<close>

datatype answer = Reply reply | ApiResult gobj

definition graphql_gate :: "request \<Rightarrow> reply option" where
  "graphql_gate rq =
     (let ct = content_type rq in
      if rq_method rq \<noteq> ''POST'' then None
      else if js_includes ct ''application/x-www-form-urlencoded'' then Some (text_reply 415 ''Unsupported Media Type'')
      else if (ct = [] \<or> js_includes ct ''multipart/form-data'' \<or> js_includes ct ''text/plain'') \<and>
              \<not> sent_header (rq_headers rq) HOUDINI_REQUEST_HEADER then Some (text_reply 403 ''Forbidden'')
      else None)"

definition server_handler ::
  "'s consumer \<Rightarrow> server \<Rightarrow> int \<Rightarrow> fresh \<Rightarrow> request \<Rightarrow> 's \<Rightarrow> (js_error + answer) \<times> 's" where
  "server_handler consume sv now fr rq store =
     (let url = u_pathname (rq_url rq) @ u_search (rq_url rq); reply = (\<lambda>r. Inr (Reply r)) in
      if sv_local sv \<and> u_pathname (rq_url rq) = sv_endpoint sv then
        (case graphql_gate rq of
           Some r \<Rightarrow> (Inr (Reply r), store)
         | None \<Rightarrow> (sbind (local_api sv now (fr_uuid fr) (rq_headers rq) (Sent rq)) (\<lambda>r. Inr (ApiResult r)), store))
      else
        (case handleSessionProxy consume sv now (fr_uuid fr) rq store of
           (Inl e, store1) \<Rightarrow> (Inl e, store1)
         | (Inr (Some r), store1) \<Rightarrow> (Inr (Reply r), store1)
         | (Inr None, store1) \<Rightarrow>
             (case handle_request consume fr (sv_env sv) now rq store1 of
                (Inl e, store2) \<Rightarrow> (Inl e, store2)
              | (Inr (Some r), store2) \<Rightarrow> (Inr (Reply (of_response r)), store2)
              | (Inr None, store2) \<Rightarrow>
                  (case handleForm sv now (fr_uuid fr) rq url of
                     Inl e \<Rightarrow> (Inl e, store2)
                   | Inr (Some r) \<Rightarrow> (Inr (Reply r), store2)
                   | Inr None \<Rightarrow> (sbind (renderPage sv now rq url None None) reply, store2)))))"

end
