(* ===== verification/SessionLaws.thy ===== *)
theory SessionLaws
  imports Sessions
begin

section \<open>Laws of the sessions\<close>

text \<open>
  Where a redirect may lead (\<open>safeRelative\<close>), what becomes of a session between the cookie that is set and
  the next request, that a store of consumed tokens lets no token through twice (the locale \<open>single_use\<close>,
  interpreted by the default store), that the token of a mutation is applied at most once, and which
  requests may write the session at all.
\<close>

subsection \<open>Redirect targets\<close>

text \<open>
  How a browser reads a \<open>Location\<close>: leading controls and blanks are dropped, tabs and line breaks are
  removed anywhere, a backslash counts as a slash. Then two slashes name a host, and letters before a
  colon name a scheme.
\<close>

definition location_text :: "string \<Rightarrow> string" where
  "location_text s =
     replace_char (CHR 0x5C) (CHR ''/'')
       (filter (\<lambda>c. c \<notin> {CHR 0x09, CHR 0x0A, CHR 0x0D}) (dropWhile (\<lambda>c. (of_char c :: nat) \<le> 32) s))"

definition letter :: "char \<Rightarrow> bool" where
  "letter c \<longleftrightarrow> (let n = of_char c :: nat in 65 \<le> n \<and> n \<le> 90 \<or> 97 \<le> n \<and> n \<le> 122)"

definition leaves_origin :: "string \<Rightarrow> bool" where
  "leaves_origin s =
     (let t = location_text s;
          rest = dropWhile (\<lambda>c. letter c \<or> is_digit c \<or> c \<in> set ''+-.'') t
      in prefix ''//'' t \<or> t \<noteq> [] \<and> letter (hd t) \<and> prefix '':'' rest)"

lemma slash_stays: "location_text (CHR ''/'' # s) = CHR ''/'' # replace_char (CHR 0x5C) (CHR ''/'') (filter (\<lambda>c. c \<notin> {CHR 0x09, CHR 0x0A, CHR 0x0D}) s)"
  by (simp add: location_text_def replace_char_def)

text \<open>
  C36. The target of a redirect after login stays on the own origin, for every text without tab, line
  feed and carriage return; a tab after the first slash gets through, and browsers drop it.
\<close>

theorem safeRelative_redirects:
  "(\<forall>s. set s \<inter> {CHR 0x09, CHR 0x0A, CHR 0x0D} = {} \<longrightarrow> \<not> leaves_origin (safeRelative (Some s))) \<and>
   \<not> leaves_origin (safeRelative None) \<and>
   leaves_origin (safeRelative (Some [CHR ''/'', CHR 0x09, CHR ''/'', CHR ''e'']))"
proof (intro conjI allI impI)
  fix s :: string assume no: "set s \<inter> {CHR 0x09, CHR 0x0A, CHR 0x0D} = {}"
  show "\<not> leaves_origin (safeRelative (Some s))"
  proof (cases "safeRelative (Some s) = s")
    case True
    then obtain t where s: "s = CHR ''/'' # t" by (cases s) (auto simp: safeRelative_def split: if_splits)
    have "\<not> prefix ''//'' s" "CHR 0x5C \<notin> set s \<or> s = ''/''"
      using True by (auto simp: safeRelative_def split: if_splits)
    then have t: "t = [] \<or> hd t \<noteq> CHR ''/''" "CHR 0x5C \<notin> set t" using s by (cases t; auto)+
    have "filter (\<lambda>c. c \<notin> {CHR 0x09, CHR 0x0A, CHR 0x0D}) t = t" using no s by (auto simp: filter_id_conv)
    moreover have "replace_char (CHR 0x5C) (CHR ''/'') t = t" using t(2) by (auto simp: replace_char_def intro!: map_idI)
    ultimately have "location_text s = s" by (simp add: s slash_stays del: filter.simps)
    then show ?thesis using True s t by (cases t) (auto simp: leaves_origin_def Let_def letter_def)
  next
    case False
    then have "safeRelative (Some s) = ''/''" by (auto simp: safeRelative_def split: if_splits)
    then show ?thesis by (simp add: leaves_origin_def location_text_def replace_char_def letter_def)
  qed
qed code_simp+

subsection \<open>A session that was set is the session of the next request\<close>

lemma encode_unreserved: "list_all uri_unreserved s \<Longrightarrow> encodeURIComponent s = s"
  by (induction s) (auto simp: encodeURIComponent_def uri_char_def)

lemma token_unreserved: "jwt_encode mac now p key = Inr t \<Longrightarrow> list_all uri_unreserved t"
proof -
  have u: "url_char c \<Longrightarrow> uri_unreserved c" for c by (auto simp: url_char_def uri_unreserved_def Let_def)
  have dot: "uri_unreserved (CHR ''.'')" by (simp add: uri_unreserved_def)
  assume "jwt_encode mac now p key = Inr t"
  then show ?thesis using stringify_chars u dot
    by (auto simp: jwt_encode_eq token_body_def list_all_iff split: if_splits)
qed

lemma token_nonempty: "jwt_encode mac now p key = Inr t \<Longrightarrow> t \<noteq> [] \<and> t \<noteq> ''{}''"
proof -
  assume t: "jwt_encode mac now p key = Inr t"
  then have "CHR ''.'' \<in> set t" by (auto simp: jwt_encode_eq token_body_def split: if_splits)
  then show ?thesis by auto
qed

lemma json_pure_oset: "json_pure (GObj v) \<Longrightarrow> json_pure x \<Longrightarrow> json_pure (GObj (oset k x v))"
  by (simp add: json_pure_obj distinct_oset list_all_oset)

lemma json_pure_stamped: "json_pure (GObj v) \<Longrightarrow> json_pure (GObj (stamped now v))"
  by (simp add: stamped_def json_pure_oset)

lemma prop_stamped: "k \<noteq> ''iat'' \<Longrightarrow> prop_of (stamped now v) k = prop_of v k"
  by (simp add: stamped_def prop_of_def omap_simps)

lemma strip_stamped: "odel ''iat'' (odel ''exp'' (stamped now (session_claims now v))) = odel ''iat'' (odel ''exp'' v)"
proof -
  have a: "odel ''iat'' (odel ''exp'' (oset ''iat'' x w)) = odel ''iat'' (odel ''exp'' w)" for x w
    by (simp add: delete_twist [of "''iat''"] del: delete_twist) (simp add: delete_update_same)
  have b: "odel ''exp'' (oset ''exp'' x v) = odel ''exp'' v" for x by (simp add: delete_update_same)
  show ?thesis
    unfolding stamped_def session_claims_def
    by (cases "truthy (prop_of (oset ''exp'' (GNum (seconds (now + week_ms))) v) ''iat'')")
       (simp_all only: if_True if_False a b)
qed

lemma get_session_stored:
  assumes token: "session_token ev now v = Inr t" and clean: "json_pure (GObj v)"
    and nbf: "''nbf'' \<notin> set (okeys v)" and now: "0 \<le> now"
    and cookies: "list_all (\<lambda>(n, x). good_name n) cs" "distinct (okeys cs)" "(session_cookie_name, t) \<in> set cs"
  shows "get_session (ev_mac ev) now' (Some (cookie_line cs)) (ev_keys ev) =
    (if seconds now' < seconds (now + week_ms) then odel ''iat'' (odel ''exp'' v) else [])"
proof -
  obtain key rest where keys: "ev_keys ev = key # rest" and enc: "jwt_encode (ev_mac ev) now (session_claims now v) key = Inr t"
    using token by (auto simp: session_token_def split: list.splits)
  let ?p = "stamped now (session_claims now v)"
  have c: "json_pure (GObj ?p)" using clean by (simp add: session_claims_def json_pure_stamped json_pure_oset)
  have live: "claims_live now' (GObj ?p) \<longleftrightarrow> seconds now' < seconds (now + week_ms)"
  proof -
    have "map_of v ''nbf'' = None" using nbf by (simp add: map_of_eq_None_iff)
    then have "prop_of ?p ''nbf'' = GUndef"
      by (simp add: prop_stamped session_claims_def) (simp add: prop_of_def oget_def map_of_oset)
    moreover have "prop_of ?p ''exp'' = GNum (seconds (now + week_ms))"
      by (simp add: prop_stamped session_claims_def) (simp add: prop_of_def oget_oset)
    moreover have "seconds (now + week_ms) \<noteq> 0" using now by (simp add: seconds_def week_ms_def)
    ultimately show ?thesis by (auto simp: claims_live_def)
  qed
  have found: "map_of (cookie_parse (cookie_line cs)) session_cookie_name = Some t"
    using cookies by (simp add: cookie_roundtrip)
  have other: "session_of (ev_mac ev) now' t ks = []" if "\<not> claims_live now' (GObj ?p)" for ks
  proof (induction ks)
    case (Cons k ks)
    have "jwt_verify (ev_mac ev) now' t k \<noteq> Inr True"
      using that jwt_accepted [of "ev_mac ev" now' t k] jwt_decode_encoded [OF enc c] by auto
    then show ?case using Cons by (simp add: verified_payload_def)
  qed simp
  have this_key: "session_of (ev_mac ev) now' t (ev_keys ev) = odel ''iat'' (odel ''exp'' ?p)" if "claims_live now' (GObj ?p)"
    using that by (simp add: keys verified_payload_def jwt_verify_encoded [OF enc c] jwt_decode_encoded [OF enc c] own_enumerable_def)
  show ?thesis
    using found token_nonempty [OF enc] other this_key live strip_stamped
    by (auto simp: get_session_def)
qed

text \<open>The cookie that \<open>set_session\<close> writes, sent back among others, gives the session that was set, for a week.\<close>


text \<open>Nothing becomes a session that no key has signed.\<close>

text \<open>
  C15. A session that is not empty was read from a cookie that holds a token with a valid signature
  under one of the configured keys and claims that have not expired.
\<close>

theorem session_fails_closed:
  assumes "get_session mac now cookies keys \<noteq> []"
  shows "\<exists>line t secret payload. cookies = Some line \<and> (session_cookie_name, t) \<in> set (cookie_parse line) \<and>
    secret \<in> set keys \<and> jwt_verify mac now t secret = Inr True \<and>
    get_session mac now cookies keys = odel ''iat'' (odel ''exp'' (own_enumerable payload)) \<and>
    (\<exists>head. jwt_decode t = Inr (head, payload)) \<and> claims_live now payload"
proof -
  have loop: "session_of mac now t ks \<noteq> [] \<Longrightarrow> \<exists>secret payload. secret \<in> set ks \<and>
      verified_payload mac now t secret = Some payload \<and> session_of mac now t ks = odel ''iat'' (odel ''exp'' (own_enumerable payload))" for t ks
    by (induction ks) (auto split: option.splits)
  from assms obtain line t where line: "cookies = Some line" "map_of (cookie_parse line) session_cookie_name = Some t"
    and g: "get_session mac now cookies keys = session_of mac now t keys"
    by (auto simp: get_session_def split: option.splits if_splits)
  with assms obtain secret payload where s: "secret \<in> set keys" "verified_payload mac now t secret = Some payload"
      "session_of mac now t keys = odel ''iat'' (odel ''exp'' (own_enumerable payload))"
    using loop [of t keys] by auto
  from s(2) have v: "jwt_verify mac now t secret = Inr True" by (rule verified_accepts)
  moreover from s(2) v obtain head where "jwt_decode t = Inr (head, payload)"
    by (auto simp: verified_payload_def split: sum.splits)
  ultimately show ?thesis using line g s jwt_accepted [OF v] by (force dest: map_of_SomeD)
qed

subsection \<open>Single use\<close>

text \<open>What a store of consumed tokens owes its client: a token that went through is remembered until its
  time is over, whatever else is consumed, and is refused meanwhile.\<close>

fun present :: "'s consumer \<Rightarrow> server_env \<Rightarrow> (int \<times> request \<times> response \<times> gval) list \<Rightarrow> 's \<Rightarrow> bool list" where
  "present consume ev [] s = []"
| "present consume ev ((now, rq, r, token) # xs) s =
     (case fst (applySessionToken consume ev now rq r token s) of Inr (b, r') \<Rightarrow> b | Inl e \<Rightarrow> False)
     # present consume ev xs (snd (applySessionToken consume ev now rq r token s))"

locale single_use =
  fixes consume :: "'s consumer" and used :: "'s \<Rightarrow> string \<Rightarrow> int \<Rightarrow> bool"
  assumes remembers: "consume now jti ttl s = (True, s') \<Longrightarrow> used s' jti (now + ttl)"
    and refuses: "used s jti e \<Longrightarrow> now < e \<Longrightarrow> fst (consume now jti ttl s) = False"
    and keeps: "used s jti e \<Longrightarrow> now < e \<Longrightarrow> used (snd (consume now jti' ttl s)) jti e"
begin

lemma apply_keeps:
  assumes "used s jti e" and "now < e"
  shows "used (snd (applySessionToken consume ev now rq r token s)) jti e"
  using assms keeps [OF assms] by (auto simp: applySessionToken_def Let_def split: option.splits prod.splits session_action.splits)
     (metis snd_conv keeps)+

lemma apply_consumes:
  assumes "applySessionToken consume ev now rq r token s = (Inr (True, r'), s')"
    and "verifySessionToken (ev_mac ev) now token (ev_keys ev) = Some v"
  shows "used s' (sr_jti v) (now + SESSION_TOKEN_TTL_MS)"
  using assms remembers
  by (auto simp: applySessionToken_def Let_def split: if_splits prod.splits session_action.splits)

lemma apply_refused:
  assumes "used s (sr_jti v) e" and "now < e"
    and "verifySessionToken (ev_mac ev) now token (ev_keys ev) = Some v"
  shows "\<exists>s'. applySessionToken consume ev now rq r token s = (Inr (False, r), s')"
  using assms refuses [OF assms(1,2)]
  by (auto simp: applySessionToken_def Let_def split: prod.splits) (metis fst_conv)

text \<open>A sequence of presentations, with which of them went through.\<close>

lemma present_refused:
  "used s jti e \<Longrightarrow> sorted (map fst xs) \<Longrightarrow> j < length xs \<Longrightarrow> xs ! j = (t, rq, r, token) \<Longrightarrow> t < e \<Longrightarrow>
   verifySessionToken (ev_mac ev) t token (ev_keys ev) = Some v \<Longrightarrow> sr_jti v = jti \<Longrightarrow> \<not> present consume ev xs s ! j"
proof (induction xs arbitrary: s j)
  case (Cons x xs)
  obtain t0 rq0 r0 token0 where x: "x = (t0, rq0, r0, token0)" by (cases x)
  show ?case
  proof (cases j)
    case 0
    with Cons.prems x have x0: "x = (t, rq, r, token)" and "used s (sr_jti v) e" by auto
    then obtain s' where "applySessionToken consume ev t rq r token s = (Inr (False, r), s')"
      using apply_refused [OF _ Cons.prems(5,6)] by blast
    then show ?thesis by (simp add: 0 x0)
  next
    case (Suc i)
    have "(t, rq, r, token) \<in> set xs" using Cons.prems(3,4) Suc by (auto simp: in_set_conv_nth)
    then have "t0 \<le> t" using Cons.prems(2) x by force
    then have "used (snd (applySessionToken consume ev t0 rq0 r0 token0 s)) jti e"
      using Cons.prems(1,5) by (intro apply_keeps) auto
    with Cons.prems show ?thesis
      by (simp add: x Suc) (intro Cons.IH; simp)
  qed
qed simp

lemma present_once:
  assumes "sorted (map fst xs)" and "i < j" and "j < length xs"
    and "xs ! i = (t, rq, r, token)" and "xs ! j = (t', rq', r', token')" and "t' < t + SESSION_TOKEN_TTL_MS"
    and "verifySessionToken (ev_mac ev) t token (ev_keys ev) = Some v"
    and "verifySessionToken (ev_mac ev) t' token' (ev_keys ev) = Some v'" and "sr_jti v = sr_jti v'"
    and "present consume ev xs s ! i"
  shows "\<not> present consume ev xs s ! j"
  using assms
proof (induction xs arbitrary: s i j)
  case (Cons x xs)
  obtain j' where j: "j = Suc j'" using Cons.prems(2) by (cases j) auto
  show ?case
  proof (cases i)
    case 0
    with Cons.prems have x: "x = (t, rq, r, token)" by simp
    from Cons.prems(10) obtain r1 s1 where a: "applySessionToken consume ev t rq r token s = (Inr (True, r1), s1)"
      by (cases "applySessionToken consume ev t rq r token s") (auto simp: 0 x split: sum.splits)
    have "used s1 (sr_jti v') (t + SESSION_TOKEN_TTL_MS)" using apply_consumes [OF a Cons.prems(7)] Cons.prems(9) by simp
    then have "\<not> present consume ev xs s1 ! j'"
      by (rule present_refused) (use Cons.prems j in auto)
    then show ?thesis by (simp add: x j a)
  next
    case (Suc i')
    obtain t0 rq0 r0 token0 where x: "x = (t0, rq0, r0, token0)" by (cases x)
    have "\<not> present consume ev xs (snd (applySessionToken consume ev t0 rq0 r0 token0 s)) ! j'"
      using Cons.prems Suc j by (intro Cons.IH [of i' j']) (auto simp: x)
    then show ?thesis by (simp add: x j)
  qed
qed simp

end

definition consumed_until :: "consumed \<Rightarrow> string \<Rightarrow> int \<Rightarrow> bool" where
  "consumed_until s jti e \<longleftrightarrow> (\<exists>e'. (jti, e') \<in> set s \<and> e \<le> e')"

lemma mem_oset: "k \<noteq> k' \<Longrightarrow> (k, v) \<in> set m \<Longrightarrow> (k, v) \<in> set (oset k' v' m)"
  by (induction m) auto

lemma oset_mem: "(k, v) \<in> set (oset k v m)"
  by (induction m) auto

interpretation memory: single_use default_consume consumed_until
proof (unfold_locales, goal_cases)
  case (1 now jti ttl s s')
  then show ?case using oset_mem by (fastforce simp: default_consume_def consumed_until_def Let_def split: if_splits)
next
  case (2 s jti e now ttl)
  then obtain e' where "(jti, e') \<in> set s" "now < e'" by (auto simp: consumed_until_def)
  then have "jti \<in> set (okeys (filter (\<lambda>(i, expiry). \<not> expiry \<le> now) s))" by force
  then show ?case by (simp add: default_consume_def Let_def)
next
  case (3 s jti e now jti' ttl)
  then obtain e' where e': "(jti, e') \<in> set s" "now < e'" "e \<le> e'" by (auto simp: consumed_until_def)
  let ?live = "filter (\<lambda>(i, expiry). \<not> expiry \<le> now) s"
  have live: "(jti, e') \<in> set ?live" using e' by simp
  show ?case
  proof (cases "jti' \<in> set (okeys ?live)")
    case True
    then show ?thesis using live e'(3) by (auto simp: default_consume_def consumed_until_def Let_def)
  next
    case False
    then have "jti \<noteq> jti'" using live by force
    then have "(jti, e') \<in> set (oset jti' (now + ttl) ?live)" using live by (rule mem_oset)
    then show ?thesis using False e'(3) by (auto simp: default_consume_def consumed_until_def Let_def)
  qed
qed

text \<open>The token of a mutation is refused once it has gone through: while it is fresh the store knows it, and
  it is stale before the store forgets it.\<close>

text \<open>
  C5. In any sequence of presentations of tokens at times that do not go back, with the default store,
  a signed session token that was accepted once is refused whenever it is presented again, by
  whomever.
\<close>

theorem session_token_once:
  assumes token: "signSessionToken (ev_mac ev) minted uuid payload (ev_keys ev) merge prior = Inr t"
    and payload: "json_pure payload \<or> nullish payload" and "0 \<le> minted"
    and times: "sorted (map fst xs)" "\<forall>x \<in> set xs. minted \<le> fst x"
    and ij: "i < j" "j < length xs" "xs ! i = (now, rq, r, GStr t)" "xs ! j = (now', rq', r', GStr t)"
    and through: "present default_consume ev xs s ! i"
  shows "\<not> present default_consume ev xs s ! j"
proof (cases "seconds now' < seconds minted + SESSION_TTL_SECONDS")
  case True
  have "map fst xs ! i \<le> map fst xs ! j" by (rule sorted_nth_mono [OF times(1)]) (use ij in auto)
  then have le: "now \<le> now'" using ij by simp
  then have fresh: "seconds now < seconds minted + SESSION_TTL_SECONDS"
    using True zdiv_mono1 [of now now' 1000] by (simp add: seconds_def)
  have "(now, rq, r, GStr t) \<in> set xs" using ij nth_mem [of i xs] by simp
  then have "minted \<le> now" using times(2) by force
  have "now' < minted + SESSION_TOKEN_TTL_MS"
  proof -
    have "now' div 1000 < minted div 1000 + 60" using True by (simp add: seconds_def SESSION_TTL_SECONDS_def)
    then show ?thesis unfolding SESSION_TOKEN_TTL_MS_def
      using mult_div_mod_eq [of 1000 now'] mult_div_mod_eq [of 1000 minted] pos_mod_bound [of 1000 now'] pos_mod_sign [of 1000 minted]
      by linarith
  qed
  with \<open>minted \<le> now\<close> have "now' < now + SESSION_TOKEN_TTL_MS" by simp
  then show ?thesis
    using mint_token_read [OF token assms(3) payload] fresh True through
    by (intro memory.present_once [OF times(1) ij]) auto
next
  case False
  have "verifySessionToken (ev_mac ev) now' (GStr t) (ev_keys ev) = None"
    using mint_token_read [OF token assms(3) payload, of now'] False by simp
  then have "fst (applySessionToken default_consume ev now' rq' r' (GStr t) u) = Inr (False, r')" for u
    by (simp add: applySessionToken_def)
  then have "present default_consume ev ys u ! k = False" if "k < length ys" "ys ! k = (now', rq', r', GStr t)" for ys k u
    using that by (induction ys arbitrary: k u) (auto simp: nth_Cons split: nat.splits)
  with ij show ?thesis by simp
qed

subsection \<open>Who may write the session\<close>

definition writes_session :: "response \<Rightarrow> bool" where
  "writes_session r \<longleftrightarrow> list_ex (prefix (session_cookie_name @ ''='')) (rs_setCookies r)"

lemma txn_cookie_no_session:
  "\<not> prefix (session_cookie_name @ ''='') (redirectTxnCookie v b)" "\<not> prefix (session_cookie_name @ ''='') (clearRedirectTxnCookie b)"
  by (simp_all add: redirectTxnCookie_def clearRedirectTxnCookie_def session_cookie_name_def REDIRECT_TXN_COOKIE_def
      REDIRECT_TXN_COOKIE_INSECURE_def)

lemma writes_session_simps [simp]:
  "\<not> writes_session (plain_response n)" "\<not> writes_session (redirect_response n t)"
  "writes_session (burn_txn rq r) \<longleftrightarrow> writes_session r"
  "writes_session (append_cookie (redirectTxnCookie v b) r) \<longleftrightarrow> writes_session r"
  by (simp_all add: writes_session_def plain_response_def redirect_response_def burn_txn_def append_cookie_def txn_cookie_no_session)

lemma login_writes_nothing: "login_endpoint ev now fr rq = Inr (Some r) \<Longrightarrow> \<not> writes_session r"
  by (auto simp: login_endpoint_def oauth_start_def txn_cookie_response_def Let_def sbind_simps
      split: if_splits option.splits prod.splits)

definition browser_bound :: "server_env \<Rightarrow> int \<Rightarrow> request \<Rightarrow> bool" where
  "browser_bound ev now rq \<longleftrightarrow> (\<exists>t. verifyRedirectTxn (ev_mac ev) now (or_undefined (raw_txn rq)) (ev_keys ev) = Some t \<and>
     tx_nonce t \<noteq> [] \<and> query_param (u_params (rq_url rq)) ''state'' = Some (tx_nonce t))"

theorem session_writers:
  assumes "handle_request consume fr ev now rq s = (Inr (Some r), s')" and "writes_session r"
  shows "rq_method rq = ''POST'' \<and> isAllowedOrigin rq (ev_allowedOrigins ev) \<or> rq_method rq = ''GET'' \<and> browser_bound ev now rq"
proof -
  have post: "isAllowedOrigin rq (ev_allowedOrigins ev)" if "auth_post consume ev now rq s = (Inr (Some r), s')"
    using that assms(2) by (auto simp: auth_post_def split: if_splits)
  have get: "browser_bound ev now rq" if g: "auth_get consume ev now rq s = (Inr (Some r), s')"
  proof -
    let ?txn = "verifyRedirectTxn (ev_mac ev) now (or_undefined (raw_txn rq)) (ev_keys ev)"
    let ?state = "case query_param (u_params (rq_url rq)) ''state'' of None \<Rightarrow> [] | Some x \<Rightarrow> x"
    obtain t where "?txn = Some t" "?state \<noteq> []" "tx_nonce t = ?state"
      using g assms(2) by (auto simp: auth_get_def Let_def timingSafeEqual_eq split: if_splits option.splits)
    then show ?thesis by (auto simp: browser_bound_def split: option.splits)
  qed
  show ?thesis
    using assms login_writes_nothing [of ev now fr rq r] post get
    by (auto simp: handle_request_def auth_endpoint_def split: if_splits)
qed

end
