(* ===== verification/FormLaws.thy ===== *)
theory FormLaws
  imports Forms
begin

section \<open>Laws of the forms\<close>

text \<open>
  Folding is the inverse of naming the inputs of a form (\<open>form_roundtrip\<close>), the prototype stays alone
  unless a name has a segment \<open>__proto__\<close> before its last one (\<open>form_prototype\<close>), a coerced form has only
  known fields, with values of their types (\<open>form_conforms\<close>), and the map of a multipart body names every
  place of every upload (\<open>multipart_map\<close>).
\<close>

subsection \<open>The prototype\<close>

definition plain_path :: "string list \<Rightarrow> bool" where
  "plain_path segs \<longleftrightarrow> (\<forall>s \<in> set (butlast segs). segment_name s \<noteq> ''__proto__'')"

lemma put_path_protos:
  "put_path at_proto segs v own protos = Inr (own', protos') \<Longrightarrow> plain_path segs \<Longrightarrow> protos' = protos"
  by (induction at_proto segs v own protos arbitrary: own' protos' rule: put_path.induct)
     (auto simp: plain_path_def Let_def sbind_simps split: if_splits option.splits raw.splits form_value.splits)

definition accepted_key :: "string list option \<Rightarrow> string \<Rightarrow> bool" where
  "accepted_key allowed key \<longleftrightarrow> (case allowed of None \<Rightarrow> True | Some keys \<Rightarrow> key \<in> set keys)"

lemma fold_protos:
  assumes "sfold (put_entry allowed) entries (root, protos) = Inr (root', protos')"
    and "\<forall>(key, v) \<in> set entries. accepted_key allowed key \<longrightarrow> plain_path (js_split (CHR ''.'') key)"
  shows "protos' = protos"
  using assms
  by (induction entries arbitrary: root protos)
     (force simp: put_entry_def accepted_key_def sbind_simps split: if_splits option.splits dest: put_path_protos)+


subsection \<open>Names and values\<close>

text \<open>The inputs of a form for a nested value: the path of every leaf, a list as one input per entry.\<close>

fun inputs :: "raw \<Rightarrow> string \<Rightarrow> (string list \<times> form_value) list" where
  "inputs (RLeaf v) n = [([n], v)]"
| "inputs (RList vs) n = map (\<lambda>v. ([n @ ''[]''], v)) vs"
| "inputs (RObj ps) n = map (\<lambda>(p, v). (n # p, v)) (concat (map (\<lambda>(k, r). inputs r k) ps))"

definition form_inputs :: "raw_obj \<Rightarrow> (string \<times> form_value) list" where
  "form_inputs root = map (\<lambda>(p, v). (join ''.'' p, v)) (concat (map (\<lambda>(k, r). inputs r k) root))"

definition tidy_name :: "string \<Rightarrow> bool" where
  "tidy_name n \<longleftrightarrow> CHR ''.'' \<notin> set n \<and> \<not> suffix ''[]'' n \<and> n \<notin> set object_members"

fun tidy :: "raw \<Rightarrow> bool" where
  "tidy (RLeaf v) = True"
| "tidy (RList vs) = (vs \<noteq> [])"
| "tidy (RObj ps) = (ps \<noteq> [] \<and> distinct (okeys ps) \<and> list_all (\<lambda>(k, r). tidy_name k \<and> tidy r) ps)"

definition puts :: "(string list \<times> form_value) list \<Rightarrow> raw_obj \<Rightarrow> js_error + raw_obj" where
  "puts es own = sfold (\<lambda>(p, v) own. sbind (put_path False p v own []) (\<lambda>(own', protos). Inr own')) es own"

lemma puts_simps [simp]:
  "puts [] own = Inr own"
  "puts ((p, v) # es) own = sbind (put_path False p v own []) (\<lambda>(own', protos). puts es own')"
  by (cases "put_path False p v own []"; simp add: puts_def split: prod.splits)+

lemma puts_append: "puts (es @ fs) own = sbind (puts es own) (puts fs)"
  by (simp add: puts_def [abs_def] sfold_append)

lemma tidy_name_segment: "tidy_name n \<Longrightarrow> segment_name n = n \<and> \<not> list_segment n \<and> n \<noteq> ''__proto__''"
  by (auto simp: tidy_name_def segment_name_def list_segment_def object_members_def)

lemma list_name_segment: "segment_name (n @ ''[]'') = n \<and> list_segment (n @ ''[]'')"
proof -
  have "suffix ''[]'' (n @ ''[]'')" by (rule suffixI [OF refl])
  then show ?thesis by (simp add: segment_name_def list_segment_def)
qed

lemma oset_append: "k \<notin> set (okeys m) \<Longrightarrow> oset k v (m @ m') = m @ oset k v m'"
  by (induction m) auto

lemma oset_twice: "oset k v (oset k u m) = oset k v m"
  by (induction m) auto

lemma puts_list:
  "tidy_name n \<Longrightarrow> n \<notin> set (okeys own) \<Longrightarrow>
   puts (map (\<lambda>v. ([n @ ''[]''], v)) vs) (own @ [(n, RList us)]) = Inr (own @ [(n, RList (us @ vs))])"
proof (induction vs arbitrary: us)
  case (Cons v vs)
  have "map_of own n = None" using Cons.prems(2) by (simp add: map_of_eq_None_iff)
  then have "put_last [] (n @ ''[]'') v (own @ [(n, RList us)]) = Inr (own @ [(n, RList (us @ [v]))])"
    using Cons.prems(2) by (simp add: put_last_def list_name_segment raw_lookup_def map_add_def oset_append)
  with Cons show ?case by simp
qed simp

lemma puts_nested:
  assumes "tidy_name n" and "\<forall>(p, v) \<in> set es. p \<noteq> []" and "es \<noteq> []"
    and "map_of own n = None \<and> inner = [] \<or> map_of own n = Some (RObj inner)"
  shows "puts (map (\<lambda>(p, v). (n # p, v)) es) own = sbind (puts es inner) (\<lambda>i. Inr (oset n (RObj i) own))"
  using assms
proof (induction es arbitrary: own inner)
  case (Cons e es)
  obtain s ss v where e: "e = (s # ss, v)" using Cons.prems(2) by (cases e; cases "fst e") auto
  have name: "segment_name n = n" "n \<noteq> ''__proto__''" using tidy_name_segment [OF Cons.prems(1)] by auto
  have step: "put_path False (n # s # ss) v own [] =
      sbind (put_path False (s # ss) v inner []) (\<lambda>(i, protos). Inr (oset n (RObj i) own, protos))"
    using Cons.prems(1,4) name by (auto simp: raw_lookup_def tidy_name_def)
  show ?case
  proof (cases "put_path False (s # ss) v inner []")
    case (Inl a)
    then show ?thesis unfolding e by (simp del: put_path.simps add: step)
  next
    case (Inr q)
    obtain i protos where q: "q = (i, protos)" by (cases q)
    have "puts (map (\<lambda>(p, v). (n # p, v)) es) (oset n (RObj i) own)
        = sbind (puts es i) (\<lambda>j. Inr (oset n (RObj j) (oset n (RObj i) own)))"
    proof (cases "es = []")
      case False
      then show ?thesis using Cons.prems by (intro Cons.IH) (auto simp: omap_simps)
    qed (simp add: oset_twice)
    then show ?thesis unfolding e by (simp del: put_path.simps add: step Inr q oset_twice)
  qed
qed simp

lemma inputs_paths: "(p, v) \<in> set (inputs r n) \<Longrightarrow> p \<noteq> []"
  by (induction r n rule: inputs.induct) auto

lemma inputs_nonempty: "tidy r \<Longrightarrow> inputs r n \<noteq> []"
  by (induction r n rule: inputs.induct) (auto simp: neq_Nil_conv)

lemma puts_all:
  assumes "\<And>k r own. (k, r) \<in> set qs \<Longrightarrow> k \<notin> set (okeys own) \<Longrightarrow> puts (inputs r k) own = Inr (own @ [(k, r)])"
    and "distinct (okeys qs)" and "set (okeys own) \<inter> set (okeys qs) = {}"
  shows "puts (concat (map (\<lambda>(k, r). inputs r k) qs)) own = Inr (own @ qs)"
  using assms
proof (induction qs arbitrary: own)
  case (Cons q qs)
  obtain k x where q: "q = (k, x)" by (cases q)
  have "puts (inputs x k) own = Inr (own @ [(k, x)])" using Cons.prems(1,3) q by auto
  moreover have "puts (concat (map (\<lambda>(k, r). inputs r k) qs)) (own @ [(k, x)]) = Inr ((own @ [(k, x)]) @ qs)"
    by (rule Cons.IH) (use Cons.prems q in auto)
  ultimately show ?case by (simp add: q puts_append)
qed simp

lemma puts_inputs:
  "tidy r \<Longrightarrow> tidy_name n \<Longrightarrow> n \<notin> set (okeys own) \<Longrightarrow> puts (inputs r n) own = Inr (own @ [(n, r)])"
proof (induction r arbitrary: n own)
  case (RLeaf v)
  then show ?case using tidy_name_segment [of n] by (simp add: put_last_def oset_new)
next
  case (RList vs)
  then obtain v ws where vs: "vs = v # ws" by (cases vs) auto
  have "raw_lookup [] own n = Inr None" using RList.prems(2,3) by (auto simp: raw_lookup_def tidy_name_def map_of_eq_None_iff split: option.splits)
  then have "put_last [] (n @ ''[]'') v own = Inr (own @ [(n, RList [v])])"
    using RList.prems(3) by (simp add: put_last_def list_name_segment oset_new)
  then show ?case using puts_list [OF RList.prems(2,3), of ws "[v]"] by (simp add: vs)
next
  case (RObj ps)
  let ?es = "concat (map (\<lambda>(k, r). inputs r k) ps)"
  have "?es \<noteq> []" using RObj.prems(1) inputs_nonempty by (cases ps) auto
  moreover have "map_of own n = None" using RObj.prems(3) by (simp add: map_of_eq_None_iff)
  ultimately have "puts (map (\<lambda>(p, v). (n # p, v)) ?es) own = sbind (puts ?es []) (\<lambda>i. Inr (oset n (RObj i) own))"
    using inputs_paths by (intro puts_nested [OF RObj.prems(2)]) auto
  moreover have "puts ?es [] = Inr ([] @ ps)"
    using RObj.prems(1) by (intro puts_all RObj.IH) (auto simp: list_all_iff)
  ultimately show ?case using RObj.prems(3) by (simp add: oset_new)
qed

lemma js_split_joined: "p \<noteq> [] \<Longrightarrow> \<forall>s \<in> set p. sep \<notin> set s \<Longrightarrow> js_split sep (join [sep] p) = p"
  by (induction "[sep]" p rule: join.induct) (auto simp: js_split_plain js_split_append)

lemma inputs_dotless: "tidy r \<Longrightarrow> tidy_name n \<Longrightarrow> (p, v) \<in> set (inputs r n) \<Longrightarrow> s \<in> set p \<Longrightarrow> CHR ''.'' \<notin> set s"
proof (induction r n arbitrary: p s rule: inputs.induct)
  case (3 ps n)
  from "3.prems"(3) obtain k r q where kr: "(k, r) \<in> set ps" and q: "(q, v) \<in> set (inputs r k)" "p = n # q" by auto
  from kr "3.prems"(1) have "tidy r" "tidy_name k" by (auto simp: list_all_iff)
  with "3.IH" [OF kr refl _ _ q(1)] "3.prems"(2,4) q(2) show ?case by (auto simp: tidy_name_def)
qed (auto simp: tidy_name_def)

lemma inputs_plain: "tidy r \<Longrightarrow> tidy_name n \<Longrightarrow> (p, v) \<in> set (inputs r n) \<Longrightarrow> plain_path p"
proof (induction r n arbitrary: p rule: inputs.induct)
  case (3 ps n)
  from "3.prems"(3) obtain k r q where kr: "(k, r) \<in> set ps" and q: "(q, v) \<in> set (inputs r k)" "p = n # q" by auto
  from kr "3.prems"(1) have "tidy r" "tidy_name k" by (auto simp: list_all_iff)
  with "3.IH" [OF kr refl _ _ q(1)] "3.prems"(2) q(2) show ?case
    using tidy_name_segment [of n] by (auto simp: plain_path_def)
qed (auto simp: plain_path_def)

lemma fold_puts:
  assumes "puts es own = Inr own'" and "\<forall>(p, v) \<in> set es. p \<noteq> [] \<and> (\<forall>s \<in> set p. CHR ''.'' \<notin> set s) \<and> plain_path p"
  shows "sfold (put_entry None) (map (\<lambda>(p, v). (join ''.'' p, v)) es) (own, []) = Inr (own', [])"
  using assms
proof (induction es arbitrary: own)
  case (Cons e es)
  obtain p v where e: "e = (p, v)" by (cases e)
  with Cons.prems(1) obtain own1 protos where o: "put_path False p v own [] = Inr (own1, protos)" "puts es own1 = Inr own'"
    by (auto simp: sbind_simps)
  have "protos = []" by (rule put_path_protos [OF o(1)]) (use Cons.prems(2) e in auto)
  with o Cons e js_split_joined [of p "CHR ''.''"] show ?case by (simp add: put_entry_def)
qed simp


subsection \<open>The type of a coerced form\<close>

text \<open>What a field of a type may hold. A custom scalar has any value; a built-in one is its own kind or null,
  except that texts are never null and a Boolean is always there.\<close>

definition plain_ok :: "scalar_table \<Rightarrow> string \<Rightarrow> gval \<Rightarrow> bool" where
  "plain_ok scalars ty v =
     (if map_of scalars ty \<noteq> None then True
      else if ty = ''Int'' then (case v of GNull \<Rightarrow> True | GNum i \<Rightarrow> True | _ \<Rightarrow> False)
      else if ty = ''Float'' then (case v of GNull \<Rightarrow> True | GNum i \<Rightarrow> True | GDec m n \<Rightarrow> True | _ \<Rightarrow> False)
      else if ty = ''Boolean'' then (case v of GBool b \<Rightarrow> True | _ \<Rightarrow> False)
      else if ty = ''String'' \<or> ty = ''ID'' then (case v of GStr s \<Rightarrow> True | _ \<Rightarrow> False)
      else (case v of GNull \<Rightarrow> True | GStr s \<Rightarrow> s \<noteq> [] | _ \<Rightarrow> False))"

definition is_flist :: "fval \<Rightarrow> bool" where
  "is_flist v = (case v of FList vs \<Rightarrow> True | _ \<Rightarrow> False)"

text \<open>The fields of an object keep the order of the metadata, and no Boolean is missing.\<close>

definition fields_shape :: "(string, (string, string) omap) omap \<Rightarrow> (string \<times> string) list \<Rightarrow> string list \<Rightarrow> bool" where
  "fields_shape types known names \<longleftrightarrow> subseq names (map fst known) \<and>
     list_all (\<lambda>(k, ty). ty = ''Boolean'' \<and> map_of types ty = None \<longrightarrow> k \<in> set names) known"

fun conforms :: "scalar_table \<Rightarrow> (string, (string, string) omap) omap \<Rightarrow> string \<Rightarrow> fval \<Rightarrow> bool" where
  "conforms scalars types ty (FPlain v) = (map_of types ty = None \<and> plain_ok scalars ty v)"
| "conforms scalars types ty (FUpload f) = (map_of types ty = None)"
| "conforms scalars types ty (FList vs) = list_all (\<lambda>v. \<not> is_flist v \<and> conforms scalars types ty v) vs"
| "conforms scalars types ty (FObj ps) =
     (case map_of types ty of
        None \<Rightarrow> False
      | Some nested \<Rightarrow>
          fields_shape types nested (map fst ps) \<and>
          list_all (\<lambda>(k, v). list_ex (\<lambda>(k', ty'). k' = k \<and> conforms scalars types ty' v) nested) ps)"

definition fields_conform ::
  "scalar_table \<Rightarrow> (string, (string, string) omap) omap \<Rightarrow> (string \<times> string) list \<Rightarrow> (string \<times> fval) list \<Rightarrow> bool" where
  "fields_conform scalars types known ps \<longleftrightarrow>
     fields_shape types known (map fst ps) \<and>
     list_all (\<lambda>(k, v). list_ex (\<lambda>(k', ty'). k' = k \<and> conforms scalars types ty' v) known) ps"

lemma conforms_obj: "map_of types ty = Some nested \<Longrightarrow> conforms scalars types ty (FObj ps) \<longleftrightarrow> fields_conform scalars types nested ps"
  by (simp add: fields_conform_def)

definition is_number :: "gval \<Rightarrow> bool" where
  "is_number v = (case v of GNum i \<Rightarrow> True | GDec m n \<Rightarrow> True | _ \<Rightarrow> False)"

lemma dec_norm_number: "is_number (dec_norm m n)"
  by (induction m n rule: dec_norm.induct) (auto simp: is_number_def)

lemma number_value_number: "is_number (number_value neg ip fp e)"
  unfolding number_value_def Let_def by (simp add: dec_norm_number) (simp add: is_number_def)

lemma parseFloat_number:
  assumes "parseFloat s = Some v"
  shows "is_number v"
proof -
  obtain r where "js_decimal (dropWhile js_space s) = Some (v, r)" using assms by (auto simp: parseFloat_def)
  then have "\<exists>neg ip fp e. v = number_value neg ip fp e"
    unfolding js_decimal_def Let_def by (simp only: split: if_split_asm option.split_asm prod.split_asm) (simp, blast)+
  then show ?thesis using number_value_number by blast
qed

lemma coerceLeaf_conforms:
  assumes "map_of types ty = None"
  shows "conforms scalars types ty (coerceLeaf scalars ty r) \<and> \<not> is_flist (coerceLeaf scalars ty r)"
proof (cases "\<exists>f. r = RLeaf (Upload f)")
  case True
  then show ?thesis using assms by (auto simp: coerceLeaf_def is_flist_def)
next
  case False
  define t where "t = raw_text r"
  have leaf: "\<exists>v. coerceLeaf scalars ty r = FPlain v \<and> plain_ok scalars ty v"
  proof (cases "map_of scalars ty")
    case None
    consider "ty = ''Int''" | "ty = ''Float''" | "ty = ''Boolean''" | "ty = ''String''" | "ty = ''ID''"
      | "ty \<notin> {''Int'', ''Float'', ''Boolean'', ''String'', ''ID''}" by blast
    then show ?thesis
    proof cases
      case 2
      have "case x of GNull \<Rightarrow> True | GNum i \<Rightarrow> True | GDec m n \<Rightarrow> True | _ \<Rightarrow> False" if "parseFloat t = Some x" for x
        using parseFloat_number [OF that] by (auto simp: is_number_def split: gval.splits)
      then show ?thesis using None False 2
        by (cases "parseFloat t") (auto simp: coerceLeaf_def plain_ok_def t_def Let_def split: raw.splits form_value.splits)
    qed (use None False in \<open>auto simp: coerceLeaf_def plain_ok_def Let_def split: raw.splits form_value.splits option.splits\<close>)
  next
    case (Some fns)
    then show ?thesis using False by (auto simp: coerceLeaf_def plain_ok_def Let_def split: raw.splits form_value.splits)
  qed
  then show ?thesis using assms by (auto simp: is_flist_def)
qed

lemma smap_all2: "smap f xs = Inr ys \<longleftrightarrow> list_all2 (\<lambda>x y. f x = Inr y) xs ys"
  by (induction xs arbitrary: ys) (auto simp: sbind_simps list_all2_Cons1)

lemma parts_conform:
  assumes "list_all2 (\<lambda>(k, ty) part. (part = [] \<and> \<not> (ty = ''Boolean'' \<and> map_of types ty = None)) \<or>
      (\<exists>v. part = [(k, v)] \<and> conforms scalars types ty v)) known parts"
  shows "fields_conform scalars types known (concat parts)"
  using assms
proof (induction known parts rule: list_all2_induct)
  case (Cons kt known part parts)
  obtain k ty where kt: "kt = (k, ty)" by (cases kt)
  show ?case
    using Cons unfolding kt fields_conform_def fields_shape_def
    by (auto simp: list_all_iff list_ex_iff)
qed (simp add: fields_conform_def fields_shape_def)

lemma coerceObject_conforms:
  "coerceObject scalars types protos raw known = Inr ps \<Longrightarrow> fields_conform scalars types known ps"
proof (induction "opt_depth raw" arbitrary: raw known ps rule: less_induct)
  case less
  have nested: "conforms scalars types ty (FObj qs)"
    if "coerceObject scalars types protos (Some x) nest = Inr qs" "map_of types ty = Some nest" "raw_depth x < opt_depth raw" for x nest qs ty
    using less.hyps [of "Some x" nest qs] that unfolding conforms_obj [OF that(2)] by (simp add: opt_depth_def)
  have leaf: "raw_depth (RLeaf x) < raw_depth (RList vs)" for x vs by simp
  from less.prems obtain parts where ps: "ps = concat parts" and
    parts: "list_all2 (\<lambda>kt part. (\<lambda>(field, ty). case raw_field protos raw field of
           Inl e \<Rightarrow> Inl e
         | Inr v \<Rightarrow>
           (case map_of types ty of
              Some nested \<Rightarrow>
                (case v of
                   None \<Rightarrow> Inr []
                 | Some (RList vs) \<Rightarrow>
                     sbind (smap (\<lambda>x. sbind (coerceObject scalars types protos (Some (RLeaf x)) nested) (\<lambda>ps. Inr (FObj ps))) vs)
                       (\<lambda>xs. Inr [(field, FList xs)])
                 | Some x \<Rightarrow> sbind (coerceObject scalars types protos (Some x) nested) (\<lambda>ps. Inr [(field, FObj ps)]))
            | None \<Rightarrow>
                (case v of
                   None \<Rightarrow> Inr (if ty = ''Boolean'' then [(field, FPlain (GBool False))] else [])
                 | Some (RList vs) \<Rightarrow> Inr [(field, FList (map (\<lambda>x. coerceLeaf scalars ty (RLeaf x)) vs))]
                 | Some x \<Rightarrow> Inr [(field, coerceLeaf scalars ty x)]))) kt = Inr part) known parts"
    using coerceObject.simps [of scalars types protos raw known] by (auto simp: sbind_simps smap_all2)
  show ?case unfolding ps
  proof (rule parts_conform, rule list_all2_mono [OF parts], goal_cases)
    case (1 kt part)
    obtain k ty where kt: "kt = (k, ty)" by (cases kt)
    obtain v where v: "raw_field protos raw k = Inr v" using 1 kt by (cases "raw_field protos raw k") auto
    show ?case
    proof (cases "map_of types ty")
      case None
      then show ?thesis using 1 kt v coerceLeaf_conforms [OF None, of scalars]
        by (auto simp: list_all_iff plain_ok_def split: option.splits raw.splits if_splits)
    next
      case (Some nest)
      show ?thesis
      proof (cases v)
        case (Some x)
        have d: "raw_depth x < opt_depth raw" using raw_field_depth v Some by blast
        show ?thesis
        proof (cases x)
          case (RList vs)
          with 1 kt v Some \<open>map_of types ty = Some nest\<close> obtain xs where
            xs: "list_all2 (\<lambda>x y. sbind (coerceObject scalars types protos (Some (RLeaf x)) nest) (\<lambda>ps. Inr (FObj ps)) = Inr y) vs xs"
            and part: "part = [(k, FList xs)]" by (auto simp: sbind_simps smap_all2)
          have "list_all (\<lambda>y. \<not> is_flist y \<and> conforms scalars types ty y) xs"
            using xs d nested [OF _ \<open>map_of types ty = Some nest\<close>] unfolding RList
            by (induction rule: list_all2_induct) (auto simp: sbind_simps is_flist_def simp del: conforms.simps)
          then show ?thesis by (simp add: kt part)
        qed (use 1 kt v Some \<open>map_of types ty = Some nest\<close> nested [OF _ \<open>map_of types ty = Some nest\<close>] d in
              \<open>auto simp: sbind_simps simp del: conforms.simps\<close>)
      qed (use 1 kt v Some in auto)
    qed
  qed
qed


subsection \<open>Multipart bodies\<close>

text \<open>Every place of an upload, in the order of the walk; the value with null in these places.\<close>

lemma enumerate_size [termination_simp]: "(i, v) \<in> set (enumerate n vs) \<Longrightarrow> size v < Suc (size_list size vs)"
  using in_set_enumerate_eq [of "(i, v)" n vs] nth_mem [of "i - n" vs] size_list_estimation' [of v vs "size v" size]
  by (auto simp: less_Suc_eq_le)

fun places :: "fval \<Rightarrow> string list \<Rightarrow> (nat \<times> string list) list" where
  "places (FUpload f) path = [(f, path)]"
| "places (FPlain v) path = []"
| "places (FList vs) path = concat (map (\<lambda>(i, v). places v (path @ [js_of_nat i])) (enumerate 0 vs))"
| "places (FObj ps) path = concat (map (\<lambda>(k, v). places v (path @ [k])) ps)"

fun without_files :: "fval \<Rightarrow> gval" where
  "without_files (FUpload f) = GNull"
| "without_files (FPlain v) = v"
| "without_files (FList vs) = GArr (map without_files vs)"
| "without_files (FObj ps) = GObj (map (\<lambda>(k, v). (k, without_files v)) ps)"

definition note_all :: "(nat \<times> string list) list \<Rightarrow> file_map \<Rightarrow> file_map" where
  "note_all ps files = fold (\<lambda>(f, p). note_file f (join ''.'' p)) ps files"

lemma note_all_append: "note_all (ps @ qs) files = note_all qs (note_all ps files)"
  by (simp add: note_all_def)

lemma extract_places:
  "extractFiles v path files = (without_files v, note_all (places v path) files)"
  "extract_list vs i path files =
     (map without_files vs, note_all (concat (map (\<lambda>(j, v). places v (path @ [js_of_nat j])) (enumerate i vs))) files)"
  "extract_props ps path files =
     (map (\<lambda>(k, v). (k, without_files v)) ps, note_all (concat (map (\<lambda>(k, v). places v (path @ [k])) ps)) files)"
  by (induction v path files and vs i path files and ps path files rule: extractFiles_extract_list_extract_props.induct)
     (simp_all add: note_all_def)

definition file_places :: "nat \<Rightarrow> (nat \<times> string list) list \<Rightarrow> string list" where
  "file_places f ps = map (\<lambda>(g, p). join ''.'' p) (filter (\<lambda>(g, p). g = f) ps)"

lemma oset_table: "distinct gs \<Longrightarrow> f \<in> set gs \<Longrightarrow> oset f x (map (\<lambda>g. (g, h g)) gs) = map (\<lambda>g. (g, if g = f then x else h g)) gs"
  by (induction gs) auto

lemma map_of_table: "map_of (map (\<lambda>g. (g, h g)) gs) f = (if f \<in> set gs then Some (h f) else None)"
  by (induction gs) auto

lemma file_places_snoc: "file_places g (ps @ [(f, p)]) = file_places g ps @ (if g = f then [join ''.'' p] else [])"
  by (simp add: file_places_def)

lemma distinct_collected: "distinct (fold sadd ys [])"
proof -
  have "distinct xs \<Longrightarrow> distinct (fold sadd ys xs)" for xs by (induction ys arbitrary: xs) (auto simp: distinct_sadd)
  then show ?thesis by simp
qed

lemma note_all_files: "note_all ps [] = map (\<lambda>f. (f, file_places f ps)) (fold sadd (map fst ps) [])"
proof (induction ps rule: rev_induct)
  case (snoc e ps)
  obtain f p where e: "e = (f, p)" by (cases e)
  define fs where "fs = fold sadd (map fst ps) []"
  have IH: "note_all ps [] = map (\<lambda>f. (f, file_places f ps)) fs" using snoc by (simp add: fs_def)
  have split: "note_all (ps @ [e]) [] = note_file f (join ''.'' p) (note_all ps [])"
    by (simp add: e note_all_def)
  have new: "f \<notin> set fs \<Longrightarrow> file_places f ps = []" by (force simp: fs_def file_places_def filter_empty_conv)
  have "fold sadd (map fst (ps @ [e])) [] = sadd f fs" by (simp add: e fs_def)
  moreover have "note_file f (join ''.'' p) (map (\<lambda>f. (f, file_places f ps)) fs) = map (\<lambda>g. (g, file_places g (ps @ [(f, p)]))) (sadd f fs)"
  proof (cases "f \<in> set fs")
    case True
    then have "oset f x (map (\<lambda>g. (g, file_places g ps)) fs) = map (\<lambda>g. (g, if g = f then x else file_places g ps)) fs" for x
      unfolding fs_def by (intro oset_table distinct_collected)
    with True show ?thesis by (auto simp: note_file_def map_of_table sadd_def file_places_snoc)
  next
    case False
    then have "f \<notin> set (okeys (map (\<lambda>g. (g, file_places g ps)) fs))" by auto
    then show ?thesis using False new [OF False]
      by (auto simp: note_file_def map_of_table sadd_def file_places_snoc oset_new)
  qed
  ultimately show ?case using split by (simp only: IH e)
qed (simp add: note_all_def)

text \<open>The multipart request: each upload once, numbered in the order of the walk, under the places where it
  occurs.\<close>

definition multipart_spec :: "string \<Rightarrow> fval \<Rightarrow> graphql_body" where
  "multipart_spec query v =
     (let ps = places v [''variables'']; fs = fold sadd (map fst ps) [] in
      if ps = [] then JsonBody (body_text query (without_files v))
      else MultipartBody (body_text query (without_files v))
        (json_text (GObj (map (\<lambda>(i, f). (js_of_nat (Suc i), GArr (map GStr (file_places f ps)))) (enumerate 0 fs))))
        (map (\<lambda>(i, f). (js_of_nat (Suc i), f)) (enumerate 0 fs)))"

lemma enumerate_map: "map (\<lambda>(i, x). (h i, g x)) (enumerate 0 xs) = zip (map h [0..<length xs]) (map g xs)"
  by (simp add: enumerate_eq_zip zip_map_map)

text \<open>
  C32. The body of a request is that of the multipart request specification: JSON without uploads,
  otherwise the operations with null at the place of each upload, a map with all the places of each
  file, and the files in that order.
\<close>

theorem buildGraphQLBody_spec: "buildGraphQLBody query v = multipart_spec query v"
proof -
  define ps where "ps = places v [''variables'']"
  define fs where "fs = fold sadd (map fst ps) []"
  have "fs = [] \<longleftrightarrow> ps = []"
    by (metis fs_def set_fold_sadd set_empty2 Un_empty_right map_is_Nil_conv fold_simps(1) list.simps(8))
  then show ?thesis
    by (simp add: buildGraphQLBody_def multipart_spec_def extract_places note_all_files Let_def flip: ps_def fs_def)
       (simp add: enumerate_map [where g = "\<lambda>x. x", simplified] enumerate_map comp_def)
qed

end
