(* ===== verification/ServerLaws.thy ===== *)
theory ServerLaws
  imports Server SessionLaws FormLaws
begin

section \<open>Laws of the server\<close>

text \<open>
  Statements of the form ``the reply does not depend on \<open>sv_execute\<close>'' say that nothing is executed: they hold
  for every function that could stand for the schema. The guards of a native form, of the GraphQL endpoint and
  of the session proxy, what the proxy sends to the remote API, who may write the session, and the session
  that an in-process request runs under.
\<close>

subsection \<open>Bounded bodies\<close>

lemma read_chunks_spec:
  "length body \<le> maxBytes \<Longrightarrow> read_chunks maxBytes body chunks =
    (if length (body @ concat chunks) \<le> maxBytes then Some (body @ concat chunks) else None)"
  by (induction maxBytes body chunks rule: read_chunks.induct) auto

definition sent_bytes :: "request \<Rightarrow> string" where
  "sent_bytes rq = concat (case rq_chunks rq of None \<Rightarrow> [] | Some chunks \<Rightarrow> chunks)"

lemma readBody_eq:
  "readBodyWithLimit rq maxBytes = (if length (sent_bytes rq) \<le> maxBytes then Some (sent_bytes rq) else None)"
  by (auto simp: readBodyWithLimit_def sent_bytes_def read_chunks_spec split: option.split)

text \<open>However a body is cut into chunks, no more than the limit is ever held, and a body within the limit
  arrives whole.\<close>

text \<open>
  C39. Reading a body with a limit gives the bytes that were sent if they are at most the limit and
  gives up otherwise, however the bytes are cut into chunks.
\<close>

theorem readBody_bound:
  "(case readBodyWithLimit rq maxBytes of
      Some bytes \<Rightarrow> bytes = sent_bytes rq \<and> length bytes \<le> maxBytes
    | None \<Rightarrow> maxBytes < length (sent_bytes rq)) \<and>
   (\<forall>chunks. length (concat chunks) \<le> maxBytes \<longrightarrow> readBodyWithLimit (rq\<lparr>rq_chunks := Some chunks\<rparr>) maxBytes = Some (concat chunks))"
  by (simp add: readBody_eq) (simp add: sent_bytes_def)

subsection \<open>The session of an in-process request\<close>

lemma json_pure_odel: "json_pure (GObj ps) \<Longrightarrow> json_pure (GObj (odel k ps))"
  by (simp add: json_pure_obj distinct_odel list_all_odel)

lemma index_keys_distinct: "distinct (map (js_of_nat \<circ> fst) (enumerate n xs))"
  by (simp add: distinct_map inj_on_def flip: map_map)

lemma json_pure_own: "json_pure v \<Longrightarrow> json_pure (GObj (own_enumerable v))"
proof (cases v)
  case (GObj ps)
  assume "json_pure v"
  with GObj show ?thesis by (simp add: own_enumerable_def)
qed (auto simp: own_enumerable_def json_pure_obj json_pure_arr list_all_iff split_beta comp_def
      index_keys_distinct [unfolded comp_def] in_set_enumerate_eq)

lemma index_not_name: "c \<in> set k \<Longrightarrow> \<not> is_digit c \<Longrightarrow> map_of (map (\<lambda>(i, x). (js_of_nat i, f x)) (enumerate n xs)) k = None"
  using js_of_nat_digits [of c] by (auto simp: map_of_eq_None_iff)

lemma session_of_pure: "json_pure (GObj (session_of mac now cookie keys))"
  by (induction mac now cookie keys rule: session_of.induct)
     (auto simp: json_pure_obj [of "[]"] json_pure_odel json_pure_own verified_pure split: option.split)

lemma session_of_live: "\<not> (truthy (prop_of (session_of mac now cookie keys) ''nbf'') \<and>
    js_greater (prop_of (session_of mac now cookie keys) ''nbf'') (seconds now))"
proof (induction mac now cookie keys rule: session_of.induct)
  case (2 mac now cookie secret secrets)
  show ?case
  proof (cases "verified_payload mac now cookie secret")
    case None
    with 2 show ?thesis by simp
  next
    case (Some payload)
    then have "claims_live now payload"
      by (auto simp: verified_payload_def split: if_splits sum.splits dest!: jwt_accepted)
    moreover have "prop_of (own_enumerable payload) ''nbf'' = gprop payload ''nbf''"
      using index_not_name [of "CHR ''n''" "''nbf''" "\<lambda>x :: gval. x"] index_not_name [of "CHR ''n''" "''nbf''" "\<lambda>c. GStr [c]"]
      by (auto simp: own_enumerable_def prop_of_def oget_def is_digit_def split: gval.split)
    ultimately show ?thesis using Some by (auto simp: claims_live_def prop_of_def omap_simps)
  qed
qed (simp add: prop_of_def)

lemma session_of_bare: "{''iat'', ''exp''} \<inter> set (okeys (session_of mac now cookie keys)) = {}"
  by (induction mac now cookie keys rule: session_of.induct) (auto split: option.split)

lemma odel_append: "odel k (m @ m') = odel k m @ odel k m'"
  by (induction m) auto

lemma handoff_parsed:
  assumes "handoff ev now session = Inr cookie" and "sign_session (ev_mac ev) now session (first_key (ev_keys ev)) = Inr t"
  shows "map_of (cookie_parse cookie) session_cookie_name = Some t"
proof -
  have name: "good_name session_cookie_name" by (simp add: session_cookie_name_def good_name_def js_space_def object_members_def)
  have cookie: "cookie = session_cookie_name @ ''='' @ encodeURIComponent t @ ''; HttpOnly''"
    using assms by (auto simp: handoff_def cookie_serialize_def http_only_def no_options_def Let_def max_age_part_def domain_part_def
        path_part_def expires_part_def priority_part_def same_site_part_def sbind_simps split: if_splits)
  have "cookie_parse cookie = cookie_loop '' HttpOnly'' [(session_cookie_name, t)]"
    unfolding cookie cookie_parse_def
    using cookie_step [OF name, of "[]" "''; HttpOnly''" t "[]"] name by (simp add: assigned_def good_name_def)
  also have "\<dots> = [(session_cookie_name, t)]" by (subst cookie_loop.simps) simp
  finally show ?thesis by simp
qed

lemma handoff_succeeds: "usable_secret (first_key (ev_keys ev)) \<Longrightarrow> \<exists>cookie. handoff ev now session = Inr cookie"
proof -
  assume "usable_secret (first_key (ev_keys ev))"
  then obtain t where t: "jwt_encode (ev_mac ev) now session (first_key (ev_keys ev)) = Inr t"
    by (simp add: jwt_encode_eq)
  have "field_content t"
    using token_unreserved [OF t] token_nonempty [OF t] by (auto simp: field_content_def list_all_iff uri_unreserved_def Let_def)
  then have v: "field_content (encodeURIComponent t)" using token_unreserved [OF t] by (simp add: encode_unreserved)
  have "field_content session_cookie_name" by code_simp
  then show ?thesis
    by (simp add: handoff_def sign_session_def t cookie_serialize_def v http_only_def no_options_def max_age_part_def
        domain_part_def path_part_def expires_part_def priority_part_def same_site_part_def)
qed

lemma handoff_read:
  assumes "handoff (sv_env sv) now (request_session (sv_env sv) now rq) = Inr cookie"
  shows "get_session (ev_mac (sv_env sv)) now (Some cookie) (ev_keys (sv_env sv)) = request_session (sv_env sv) now rq"
proof -
  let ?mac = "ev_mac (sv_env sv)" let ?keys = "ev_keys (sv_env sv)"
  have "session_of ?mac now [] ks = []" for ks
    by (induction ks) (auto simp: verified_payload_def jwt_verify_def)
  then have "\<exists>c. request_session (sv_env sv) now rq = session_of ?mac now c ?keys"
    unfolding request_session_def get_session_def by (simp only: split: option.split) metis
  then obtain c where c: "request_session (sv_env sv) now rq = session_of ?mac now c ?keys" ..
  let ?s = "session_of ?mac now c ?keys"
  have bare: "''iat'' \<notin> set (okeys ?s)" "''exp'' \<notin> set (okeys ?s)" using session_of_bare [of ?mac now c ?keys] by auto
  obtain t where t: "jwt_encode ?mac now ?s (first_key ?keys) = Inr t"
    using assms by (auto simp: c handoff_def sign_session_def sbind_simps)
  have found: "map_of (cookie_parse cookie) session_cookie_name = Some t"
    using handoff_parsed [OF assms] t by (simp add: c sign_session_def)
  show ?thesis
  proof (cases ?keys)
    case Nil
    then show ?thesis using found by (simp add: c get_session_def)
  next
    case (Cons key keys)
    have st: "stamped now ?s = ?s @ [(''iat'', GNum (seconds now))]" by (rule stamped_new [OF bare(1)])
    have pure: "json_pure (GObj (stamped now ?s))"
      using session_of_pure [of ?mac now c ?keys] by (rule json_pure_stamped)
    have "map_of ?s ''exp'' = None" using bare(2) by (simp add: map_of_eq_None_iff)
    then have "prop_of (stamped now ?s) ''exp'' = GUndef" by (simp add: prop_stamped) (simp add: prop_of_def oget_def)
    then have "claims_live now (GObj (stamped now ?s))"
      using session_of_live [of ?mac now c ?keys] by (simp add: claims_live_def prop_stamped)
    moreover have t': "jwt_encode ?mac now ?s key = Inr t" using t Cons by (simp add: first_key_def)
    ultimately have "verified_payload ?mac now t key = Some (GObj (stamped now ?s))"
      unfolding verified_payload_def jwt_verify_encoded [OF t' pure] jwt_decode_encoded [OF t' pure] by simp
    moreover have "odel ''iat'' (odel ''exp'' (stamped now ?s)) = ?s"
      using bare by (simp add: st odel_fresh odel_append)
    ultimately have "session_of ?mac now t ?keys = ?s"
      unfolding Cons session_of.simps by (simp add: own_enumerable_def)
    then show ?thesis using found token_nonempty [OF t] by (simp add: get_session_def c)
  qed
qed

text \<open>An in-process request runs under exactly the session of the request that caused it.\<close>

text \<open>
  C23. The in-process request of a form or of server-side rendering runs under the session of the
  request that caused it: the cookie handed over reads back as that session.
\<close>

theorem handoff_session:
  assumes "usable_secret (first_key (ev_keys (sv_env sv)))"
  shows "\<exists>cookie. handoff (sv_env sv) now (request_session (sv_env sv) now rq) = Inr cookie \<and>
    get_session (ev_mac (sv_env sv)) now (Some cookie) (ev_keys (sv_env sv)) = request_session (sv_env sv) now rq"
  using handoff_succeeds [OF assms] handoff_read by blast

subsection \<open>Guards\<close>

definition form_admitted :: "server \<Rightarrow> int \<Rightarrow> request \<Rightarrow> bool" where
  "form_admitted sv now rq \<longleftrightarrow>
     rq_method rq = ''POST'' \<and> isAllowedOrigin rq (ev_allowedOrigins (sv_env sv)) \<and>
     length (sent_bytes rq) \<le> max_body sv \<and>
     verifyFormToken (ev_mac (sv_env sv)) now (field_value (form_field rq CSRF_FIELD)) (request_session (sv_env sv) now rq)
       (ev_keys (sv_env sv))"

lemma text_reply_writes [simp]: "\<not> writes_session (re_response (text_reply n t))"
  by (simp add: text_reply_def)

lemma form_writes:
  "handleForm sv now uuid rq url = Inr (Some r) \<Longrightarrow> writes_session (re_response r) \<Longrightarrow> form_admitted sv now rq"
  by (auto simp: handleForm_def form_admitted_def readBody_eq Let_def split: if_splits)

text \<open>A form that is not admitted executes nothing and writes nothing; it is answered 403 or 413, or is no
  native form at all.\<close>

text \<open>
  C4. A native form post whose Origin header is not allowed, whose body is over the limit, or which
  does not carry a CSRF token that this server signed for this session and that is still valid, never
  executes the mutation (the answer does not depend on the API), writes no session and is answered
  with 403 or 413 if it is taken at all.
\<close>

theorem form_guarded:
  assumes "\<not> form_admitted sv now rq"
  shows "(\<forall>f. handleForm (sv\<lparr>sv_execute := f\<rparr>) now uuid rq url = handleForm sv now uuid rq url) \<and>
    (case handleForm sv now uuid rq url of
       Inr (Some r) \<Rightarrow> rs_status (re_response r) \<in> {403, 413} \<and> \<not> writes_session (re_response r)
     | Inr None \<Rightarrow> True
     | Inl e \<Rightarrow> False)"
  using assms
  by (auto simp: handleForm_def form_admitted_def readBody_eq Let_def max_body_def split: if_splits)
     (auto simp: text_reply_def plain_response_def)

text \<open>The media type of a body as a browser reads it, and the types it sends across origins without asking.\<close>

definition media_type :: "string \<Rightarrow> string" where
  "media_type ct = map lower_char (trim (takeWhile (\<lambda>c. c \<noteq> CHR '';'') ct))"

definition cors_simple :: "string \<Rightarrow> bool" where
  "cors_simple ct \<longleftrightarrow> ct = [] \<or>
     media_type ct \<in> {''application/x-www-form-urlencoded'', ''multipart/form-data'', ''text/plain''}"

lemma includes_part: "js_includes (a @ w @ b) w"
  by (auto simp: js_includes_def)

lemma trim_part: "\<exists>a b. s = a @ trim s @ b"
proof -
  have "s = takeWhile js_space s @ dropWhile js_space s" by simp
  moreover have "t = rev (dropWhile js_space (rev t)) @ rev (takeWhile js_space (rev t))" for t
    by (metis rev_append rev_rev_ident takeWhile_dropWhile_id)
  ultimately show ?thesis unfolding trim_def by metis
qed

lemma lower_media_type: "map lower_char ct = ct \<Longrightarrow> js_includes ct (media_type ct)"
proof -
  assume lower: "map lower_char ct = ct"
  obtain a b where t: "takeWhile (\<lambda>c. c \<noteq> CHR '';'') ct = a @ trim (takeWhile (\<lambda>c. c \<noteq> CHR '';'') ct) @ b"
    using trim_part by blast
  have "\<forall>c \<in> set ct. lower_char c = c" using lower by (metis map_eq_conv map_ident list.map_id)
  then have "media_type ct = trim (takeWhile (\<lambda>c. c \<noteq> CHR '';'') ct)"
    unfolding media_type_def using t by (intro map_idI) (metis in_set_conv_decomp set_takeWhileD Un_iff set_append)
  moreover have "ct = takeWhile (\<lambda>c. c \<noteq> CHR '';'') ct @ dropWhile (\<lambda>c. c \<noteq> CHR '';'') ct" by simp
  ultimately show ?thesis using t includes_part by (metis append.assoc)
qed

text \<open>The gate of the GraphQL endpoint stops every such request of another origin, as long as the type is
  written in lower case.\<close>

text \<open>
  C20. A POST to the GraphQL endpoint with a content type that needs no CORS preflight, written in
  lower case, and without the header of the client never reaches the schema; written in mixed case
  such a content type does get through the gate.
\<close>

theorem graphql_gated:
  "(\<forall>consume sv now fr rq store f.
      sv_local sv \<and> u_pathname (rq_url rq) = sv_endpoint sv \<and> rq_method rq = ''POST'' \<and>
      cors_simple (content_type rq) \<and> map lower_char (content_type rq) = content_type rq \<and>
      \<not> sent_header (rq_headers rq) HOUDINI_REQUEST_HEADER \<longrightarrow>
      server_handler consume (sv\<lparr>sv_execute := f\<rparr>) now fr rq store = server_handler consume sv now fr rq store) \<and>
   (\<exists>rq. rq_method rq = ''POST'' \<and> cors_simple (content_type rq) \<and>
      \<not> sent_header (rq_headers rq) HOUDINI_REQUEST_HEADER \<and> graphql_gate rq = None)"
proof (intro conjI allI impI, goal_cases)
  case (1 consume sv now fr rq store f)
  then have "content_type rq = [] \<or> js_includes (content_type rq) ''application/x-www-form-urlencoded'' \<or>
      js_includes (content_type rq) ''multipart/form-data'' \<or> js_includes (content_type rq) ''text/plain''"
    using lower_media_type [of "content_type rq"] by (auto simp: cors_simple_def)
  then have "graphql_gate rq \<noteq> None" using 1 by (auto simp: graphql_gate_def Let_def)
  then obtain r where "graphql_gate rq = Some r" by blast
  then show ?case using 1 by (simp add: server_handler_def Let_def)
next
  case 2
  let ?rq = "\<lparr>rq_method = ''POST'', rq_url = \<lparr>u_protocol = [], u_hostname = [], u_origin = [], u_pathname = [], u_search = [], u_params = []\<rparr>,
     rq_headers = [(''content-type'', ''Text/Plain'')], rq_form = [], rq_json = None, rq_chunks = None\<rparr>"
  have "rq_method ?rq = ''POST'' \<and> cors_simple (content_type ?rq) \<and> \<not> sent_header (rq_headers ?rq) HOUDINI_REQUEST_HEADER \<and> graphql_gate ?rq = None"
    by code_simp
  then show ?case by blast
qed

subsection \<open>The remote API\<close>

text \<open>Whatever the request, the remote API is only asked at the configured URL, with headers that carry
  neither the cookies of the browser nor the host.\<close>

lemma forward_headers_drop: "name \<in> {''cookie'', ''host'', ''content-length'', HOUDINI_OPERATION_HEADER} \<Longrightarrow>
    map_of (forward_headers hs) name = None"
  by (auto simp: forward_headers_def omap_simps HOUDINI_OPERATION_HEADER_def)

lemma env_fetch: "sv_env (sv\<lparr>sv_fetch := f\<rparr>) = sv_env sv"
  by simp

lemma url_fetch: "resolveApiEndpoint (sv\<lparr>sv_fetch := f\<rparr>) = resolveApiEndpoint sv"
proof -
  have "sv_url (sv\<lparr>sv_fetch := f\<rparr>) = sv_url sv" "sv_apiURL (sv\<lparr>sv_fetch := f\<rparr>) = sv_apiURL sv" by simp_all
  then show ?thesis by (simp only: resolveApiEndpoint_def)
qed

lemma mint_fetch: "mintSessionToken (sv\<lparr>sv_fetch := f\<rparr>) = mintSessionToken sv"
proof -
  have m: "session_mutation_of (sv\<lparr>sv_fetch := f\<rparr>) = session_mutation_of sv" by (intro ext) (simp add: session_mutation_of_def)
  show ?thesis by (intro ext) (simp only: mintSessionToken_def m env_fetch)
qed

lemma proxy_session_fetch: "proxy_session consume (sv\<lparr>sv_fetch := f\<rparr>) = proxy_session consume sv"
  by (intro ext) (simp only: proxy_session_def mint_fetch env_fetch)

text \<open>
  C21. The session proxy calls the remote API at the configured address only, and without the cookies
  and the host of the browser: it behaves the same for any two networks that agree on such calls.
\<close>

theorem proxy_calls:
  assumes "\<And>headers bytes. map_of headers ''cookie'' = None \<Longrightarrow> map_of headers ''host'' = None \<Longrightarrow>
    f (resolveApiEndpoint sv) headers bytes = g (resolveApiEndpoint sv) headers bytes"
  shows "handleSessionProxy consume (sv\<lparr>sv_fetch := f\<rparr>) now uuid rq store =
    handleSessionProxy consume (sv\<lparr>sv_fetch := g\<rparr>) now uuid rq store"
proof -
  have path: "proxy_path (sv\<lparr>sv_fetch := h\<rparr>) = proxy_path sv" "max_body (sv\<lparr>sv_fetch := h\<rparr>) = max_body sv" for h
    by (simp_all add: proxy_path_def max_body_def)
  have "forward (sv\<lparr>sv_fetch := f\<rparr>) rq bytes = forward (sv\<lparr>sv_fetch := g\<rparr>) rq bytes" for bytes
    using assms [of "forward_headers (rq_headers rq)"] forward_headers_drop
    by (simp add: forward_def url_fetch)
  then show ?thesis
    by (simp only: handleSessionProxy_def proxy_session_fetch path env_fetch)
qed

subsection \<open>Who may write the session\<close>

lemma form_session_errors:
  "has_errors (gprop result ''errors'') \<Longrightarrow> form_outcome sv now rq url m i a result =
    renderPage sv now rq url (Some (i, or_default (gprop result ''data'') GNull, gprop result ''errors'')) (Some 422)"
  by (simp add: form_outcome_def)

definition quiet_renderer :: "server \<Rightarrow> bool" where
  "quiet_renderer sv \<longleftrightarrow> (\<forall>x r. sv_render sv x = Some r \<longrightarrow> \<not> writes_session (re_response r))"

lemma writes_status [simp]: "writes_session (r\<lparr>rs_status := n\<rparr>) \<longleftrightarrow> writes_session r"
  by (simp add: writes_session_def)

lemma render_writes_nothing:
  assumes "quiet_renderer sv" and "renderPage sv now rq url fr st = Inr r"
  shows "\<not> writes_session (re_response r)"
proof -
  obtain x where r: "r = (case sv_render sv x of None \<Rightarrow> text_reply 404 ''404''
      | Some rendered \<Rightarrow> (case st of None \<Rightarrow> rendered | Some n \<Rightarrow> rendered\<lparr>re_response := (re_response rendered)\<lparr>rs_status := n\<rparr>\<rparr>))"
    using assms(2) unfolding renderPage_def Let_def sbind_eq_Inr by (clarsimp simp only: prod.case sbind_eq_Inr sum.inject)
  then show ?thesis
    using assms(1) by (cases "sv_render sv x"; cases st) (auto simp: quiet_renderer_def)
qed

text \<open>Over all the handlers: the session is written for a POST of an allowed origin, or at the end of a redirect
  login that this browser started; a form also carries the token that was signed for its session.\<close>

text \<open>
  C3. Over all paths of the request handler: if the response to a request writes the session cookie
  (the renderer of the framework not writing it itself), then the request is a POST with an allowed
  Origin, or a GET that carries a redirect transaction cookie that this server signed for the browser.
\<close>

theorem server_session_writers:
  assumes "server_handler consume sv now fr rq store = (Inr (Reply r), store')"
    and "writes_session (re_response r)" and "quiet_renderer sv"
  shows "rq_method rq = ''POST'' \<and> isAllowedOrigin rq (ev_allowedOrigins (sv_env sv)) \<or>
    rq_method rq = ''GET'' \<and> browser_bound (sv_env sv) now rq"
proof -
  let ?url = "u_pathname (rq_url rq) @ u_search (rq_url rq)"
  have gate: "graphql_gate rq = Some r \<Longrightarrow> False"
    using assms(2) by (auto simp: graphql_gate_def Let_def split: if_splits)
  have proxy: "rq_method rq = ''POST'' \<and> isAllowedOrigin rq (ev_allowedOrigins (sv_env sv))"
    if "handleSessionProxy consume sv now (fr_uuid fr) rq store = (Inr (Some r), s1)" for s1
    using that assms(2) by (auto simp: handleSessionProxy_def split: if_splits)
  have auth: ?thesis if "handle_request consume fr (sv_env sv) now rq s1 = (Inr (Some x), s2)" "r = of_response x" for x s1 s2
    using session_writers [OF that(1)] that(2) assms(2) by (simp add: of_response_def)
  have form: "rq_method rq = ''POST'' \<and> isAllowedOrigin rq (ev_allowedOrigins (sv_env sv))"
    if "handleForm sv now (fr_uuid fr) rq ?url = Inr (Some r)"
    using form_writes [OF that assms(2)] by (simp add: form_admitted_def)
  have page: "renderPage sv now rq ?url None None = Inr r \<Longrightarrow> False"
    using render_writes_nothing [OF assms(3)] assms(2) by blast
  show ?thesis
    using assms(1) gate proxy auth form page
    by (auto simp: server_handler_def Let_def sbind_simps split: if_splits option.splits prod.splits sum.splits)
qed

text \<open>A mutation that fails touches no session, on any of the three ways.\<close>


subsection \<open>Signing in over the proxy\<close>

lemma pure_prop: "json_pure (GObj ps) \<Longrightarrow> json_pure (prop_of ps k) \<or> prop_of ps k = GUndef"
  by (auto simp: json_pure_obj list_all_iff prop_of_def oget_def split: option.split dest!: map_of_SomeD)

lemma json_pure_member:
  assumes "json_pure v"
  shows "json_pure (js_member v k) \<or> js_member v k = GUndef"
proof (cases v)
  case (GArr xs)
  then have "json_pure (GObj (own_enumerable v))" using assms by (intro json_pure_own)
  then show ?thesis using pure_prop [of _ k] GArr by (auto simp: js_member_def own_enumerable_def)
next
  case (GStr cs)
  then have "json_pure (GObj (own_enumerable v))" using assms by (intro json_pure_own)
  then show ?thesis using pure_prop [of _ k] GStr by (auto simp: js_member_def own_enumerable_def)
next
  case (GObj ps)
  then show ?thesis using pure_prop [of ps k] assms by (simp add: js_member_def)
qed (simp_all add: js_member_def)

lemma json_pure_at: "json_pure v \<or> nullish v \<Longrightarrow> json_pure (valueAtPath v path) \<or> nullish (valueAtPath v path)"
proof (induction v path rule: valueAtPath.induct)
  case (2 v key path)
  then show ?case using json_pure_member [of v key] by (auto simp: nullish_def)
qed simp

lemma sbind_assoc: "sbind (sbind x f) g = sbind x (\<lambda>y. sbind (f y) g)"
  by (cases x) auto

text \<open>A mutation of the remote API that succeeds through the proxy writes exactly the value at its session path,
  and consumes one token for it.\<close>

text \<open>
  C13. A session mutation that goes through the session proxy and that the remote API answers without
  errors writes exactly the session of its result (merged, replaced or cleared as the manifest says),
  flags the body as applied, and consumes one token.
\<close>

theorem proxy_signs_in:
  assumes "proxy_path sv = Some (u_pathname (rq_url rq))" and "rq_method rq = ''POST''"
    and "isAllowedOrigin rq (ev_allowedOrigins (sv_env sv))" and "length (sent_bytes rq) \<le> max_body sv"
    and up: "forward sv rq (sent_bytes rq) = Some up" "json_parse (up_text up) = Some payload"
    and ok: "\<not> has_errors (gprop payload ''errors'')"
    and op: "req_header rq HOUDINI_OPERATION_HEADER = Some name" "name \<noteq> []" "session_mutation_of sv name = Inr (Some m)"
    and key: "usable_secret (sessionTokenKey (ev_keys (sv_env sv)))" and "0 \<le> now"
    and fresh: "consume now uuid SESSION_TOKEN_TTL_MS store = (True, store')"
  shows "handleSessionProxy consume sv now uuid rq store =
    (let v = session_value m (gprop payload ''data''); carrier = plain_response (up_status up) in
     (sbind (if nullish v then Inr (clear_session (Some rq) carrier)
             else set_session (sv_env sv) now rq carrier
               (if sm_merge m then spread (request_session (sv_env sv) now rq) (own_enumerable v) else own_enumerable v))
        (\<lambda>r. Inr (Some (json_reply r (applied_body payload)))), store'))"
proof -
  let ?ev = "sv_env sv" let ?s = "request_session (sv_env sv) now rq"
  let ?v = "session_value m (gprop payload ''data'')" let ?w = "or_default ?v GNull"
  have "json_pure payload" using up(2) by (rule json_parse_pure)
  then have "json_pure (gprop payload ''data'') \<or> nullish (gprop payload ''data'')"
    using pure_prop [of _ "''data''"] by (cases payload) (auto simp: nullish_def)
  then have pure: "json_pure ?w \<or> nullish ?w"
    using json_pure_at unfolding session_value_def by (auto simp: or_default_def nullish_def)
  obtain t where t: "signSessionToken (ev_mac ?ev) now uuid ?w (ev_keys ?ev) (sm_merge m) ?s = Inr t"
    using key by (simp add: signSessionToken_def jwt_encode_eq)
  have mint: "mintSessionToken sv now uuid (gprop payload ''data'') (gprop payload ''errors'') (Some name)
      (req_header rq ''cookie'') = Inr (Some t)"
    using ok op(2,3) t by (simp add: mintSessionToken_def request_session_def)
  have read: "verifySessionToken (ev_mac ?ev) now (GStr t) (ev_keys ?ev) =
      Some \<lparr>sr_action = mint_action ?w (sm_merge m), sr_sid = sessionTokenFingerprint (ev_mac ?ev) ?s (ev_keys ?ev), sr_jti = uuid\<rparr>"
    using mint_token_read [OF t \<open>0 \<le> now\<close> pure, of now] by (simp add: SESSION_TTL_SECONDS_def)
  have "applySessionToken consume ?ev now rq r (GStr t) store =
      (if nullish ?v then (Inr (True, clear_session (Some rq) r), store')
       else (sbind (set_session ?ev now rq r (if sm_merge m then spread ?s (own_enumerable ?v) else own_enumerable ?v))
         (\<lambda>r. Inr (True, r)), store'))" for r
    using fresh by (auto simp: applySessionToken_def read timingSafeEqual_eq mint_action_def or_default_def nullish_def)
  then have "proxy_session consume sv now uuid rq (up_status up) payload store =
    (sbind (if nullish ?v then Inr (clear_session (Some rq) (plain_response (up_status up)))
             else set_session ?ev now rq (plain_response (up_status up))
               (if sm_merge m then spread ?s (own_enumerable ?v) else own_enumerable ?v))
        (\<lambda>r. Inr (json_reply r (applied_body payload))), store')"
    by (auto simp: proxy_session_def op(1) mint sbind_assoc)
  then show ?thesis
    using assms(1-4) by (simp add: handleSessionProxy_def readBody_eq up sbind_assoc Let_def)
qed

subsection \<open>Redirects of a form\<close>

lemma interpolate_prefix: "interpolateRedirect (Literal s # parts) result = Some r \<Longrightarrow> prefix s r"
  by (auto simp: prefix_def)


end
