(* ===== verification/HrefLaws.thy ===== *)
theory HrefLaws
  imports Hrefs
begin

section \<open>Links and routes are inverse\<close>

text \<open>
  \<open>search_roundtrip\<close>: a query string that was serialized parses to the same pairs. \<open>href_roundtrip\<close>: the
  URL that \<open>resolveHref\<close> builds for a route of static segments and plain parameters is matched by the
  pattern of the route, and \<open>find_match\<close> gives the parameters back, if their text has no slash, percent
  or question mark. \<open>resolveHref\<close> does not encode, so other texts can fail (\<open>percent_breaks_match\<close>).
  \<open>prefix_match_best\<close> says what the fallback for a 404 finds.
\<close>

subsection \<open>Query strings\<close>

lemma form_decode_plain: "c \<noteq> CHR ''+'' \<Longrightarrow> c \<noteq> CHR ''%'' \<Longrightarrow> form_decode (c # s) = c # form_decode s"
  by simp

lemma form_decode_percent: "form_decode (percent c @ s) = c # form_decode s"
  by (simp add: percent_def hex2_percent)

lemma form_decode_char: "form_decode (form_char c @ s) = utf8_char c @ form_decode s"
proof -
  have many: "form_decode (concat (map percent cs) @ s) = cs @ form_decode s" for cs
    by (induction cs) (simp_all add: form_decode_percent del: form_decode.simps)
  show ?thesis
  proof (cases "c = CHR '' '' \<or> form_unreserved c")
    case True
    then have "utf8_char c = [c]" "c \<noteq> CHR ''+''" "c \<noteq> CHR ''%''"
      by (auto simp: utf8_char_def form_unreserved_def Let_def)
    with True show ?thesis by (auto simp: form_char_def)
  next
    case False
    then show ?thesis by (simp add: form_char_def many)
  qed
qed

lemma form_text_encode: "form_text (form_encode s) = s"
proof -
  have "form_decode (form_encode s) = utf8_encode s"
    by (induction s) (simp_all add: form_encode_def utf8_encode_def form_decode_char)
  then show ?thesis by (simp add: form_text_def utf8_decode_encode)
qed

lemma percent_chars: "x \<in> set (percent c) \<Longrightarrow> x = CHR ''%'' \<or> uri_unreserved x"
proof -
  have "(of_char c :: nat) div 16 < 16" using char_bound [of c] by (simp add: less_mult_imp_div_less)
  then show "x \<in> set (percent c) \<Longrightarrow> ?thesis" by (auto simp: percent_def hex_upper_unreserved)
qed

lemma form_encode_chars: "x \<in> set (form_encode s) \<Longrightarrow> x \<noteq> CHR ''&'' \<and> x \<noteq> CHR ''=''"
  using percent_chars [of x]
  by (auto simp: form_encode_def form_char_def form_unreserved_def uri_unreserved_def Let_def split: if_splits)

lemma js_split_join_list:
  "ts \<noteq> [] \<Longrightarrow> (\<And>t. t \<in> set ts \<Longrightarrow> sep \<notin> set t) \<Longrightarrow> js_split sep (join [sep] ts) = ts"
proof (induction ts)
  case (Cons t ts)
  then show ?case by (cases ts) (auto simp: js_split_plain js_split_append)
qed simp

theorem search_roundtrip: "parse_search (search_text ps) = ps"
proof (cases "ps = []")
  case True
  then show ?thesis by (simp add: search_text_def parse_search_def)
next
  case False
  let ?t = "\<lambda>(k, v). form_encode k @ ''='' @ form_encode v"
  have "js_split (CHR ''&'') (join ''&'' (map ?t ps)) = map ?t ps"
  proof (rule js_split_join_list)
    have "CHR ''&'' \<notin> set (form_encode x)" for x using form_encode_chars by blast
    then show "CHR ''&'' \<notin> set t" if "t \<in> set (map ?t ps)" for t using that by auto
  qed (use False in simp)
  moreover have "filter (\<lambda>p. p \<noteq> []) (map ?t ps) = map ?t ps" by (auto simp: filter_id_conv)
  moreover have "(form_text (takeWhile (\<lambda>c. c \<noteq> CHR ''='') (?t p)), form_text (tl (dropWhile (\<lambda>c. c \<noteq> CHR ''='') (?t p)))) = p" for p
  proof -
    obtain k v where p: "p = (k, v)" by (cases p)
    have "CHR ''='' \<notin> set (form_encode k)" using form_encode_chars by blast
    from scan_upto(1,2) [OF this, of "form_encode v"] show ?thesis by (simp add: p form_text_encode)
  qed
  ultimately show ?thesis by (simp add: search_text_def parse_search_def comp_def)
qed

subsection \<open>Routes of static segments and plain parameters\<close>

datatype route_seg = Static string | Param string

fun path_text :: "route_seg \<Rightarrow> string" where
  "path_text (Static s) = s"
| "path_text (Param p) = ''['' @ p @ '']''"

fun seg_fill :: "(string \<Rightarrow> string) \<Rightarrow> route_seg \<Rightarrow> string" where
  "seg_fill val (Static s) = s"
| "seg_fill val (Param p) = val p"

fun seg_pieces :: "route_seg \<Rightarrow> piece list" where
  "seg_pieces (Static s) = map (\<lambda>c. Lit [c]) s"
| "seg_pieces (Param p) = [Lazy1]"

fun seg_names :: "route_seg \<Rightarrow> string list" where
  "seg_names (Static s) = []"
| "seg_names (Param p) = [p]"

definition static_char :: "char \<Rightarrow> bool" where
  "static_char c \<longleftrightarrow> var_char c \<or> c = CHR ''-'' \<or> c = CHR ''.'' \<or> c = CHR ''~''"

fun seg_ok :: "route_seg \<Rightarrow> bool" where
  "seg_ok (Static s) = (s \<noteq> [] \<and> list_all static_char s)"
| "seg_ok (Param p) = word_name p"

definition route_text :: "(route_seg \<Rightarrow> string) \<Rightarrow> route_seg list \<Rightarrow> string" where
  "route_text f segs = concat (map (\<lambda>s. CHR ''/'' # f s) segs)"

definition plain_param :: "string \<Rightarrow> route_param" where
  "plain_param p = \<lparr>rp_name = p, rp_optional = False, rp_rest = False, rp_chained = False\<rparr>"

lemma static_char_not: "static_char c \<Longrightarrow> c \<notin> set ''/[]()?#%''"
  by (auto simp: static_char_def var_char_def Let_def)

lemma word_char_not: "var_char c \<Longrightarrow> c \<notin> set ''/[]().?#%''"
  by (auto simp: var_char_def Let_def)

lemma route_split:
  assumes "segs \<noteq> []" and "list_all seg_ok segs"
  shows "get_route_segments (route_text path_text segs) = map path_text segs"
proof -
  have no: "CHR ''/'' \<notin> set (path_text s)" "affects_path (path_text s)" if "s \<in> set segs" for s
    using assms(2) that static_char_not word_char_not
    by (cases s; fastforce simp: list_all_iff word_name_def affects_path_def prefix_def)+
  have "tl (route_text path_text segs) = join ''/'' (map path_text segs)"
    using assms(1)
  proof (induction segs)
    case (Cons s segs)
    then show ?case by (cases segs) (auto simp: route_text_def join_Cons)
  qed simp
  moreover have "js_split (CHR ''/'') (join ''/'' (map path_text segs)) = map path_text segs"
    by (rule js_split_join_list) (use no(1) assms(1) in auto)
  ultimately show ?thesis by (auto simp: get_route_segments_def filter_id_conv no(2))
qed

lemma split_no_bracket: "CHR ''['' \<notin> set s \<Longrightarrow> split_brackets acc s = [acc @ s]"
  by (induction s arbitrary: acc) auto

lemma escape_static: "list_all static_char s \<Longrightarrow> escapeRegex s = Inr (map (\<lambda>c. Lit [c]) s)"
proof -
  assume s: "list_all static_char s"
  have "smap (\<lambda>c. if c = CHR ''['' then Inl (Thrown ''Invalid regular expression'')
         else Inr (
           if c = CHR '']'' then [Lit [CHR 0x5C], Lit '']'']
           else if c = CHR ''%'' then [Lit ''%'', Lit ''2'', Lit ''5'']
           else if c = CHR ''/'' then [Lit ''%'', Lit ''2'', Lit ''Ff'']
           else if c = CHR ''?'' then [Lit ''%'', Lit ''3'', Lit ''Ff'']
           else if c = CHR ''#'' then [Lit ''%'', Lit ''2'', Lit ''3'']
           else [Lit [c]])) s = Inr (map (\<lambda>c. [Lit [c]]) s)"
    using s static_char_not by (intro smap_Inr) (fastforce simp: list_all_iff)
  then show ?thesis by (simp add: escapeRegex_def concat_map_singleton)
qed

lemma segment_static: "seg_ok (Static s) \<Longrightarrow> segment_pattern s = Inr (Lit ''/'' # map (\<lambda>c. Lit [c]) s, [])"
proof -
  assume ok: "seg_ok (Static s)"
  then have no: "CHR ''['' \<notin> set s" using static_char_not by (fastforce simp: list_all_iff)
  then have "rest_name s = None" "optional_name s = None"
    by (auto simp: rest_name_def optional_name_def prefix_def Let_def)
  with ok no show ?thesis by (simp add: segment_pattern_def split_no_bracket escape_static)
qed

lemma close_word: "list_all var_char p \<Longrightarrow> acc @ p \<noteq> [] \<Longrightarrow> close_bracket acc (p @ '']'') = Some (acc @ p, [])"
proof (induction p arbitrary: acc)
  case (Cons c p)
  then have "c \<noteq> CHR '']''" using word_char_not by fastforce
  with Cons show ?case by auto
qed simp

lemma param_word: "word_name p \<Longrightarrow> param_match p = Some (p, False, False)"
proof -
  assume p: "word_name p"
  then obtain c q where c: "p = c # q" "var_char c" by (cases p) (auto simp: word_name_def)
  then have "\<not> prefix ''['' p" "\<not> prefix ''...'' p" using word_char_not by fastforce+
  with p show ?thesis by (simp add: param_match_def word_name_def list_all_iff takeWhile_eq_all_conv [THEN iffD2])
qed

lemma segment_param: "word_name p \<Longrightarrow> segment_pattern (''['' @ p @ '']'') = Inr ([Lit ''/'', Lazy1], [plain_param p])"
proof -
  assume p: "word_name p"
  then obtain c q where c: "p = c # q" "var_char c" by (cases p) (auto simp: word_name_def)
  then have names: "rest_name (''['' @ p @ '']'') = None" "optional_name (''['' @ p @ '']'') = None"
    using word_char_not by (fastforce simp: rest_name_def optional_name_def)+
  have split: "split_brackets [] (''['' @ p @ '']'') = [[], p, []]"
    using close_word [of p "[]"] p by (simp add: word_name_def)
  have plus: "\<not> prefix ''x+'' p" "\<not> prefix ''u+'' p"
  proof -
    have "\<not> var_char (CHR ''+'')" by (simp add: var_char_def)
    then show "\<not> prefix ''x+'' p" "\<not> prefix ''u+'' p" using p by (auto simp: word_name_def prefix_def)
  qed
  show ?thesis
    unfolding segment_pattern_def names split
    by (simp add: escapeRegex_def bracket_part_def plus param_word [OF p] plain_param_def)
qed

lemma route_pattern:
  assumes "segs \<noteq> []" and "list_all seg_ok segs"
  shows "parse_page_pattern (route_text path_text segs) =
    Inr (Pieces (concat (map (\<lambda>s. Lit ''/'' # seg_pieces s) segs)), map plain_param (concat (map seg_names segs)))"
proof -
  have "segment_pattern (path_text s) = Inr (Lit ''/'' # seg_pieces s, map plain_param (seg_names s))" if "seg_ok s" for s
    using that segment_static segment_param by (cases s) auto
  then have "smap segment_pattern (map path_text segs) = Inr (map (\<lambda>s. (Lit ''/'' # seg_pieces s, map plain_param (seg_names s))) segs)"
    using assms(2) by (induction segs) auto
  moreover have "route_text path_text segs \<noteq> ''/''"
  proof -
    obtain s ss where s: "segs = s # ss" using assms(1) by (cases segs) auto
    with assms(2) have "path_text s \<noteq> []" by (cases s) auto
    then show ?thesis by (simp add: route_text_def s)
  qed
  ultimately show ?thesis
    by (simp add: parse_page_pattern_def route_split [OF assms] map_concat comp_def)
qed

subsection \<open>Matching the filled route\<close>

lemma rx_literals: "rx (map (\<lambda>c. Lit [c]) s @ ps) (s @ r) = rx ps r"
  by (induction s) auto

lemma first_some_last:
  "1 \<le> k \<Longrightarrow> (\<And>n. 1 \<le> n \<Longrightarrow> n < k \<Longrightarrow> f n = None) \<Longrightarrow> first_some f [1..<Suc k] = f k"
proof -
  have app: "first_some f (xs @ ys) = first_some f ys" if "\<And>x. x \<in> set xs \<Longrightarrow> f x = None" for xs ys
    using that by (induction xs) auto
  assume "1 \<le> k" "\<And>n. 1 \<le> n \<Longrightarrow> n < k \<Longrightarrow> f n = None"
  then have "first_some f ([1..<k] @ [k]) = first_some f [k]" by (intro app) auto
  with \<open>1 \<le> k\<close> show ?thesis by (simp split: option.splits)
qed

definition value_ok :: "string \<Rightarrow> bool" where
  "value_ok v \<longleftrightarrow> v \<noteq> [] \<and> set v \<inter> set ''/%?'' = {}"

lemma rx_lazy:
  assumes v: "value_ok v" and r: "r = [] \<and> ps = [] \<or> (\<exists>r' ps'. r = CHR ''/'' # r' \<and> ps = Lit ''/'' # ps')"
  shows "rx (Lazy1 # ps) (v @ r) = map_option ((#) (Some v)) (rx ps r)"
proof -
  have no: "CHR ''/'' \<notin> set v" "v \<noteq> []" using v by (auto simp: value_ok_def)
  have len: "no_slash (v @ r) = length v"
    using r unfolding no_slash_def by (elim disjE conjE exE) (simp_all add: scan_upto [OF no(1)])
  have mid: "rx ps (drop n (v @ r)) = None" if n: "n < length v" for n
  proof -
    obtain c q where c: "drop n v = c # q" using n by (metis drop_eq_Nil linorder_not_le neq_Nil_conv)
    then have "c \<noteq> CHR ''/''" using no(1) by (metis in_set_dropD list.set_intros(1))
    then show ?thesis using r n c by auto
  qed
  have "rx (Lazy1 # ps) (v @ r) = map_option ((#) (Some (take (length v) (v @ r)))) (rx ps (drop (length v) (v @ r)))"
    unfolding rx.simps len
    by (rule first_some_last) (use no(2) mid in \<open>auto simp: Suc_le_eq\<close>)
  then show ?thesis by simp
qed

lemma rx_route:
  assumes "\<And>p. p \<in> set (concat (map seg_names segs)) \<Longrightarrow> value_ok (val p)"
  shows "rx (concat (map (\<lambda>s. Lit ''/'' # seg_pieces s) segs)) (route_text (seg_fill val) segs)
    = Some (map (\<lambda>p. Some (val p)) (concat (map seg_names segs)))"
  using assms
proof (induction segs)
  case Nil
  then show ?case by (simp add: route_text_def)
next
  case (Cons s segs)
  let ?ps = "concat (map (\<lambda>s. Lit ''/'' # seg_pieces s) segs)" let ?r = "route_text (seg_fill val) segs"
  have IH: "rx ?ps ?r = Some (map (\<lambda>p. Some (val p)) (concat (map seg_names segs)))" using Cons by simp
  show ?case
  proof (cases s)
    case (Static t)
    then show ?thesis using IH by (simp add: route_text_def rx_literals)
  next
    case (Param p)
    have "?r = [] \<and> ?ps = [] \<or> (\<exists>r' ps'. ?r = CHR ''/'' # r' \<and> ?ps = Lit ''/'' # ps')"
      by (cases segs) (auto simp: route_text_def)
    moreover have "value_ok (val p)" using Cons.prems Param by simp
    ultimately show ?thesis
      using Param IH rx_lazy [of "val p" ?r ?ps] by (simp add: route_text_def del: rx.simps(3))
  qed
qed

lemma exec_plain:
  "list_all value_ok vs \<Longrightarrow> length vs = length ns \<Longrightarrow> distinct (okeys acc @ ns) \<Longrightarrow>
   exec (map Some vs) (map plain_param ns) acc = Inr (acc @ zip ns vs)"
proof (induction vs ns arbitrary: acc rule: list_induct2')
  case (4 v vs n ns)
  have "decodeURIComponent v = Some v" using 4 by (intro decode_no_percent) (auto simp: value_ok_def)
  then have "exec_param (plain_param n) (Some v) acc = Inr (acc @ [(n, v)])"
    using 4 by (simp add: exec_param_def plain_param_def oset_new)
  then show ?case using 4 by simp
qed auto

subsection \<open>Filling a route\<close>

text \<open>After every bracket comes a name, so only the last replacement finds anything.\<close>

fun calm :: "string \<Rightarrow> bool" where
  "calm [] = True"
| "calm (c # r) = (calm r \<and> (c = CHR ''['' \<longrightarrow> r = [] \<or> var_char (hd r)))"

lemma calm_sub: "calm s \<Longrightarrow> sub_optional f s = Inr s \<and> sub_rest f s = Inr s"
proof (induction s)
  case Nil
  show ?case by (simp add: sub_optional.simps sub_rest.simps)
next
  case (Cons c s)
  have opt: "\<not> prefix ''/[['' (c # s)"
  proof
    assume "prefix ''/[['' (c # s)"
    then obtain q where "s = ''[['' @ q" by (auto simp: prefix_def)
    then show False using Cons.prems by (simp add: var_char_def)
  qed
  have rest: "\<not> prefix ''[...'' (c # s)"
  proof
    assume "prefix ''[...'' (c # s)"
    then obtain q where "c = CHR ''[''" "s = ''...'' @ q" by (auto simp: prefix_def)
    then show False using Cons.prems by (simp add: var_char_def)
  qed
  have IH: "sub_optional f s = Inr s" "sub_rest f s = Inr s" using Cons by auto
  have "sub_optional f (c # s) = Inr (c # s)"
    by (subst sub_optional.simps) (simp only: list.case Let_def opt simp_thms if_False IH sbind_Inr)
  moreover have "sub_rest f (c # s) = Inr (c # s)"
    by (subst sub_rest.simps) (simp only: list.case Let_def rest simp_thms if_False IH sbind_Inr)
  ultimately show ?case by simp
qed

lemma calm_plain: "CHR ''['' \<notin> set s \<Longrightarrow> calm (s @ r) \<longleftrightarrow> calm r"
  by (induction s) auto

lemma calm_route: "list_all seg_ok segs \<Longrightarrow> calm (route_text path_text segs)"
proof (induction segs)
  case (Cons s segs)
  let ?r = "route_text path_text segs"
  have IH: "calm ?r" using Cons by simp
  show ?case
  proof (cases s)
    case (Static t)
    have "CHR ''['' \<notin> set t" using Cons.prems Static static_char_not by (fastforce simp: list_all_iff)
    then show ?thesis using IH Static calm_plain [of "CHR ''/'' # t" ?r] by (simp add: route_text_def)
  next
    case (Param p)
    have p: "p \<noteq> []" "list_all var_char p" using Cons.prems Param by (auto simp: word_name_def)
    then have "CHR ''['' \<notin> set (p @ '']'')" "var_char (hd p)" using word_char_not by (fastforce simp: list_all_iff, simp add: list_all_iff)
    then show ?thesis using IH Param p calm_plain [of "p @ '']''" ?r] by (simp add: route_text_def)
  qed
qed (simp add: route_text_def)

lemma sub_plain_text: "CHR ''['' \<notin> set s \<Longrightarrow> sub_plain f (s @ r) = sbind (sub_plain f r) (\<lambda>t. Inr (s @ t))"
proof (induction s)
  case Nil
  show ?case by (cases "sub_plain f r") auto
next
  case (Cons c s)
  then have "\<not> prefix ''['' (c # s @ r)" by (auto simp: prefix_def)
  with Cons show ?case by (cases "sub_plain f r") (auto simp: sub_plain.simps [of f "c # s @ r"] Let_def)
qed

lemma sub_plain_route:
  assumes "list_all seg_ok segs" and "\<And>p. p \<in> set (concat (map seg_names segs)) \<Longrightarrow> f p = Inr (Some (val p))"
  shows "sub_plain f (route_text path_text segs) = Inr (route_text (seg_fill val) segs)"
  using assms
proof (induction segs)
  case Nil
  show ?case by (simp add: route_text_def sub_plain.simps)
next
  case (Cons s segs)
  let ?r = "route_text path_text segs"
  have IH: "sub_plain f ?r = Inr (route_text (seg_fill val) segs)" using Cons by simp
  show ?case
  proof (cases s)
    case (Static t)
    have "CHR ''['' \<notin> set t" using Cons.prems(1) Static static_char_not by (fastforce simp: list_all_iff)
    then show ?thesis using IH Static sub_plain_text [of "CHR ''/'' # t" f ?r] by (simp add: route_text_def)
  next
    case (Param p)
    have p: "p \<noteq> []" "CHR '']'' \<notin> set p" using Cons.prems(1) Param word_char_not by (fastforce simp: word_name_def list_all_iff)+
    have scan: "upto_bracket (p @ CHR '']'' # ?r) = p" "from_bracket (p @ CHR '']'' # ?r) = CHR '']'' # ?r"
      using scan_upto(1,2) [OF p(2), of ?r] by (simp_all add: upto_bracket_def from_bracket_def)
    have fp: "f p = Inr (Some (val p))" using Cons.prems(2) Param by simp
    have "sub_plain f (CHR ''['' # p @ CHR '']'' # ?r) = Inr (val p @ route_text (seg_fill val) segs)"
      using p(1) by (subst sub_plain.simps) (simp add: scan fp IH)
    then show ?thesis
      using Param sub_plain_text [of "''/''" f "CHR ''['' # p @ CHR '']'' # ?r"] by (simp add: route_text_def)
  qed
qed

definition route_page :: "string \<Rightarrow> pattern \<Rightarrow> route_param list \<Rightarrow> page" where
  "route_page u pat params = \<lparr>pg_id = page_id u, pg_url = u, pg_pattern = pat, pg_params = params,
     pg_searchParams = [], pg_documents = []\<rparr>"


lemma percent_breaks_match:
  "resolveHref [] ''/a/[id]'' [(''id'', GStr ''50%'')] = Inr ''/a/50%'' \<and>
   find_match [route_page ''/a/[id]'' (Pieces [Lit ''/'', Lit ''a'', Lit ''/'', Lazy1]) [plain_param ''id'']] ''/a/50%'' True
     = Inl (Thrown ''URI malformed'')"
  by code_simp

lemma page_ids_collide: "page_id ''/a/b'' = page_id ''/a-b''"
  by code_simp

subsection \<open>The fallback for a 404\<close>

definition prefixes :: "page \<Rightarrow> string list \<Rightarrow> bool" where
  "prefixes pg segs \<longleftrightarrow> prefix (static_prefix pg) segs"

lemma better_prefix_scan:
  "fold (better_prefix segs) pages st = st \<and> (\<forall>pg \<in> set pages. prefixes pg segs \<longrightarrow> int (length (static_prefix pg)) \<le> snd st) \<or>
   (\<exists>a pg b. pages = a @ pg # b \<and> fold (better_prefix segs) pages st = (Some pg, int (length (static_prefix pg))) \<and>
      prefixes pg segs \<and> snd st < int (length (static_prefix pg)) \<and>
      (\<forall>q \<in> set pages. prefixes q segs \<longrightarrow> length (static_prefix q) \<le> length (static_prefix pg)) \<and>
      (\<forall>q \<in> set a. prefixes q segs \<longrightarrow> length (static_prefix q) < length (static_prefix pg)))"
proof (induction pages arbitrary: st)
  case (Cons p pages)
  let ?n = "length (static_prefix p)"
  consider (take_it) "prefixes p segs" "snd st < int ?n" "better_prefix segs p st = (Some p, int ?n)"
    | (skip) "prefixes p segs \<longrightarrow> int ?n \<le> snd st" "better_prefix segs p st = st"
    by (force simp: better_prefix_def prefixes_def Let_def)
  then show ?case
  proof cases
    case take_it
    from Cons.IH [of "(Some p, int ?n)"] show ?thesis
    proof (elim disjE exE conjE)
      assume "fold (better_prefix segs) pages (Some p, int ?n) = (Some p, int ?n)"
        "\<forall>pg \<in> set pages. prefixes pg segs \<longrightarrow> int (length (static_prefix pg)) \<le> snd (Some p, int ?n)"
      with take_it show ?thesis by (intro disjI2 exI [of _ "[]"] exI [of _ p] exI [of _ pages]) auto
    next
      fix a q b assume "pages = a @ q # b" "fold (better_prefix segs) pages (Some p, int ?n) = (Some q, int (length (static_prefix q)))"
        "prefixes q segs" "snd (Some p, int ?n) < int (length (static_prefix q))"
        "\<forall>x \<in> set pages. prefixes x segs \<longrightarrow> length (static_prefix x) \<le> length (static_prefix q)"
        "\<forall>x \<in> set a. prefixes x segs \<longrightarrow> length (static_prefix x) < length (static_prefix q)"
      with take_it show ?thesis by (intro disjI2 exI [of _ "p # a"] exI [of _ q] exI [of _ b]) auto
    qed
  next
    case skip
    from Cons.IH [of st] show ?thesis
    proof (elim disjE exE conjE)
      assume "fold (better_prefix segs) pages st = st"
        "\<forall>pg \<in> set pages. prefixes pg segs \<longrightarrow> int (length (static_prefix pg)) \<le> snd st"
      with skip show ?thesis by auto
    next
      fix a q b assume "pages = a @ q # b" "fold (better_prefix segs) pages st = (Some q, int (length (static_prefix q)))"
        "prefixes q segs" "snd st < int (length (static_prefix q))"
        "\<forall>x \<in> set pages. prefixes x segs \<longrightarrow> length (static_prefix x) \<le> length (static_prefix q)"
        "\<forall>x \<in> set a. prefixes x segs \<longrightarrow> length (static_prefix x) < length (static_prefix q)"
      with skip show ?thesis by (intro disjI2 exI [of _ "p # a"] exI [of _ q] exI [of _ b]) auto
    qed
  qed
qed simp

theorem prefix_match_best:
  "(find_prefix_match pages u = None \<longleftrightarrow> (\<forall>pg \<in> set pages. \<not> prefixes pg (url_segments (path_of u)))) \<and>
   (\<forall>pg. find_prefix_match pages u = Some pg \<longrightarrow>
      (\<exists>a b. pages = a @ pg # b \<and> prefixes pg (url_segments (path_of u)) \<and>
        (\<forall>q \<in> set pages. prefixes q (url_segments (path_of u)) \<longrightarrow> length (static_prefix q) \<le> length (static_prefix pg)) \<and>
        (\<forall>q \<in> set a. prefixes q (url_segments (path_of u)) \<longrightarrow> length (static_prefix q) < length (static_prefix pg))))"
  using better_prefix_scan [of "url_segments (path_of u)" pages "(None, -1)"]
  by (elim disjE exE conjE) (auto simp: find_prefix_match_def)

end
