(* ===== verification/ServerScenario.thy ===== *)
theory ServerScenario
  imports ServerLaws HrefLaws
begin

section \<open>The server at work: concrete configurations\<close>

text \<open>
  A site with one key, a local API without mutations or a remote one, and requests to it. The properties of the
  server hold of them with their hypotheses discharged. The keyed hash is one without collisions: it writes
  the key and the message down.
\<close>

definition demo_mac :: mac where
  "demo_mac k m = js_of_nat (length k) @ '','' @ k @ m"

lemma demo_mac_free: "demo_mac k m = demo_mac k' m' \<Longrightarrow> k = k' \<and> m = m'"
proof -
  assume eq: "demo_mac k m = demo_mac k' m'"
  have comma: "CHR '','' \<notin> set (js_of_nat n)" for n
    using js_of_nat_digits [of "CHR '',''" n] by (auto simp: is_digit_def)
  have "js_split (CHR '','') (js_of_nat (length k) @ CHR '','' # k @ m) = js_split (CHR '','') (js_of_nat (length k') @ CHR '','' # k' @ m')"
    using eq by (simp add: demo_mac_def)
  then have "length k = length k'" by (simp add: js_split_append comma)
  with eq show ?thesis by (simp add: demo_mac_def)
qed

definition demo_url :: "string \<Rightarrow> url" where
  "demo_url path = \<lparr>u_protocol = ''https:'', u_hostname = ''a.io'', u_origin = ''https://a.io'', u_pathname = path,
     u_search = [], u_params = []\<rparr>"

definition demo_request :: "string \<Rightarrow> string \<Rightarrow> (string \<times> string) list \<Rightarrow> (string \<times> form_value) list \<Rightarrow> request" where
  "demo_request method path headers form =
     \<lparr>rq_method = method, rq_url = demo_url path, rq_headers = headers, rq_form = form, rq_json = None, rq_chunks = None\<rparr>"

definition demo_env :: server_env where
  "demo_env = \<lparr>ev_mac = demo_mac, ev_keys = [''k''], ev_authUrl = ''/auth'', ev_allowedOrigins = [], ev_redirect = None,
     ev_providers = None, ev_parse_url = (\<lambda>s. None), ev_challenge = (\<lambda>s. s), ev_exchange = (\<lambda>n t ps. None),
     ev_user = (\<lambda>n v. Inr v), ev_onSignIn = None\<rparr>"

definition no_execution :: execution where
  "no_execution = \<lparr>ex_operationName = None, ex_operations = [], ex_streamed = False, ex_result = []\<rparr>"

definition signed_in :: upstream where
  "signed_in = \<lparr>up_status = 200, up_contentType = None, up_text = json_text (GObj [(''data'', GObj [(''me'', GObj [(''id'', GNum 7)])])])\<rparr>"

definition demo_server :: "bool \<Rightarrow> server" where
  "demo_server local = \<lparr>sv_env = demo_env, sv_local = local, sv_endpoint = ''/_api'', sv_url = Some ''https://api.io'', sv_apiURL = None,
     sv_pages = [], sv_pageHeaders = (\<lambda>pg. []), sv_formActions = None,
     sv_sessionMutations = Some [(''Login'', \<lparr>sm_path = ''me'', sm_merge = False\<rparr>)], sv_scalars = [],
     sv_formMaxBodyBytes = Some 100, sv_execute = (\<lambda>s b. no_execution), sv_fetch = (\<lambda>u h b. Some signed_in), sv_render = (\<lambda>x. None)\<rparr>"

definition demo_fresh :: fresh where
  "demo_fresh = \<lparr>fr_nonce = ''n'', fr_state = ''s'', fr_oidcNonce = ''o'', fr_codeVerifier = ''v'', fr_uuid = ''u1''\<rparr>"

abbreviation same_origin :: "(string \<times> string) list" where
  "same_origin \<equiv> [(''origin'', ''https://a.io'')]"

subsection \<open>Sessions and tokens\<close>

lemma demo_session_token: "\<exists>t. session_token demo_env 0 [(''user'', GStr ''ada'')] = Inr t"
  by (simp add: session_token_def demo_env_def jwt_encode_eq usable_secret_def)

lemma ada_pure: "json_pure (GObj [(''user'', GStr ''ada'')])"
  by (simp add: json_pure_obj)


lemma session_fails_closed_witness:
  "\<exists>line t secret payload. (session_cookie_name, t) \<in> set (cookie_parse line) \<and> secret \<in> {''k''} \<and>
     jwt_verify demo_mac 1000 t secret = Inr True \<and> (\<exists>head. jwt_decode t = Inr (head, payload)) \<and>
     get_session demo_mac 1000 (Some line) [''k''] = [(''user'', GStr ''ada'')]"
proof -
  obtain t where t: "session_token demo_env 0 [(''user'', GStr ''ada'')] = Inr t" using demo_session_token by blast
  have "good_name session_cookie_name" by code_simp
  then have "get_session demo_mac 1000 (Some (cookie_line [(session_cookie_name, t)])) [''k''] = [(''user'', GStr ''ada'')]"
    using get_session_stored [OF t ada_pure, of "[(session_cookie_name, t)]" 1000]
    by (simp add: demo_env_def seconds_def week_ms_def)
  with session_fails_closed [of demo_mac 1000 "Some (cookie_line [(session_cookie_name, t)])" "[''k'']"] show ?thesis
    by force
qed

lemma demo_mint: "\<exists>t. signSessionToken demo_mac 0 ''u1'' GNull [''k''] False [] = Inr t"
  by (simp add: signSessionToken_def jwt_encode_eq usable_secret_def sessionTokenKey_def first_key_def)

lemma session_token_once_witness:
  "\<exists>t. signSessionToken demo_mac 0 ''u1'' GNull [''k''] False [] = Inr t \<and>
     (let rq = demo_request ''POST'' ''/auth'' [] []; xs = [(1000, rq, plain_response 200, GStr t), (2000, rq, plain_response 200, GStr t)] in
      present default_consume demo_env xs [] ! 0 \<and> \<not> present default_consume demo_env xs [] ! 1)"
proof -
  let ?rq = "demo_request ''POST'' ''/auth'' [] []"
  obtain t where t: "signSessionToken demo_mac 0 ''u1'' GNull [''k''] False [] = Inr t" using demo_mint by blast
  let ?xs = "[(1000, ?rq, plain_response 200, GStr t), (2000, ?rq, plain_response 200, GStr t)]"
  have env: "ev_mac demo_env = demo_mac" "ev_keys demo_env = [''k'']" by (simp_all add: demo_env_def)
  have none: "request_session demo_env 1000 ?rq = []"
    by (simp add: request_session_def demo_request_def req_header_def get_session_def)
  have "verifySessionToken demo_mac 1000 (GStr t) [''k''] =
      Some \<lparr>sr_action = ClearSession, sr_sid = sessionTokenFingerprint demo_mac [] [''k''], sr_jti = ''u1''\<rparr>"
    using mint_token_read [OF t] by (simp add: nullish_def seconds_def SESSION_TTL_SECONDS_def mint_action_def)
  then have through: "present default_consume demo_env ?xs [] ! 0"
    by (simp add: applySessionToken_def env none timingSafeEqual_eq default_consume_def)
  have "\<not> present default_consume demo_env ?xs [] ! 1"
    by (rule session_token_once [of demo_env 0 "''u1''" GNull False "[]" t ?xs 0 1])
       (use t through in \<open>simp_all add: env nullish_def\<close>)
  with t through show ?thesis by (auto simp: Let_def)
qed

lemma domain_separation_witness:
  "\<exists>t. signFormToken demo_mac 0 [] [''k''] = Inr t \<and> verifySessionToken demo_mac 0 (GStr t) [''k''] = None"
proof -
  obtain t where t: "issue demo_mac 0 [''k''] (FormToken []) = Inr t"
    by (auto simp: signFormToken_def jwt_encode_eq usable_secret_def formTokenKey_def first_key_def)
  have "verifySessionToken demo_mac 0 (GStr t) [''k''] \<noteq> None \<longrightarrow> (\<exists>u p m s. FormToken [] = MintToken u p m s)"
    using domain_separation [OF demo_mac_free t refl, of 0 "[]"] by blast
  with t show ?thesis by auto
qed

lemma safeRelative_redirects_witness: "\<not> leaves_origin (safeRelative (Some ''/next''))"
  using safeRelative_redirects by (rule conjE) (drule spec [of _ "''/next''"], simp)

subsection \<open>Requests\<close>

lemma form_guarded_witness:
  "\<not> form_admitted (demo_server True) 0 (demo_request ''POST'' ''/'' [(''origin'', ''https://b.io''), (''content-type'', ''multipart/form-data'')] []) \<and>
   (case handleForm (demo_server True) 0 ''u1'' (demo_request ''POST'' ''/'' [(''origin'', ''https://b.io''), (''content-type'', ''multipart/form-data'')] []) ''/'' of
      Inr (Some r) \<Rightarrow> rs_status (re_response r) \<in> {403, 413} \<and> \<not> writes_session (re_response r) | Inr None \<Rightarrow> True | Inl e \<Rightarrow> False)"
proof -
  let ?rq = "demo_request ''POST'' ''/'' [(''origin'', ''https://b.io''), (''content-type'', ''multipart/form-data'')] []"
  have no: "\<not> form_admitted (demo_server True) 0 ?rq"
    by (simp add: form_admitted_def isAllowedOrigin_def req_header_def demo_request_def demo_url_def demo_server_def demo_env_def)
  with form_guarded [OF no, of "''u1''" "''/''"] show ?thesis by blast
qed

lemma graphql_gated_witness:
  "server_handler default_consume ((demo_server True)\<lparr>sv_execute := (\<lambda>s b. no_execution\<lparr>ex_result := [(''data'', GBool True)]\<rparr>)\<rparr>) 0 demo_fresh
     (demo_request ''POST'' ''/_api'' [] []) [] =
   server_handler default_consume (demo_server True) 0 demo_fresh (demo_request ''POST'' ''/_api'' [] []) []"
proof -
  have "sv_local (demo_server True) \<and> u_pathname (rq_url (demo_request ''POST'' ''/_api'' [] [])) = sv_endpoint (demo_server True) \<and>
      rq_method (demo_request ''POST'' ''/_api'' [] []) = ''POST'' \<and> cors_simple (content_type (demo_request ''POST'' ''/_api'' [] [])) \<and>
      map lower_char (content_type (demo_request ''POST'' ''/_api'' [] [])) = content_type (demo_request ''POST'' ''/_api'' [] []) \<and>
      \<not> sent_header (rq_headers (demo_request ''POST'' ''/_api'' [] [])) HOUDINI_REQUEST_HEADER"
    by code_simp
  then show ?thesis by (rule conjunct1 [OF graphql_gated, rule_format])
qed

definition logout_request :: request where
  "logout_request = demo_request ''POST'' ''/auth'' ((''content-type'', ''multipart/form-data'') # same_origin) [(''__houdini_logout'', Field ''1'')]"

lemma quiet_demo: "quiet_renderer (demo_server b)"
  by (simp add: quiet_renderer_def demo_server_def)

lemma server_session_writers_witness:
  "\<exists>r. server_handler default_consume (demo_server True) 0 demo_fresh logout_request [] = (Inr (Reply r), []) \<and>
     writes_session (re_response r) \<and> isAllowedOrigin logout_request []"
proof -
  define r where "r = of_response (clear_session (Some logout_request) (redirect_response 303 (Path ''/'')))"
  have h: "server_handler default_consume (demo_server True) 0 demo_fresh logout_request [] = (Inr (Reply r), [])"
    unfolding r_def by code_simp
  have w: "writes_session (re_response r)" unfolding r_def by code_simp
  have "rq_method logout_request = ''POST''" by code_simp
  with server_session_writers [OF h w quiet_demo] have "isAllowedOrigin logout_request (ev_allowedOrigins (sv_env (demo_server True)))"
    by simp
  with h w show ?thesis by (auto simp: demo_server_def demo_env_def)
qed


lemma handoff_session_witness:
  "\<exists>cookie. handoff demo_env 0 [] = Inr cookie \<and> get_session demo_mac 0 (Some cookie) [''k''] = []"
proof -
  have key: "usable_secret (first_key (ev_keys (sv_env (demo_server True))))" by code_simp
  have none: "request_session demo_env 0 (demo_request ''GET'' ''/'' [] []) = []"
    by (simp add: request_session_def demo_request_def req_header_def get_session_def)
  have env: "sv_env (demo_server True) = demo_env" "ev_mac demo_env = demo_mac" "ev_keys demo_env = [''k'']"
    by (simp_all add: demo_server_def demo_env_def)
  show ?thesis using handoff_session [OF key, of 0 "demo_request ''GET'' ''/'' [] []"] unfolding env none by blast
qed

lemma proxy_calls_witness:
  "handleSessionProxy default_consume ((demo_server False)\<lparr>sv_fetch := (\<lambda>u h b. if u = ''https://api.io'' then Some signed_in else None)\<rparr>) 0 ''u1''
     (demo_request ''POST'' ''/auth/proxy'' same_origin []) [] =
   handleSessionProxy default_consume ((demo_server False)\<lparr>sv_fetch := (\<lambda>u h b. if map_of h ''cookie'' = None then Some signed_in else None)\<rparr>) 0 ''u1''
     (demo_request ''POST'' ''/auth/proxy'' same_origin []) []"
  by (rule proxy_calls) (simp add: resolveApiEndpoint_def demo_server_def)

lemma proxy_signs_in_witness:
  "\<exists>r. handleSessionProxy default_consume (demo_server False) 0 ''u1''
       (demo_request ''POST'' ''/auth/proxy'' ((HOUDINI_OPERATION_HEADER, ''Login'') # same_origin) []) [] = (Inr (Some r), [(''u1'', 60000)]) \<and>
     set_session demo_env 0 (demo_request ''POST'' ''/auth/proxy'' ((HOUDINI_OPERATION_HEADER, ''Login'') # same_origin) [])
       (plain_response 200) [(''id'', GNum 7)] = Inr (re_response r)"
proof -
  let ?rq = "demo_request ''POST'' ''/auth/proxy'' ((HOUDINI_OPERATION_HEADER, ''Login'') # same_origin) []"
  let ?payload = "GObj [(''data'', GObj [(''me'', GObj [(''id'', GNum 7)])])]"
  let ?m = "\<lparr>sm_path = ''me'', sm_merge = False\<rparr>"
  have sv: "sv_env (demo_server False) = demo_env" by (simp add: demo_server_def)
  have url: "proxy_path (demo_server False) = Some (u_pathname (rq_url ?rq))" "rq_method ?rq = ''POST''"
    "isAllowedOrigin ?rq (ev_allowedOrigins (sv_env (demo_server False)))" "length (sent_bytes ?rq) \<le> max_body (demo_server False)"
    by code_simp+
  have up: "forward (demo_server False) ?rq (sent_bytes ?rq) = Some signed_in" by (simp add: forward_def demo_server_def)
  have parse: "json_parse (up_text signed_in) = Some ?payload"
    unfolding signed_in_def upstream.simps by (intro json_pure_text) (simp add: json_pure_obj)
  have ok: "\<not> has_errors (gprop ?payload ''errors'')" by code_simp
  have op: "req_header ?rq HOUDINI_OPERATION_HEADER = Some ''Login''" "''Login'' \<noteq> []"
    "session_mutation_of (demo_server False) ''Login'' = Inr (Some ?m)"
    by (simp_all add: req_header_def demo_request_def session_mutation_of_def demo_server_def)
  have key: "usable_secret (sessionTokenKey (ev_keys (sv_env (demo_server False))))" by code_simp
  have fresh: "default_consume 0 ''u1'' SESSION_TOKEN_TTL_MS [] = (True, [(''u1'', 60000)])" by code_simp
  have v: "session_value ?m (gprop ?payload ''data'') = GObj [(''id'', GNum 7)]" by code_simp
  obtain c where c: "set_session demo_env 0 ?rq (plain_response 200) [(''id'', GNum 7)] = Inr c"
    by (auto simp: set_session_def session_token_def demo_env_def jwt_encode_eq usable_secret_def)
  show ?thesis
    using proxy_signs_in [where consume = default_consume, OF url up parse ok op key _ fresh, unfolded v sv Let_def] c
    by (simp add: nullish_def own_enumerable_def signed_in_def json_reply_def)
qed

subsection \<open>Forms, links, texts\<close>


definition form_metadata :: input_object where
  "form_metadata = \<lparr>io_fields = [(''age'', ''Int''), (''ok'', ''Boolean''), (''at'', ''Place'')],
     io_types = [(''Place'', [(''city'', ''String'')])], io_defaults = [], io_runtimeScalars = []\<rparr>"






lemma json_reparse_witness:
  "json_parse (json_text (GArr [GNum 1, GNull])) = Some (GArr [GNum 1, GNull])"
  by (rule json_reparse [of "''[1, null]''"]) code_simp

lemma readBody_bound_witness:
  "readBodyWithLimit ((demo_request ''POST'' ''/'' [] [])\<lparr>rq_chunks := Some [''ab'', ''c'']\<rparr>) 3 = Some ''abc''"
proof -
  have "length (concat [''ab'', ''c'']) \<le> 3 \<longrightarrow>
      readBodyWithLimit ((demo_request ''POST'' ''/'' [] [])\<lparr>rq_chunks := Some [''ab'', ''c'']\<rparr>) 3 = Some (concat [''ab'', ''c''])"
    by (rule readBody_bound [THEN conjunct2, THEN spec])
  then show ?thesis by simp
qed

end
