(* ===== verification/Spec2Isabelle.thy ===== *)
theory Spec2Isabelle
  imports CacheLaws Lru Pagination ClientScenario ServerScenario
begin

text \<open>
  \<^bold>\<open>Houdini\<close> is a GraphQL client: a compiler turns the documents of an application into artifacts, and a
  runtime sends them, keeps their results in a normalized cache and tells the components of the application
  when something changed. On the server a router renders pages, keeps sessions and takes forms. This
  development models the runtime and the server side, from \<^verbatim>\<open>src/packages/houdini\<close>,
  \<^verbatim>\<open>src/packages/houdini-core/runtime\<close> and \<^verbatim>\<open>src/packages/houdini-react/runtime\<close>, as functions and machines over
  explicit states.

  \<^bold>\<open>How the parts work together.\<close> A request starts in a document store (\<^verbatim>\<open>documentStore.ts\<close>): it runs the hooks
  of its plugins, forwards to the network and back. The plugin of the cache policy answers from the cache or
  writes the response into it; the query, mutation and fragment plugins subscribe to the cache and open
  optimistic layers. The cache (\<^verbatim>\<open>cache/index.ts\<close>) ties together a layered store of records, a table of
  subscriptions with reference counts, a registry of lists, a garbage collector and a manager of stale fields;
  writing a response walks its selection, changes all of them and notifies the documents that read what
  changed. On the server \<^verbatim>\<open>server.ts\<close> dispatches a request to the GraphQL server, to the session proxy, to the
  session endpoints, to a form handler or to the renderer; sessions live in signed cookies and change through
  signed tokens.

  \<^bold>\<open>Theories and sources.\<close> Paths without a directory are under \<^verbatim>\<open>packages/houdini/src/runtime\<close> in \<^verbatim>\<open>src\<close>.

  \<^item> \<open>HPrelude\<close>: insertion-ordered maps (JavaScript objects and \<open>Map\<close>), sets as lists without repetition,
    results that may be errors, decimal texts; hints and generic lemmas.
  \<^item> \<open>JsValues\<close>, \<open>Keys\<close>, \<open>Documents\<close>: values and deep equality (\<^verbatim>\<open>deepEquals.ts\<close>, \<^verbatim>\<open>flatten.ts\<close>), keys of fields
    (\<^verbatim>\<open>cache/stuff.ts\<close>, \<^verbatim>\<open>key.ts\<close>), artifacts, variables, the fields of a selection for a type
    (\<^verbatim>\<open>types.ts\<close>, \<^verbatim>\<open>selection.ts\<close>, \<^verbatim>\<open>config.ts\<close>).
  \<^item> \<open>Storage\<close>, \<open>StorageLaws\<close>, \<open>StorageReads\<close>: \<^verbatim>\<open>cache/storage.ts\<close>. A \<open>layer\<close> has the maps of the class \<open>Layer\<close>, a
    \<open>storage\<close> the list of layers and the counter; \<open>layer_step\<close> and \<open>storage_step\<close> are its state machine.
  \<^item> \<open>Stale\<close> (\<^verbatim>\<open>cache/staleManager.ts\<close>), \<open>Lru\<close> (\<^verbatim>\<open>lru.ts\<close>), \<open>ListStore\<close> and \<open>ListOps\<close> (\<^verbatim>\<open>cache/lists.ts\<close>),
    \<open>CacheState\<close> (\<^verbatim>\<open>cache/gc.ts\<close>, the counts of \<^verbatim>\<open>cache/subscription.ts\<close>), \<open>Subscriptions\<close> (its walks), \<open>CacheRead\<close>
    and \<open>CacheWrite\<close> (\<open>getSelection\<close>, \<open>writeSelection\<close> of \<^verbatim>\<open>cache/index.ts\<close>), \<open>CacheApi\<close> (the methods of the class
    \<open>Cache\<close>). \<open>cache_state\<close> holds what \<open>CacheInternal\<close> holds.
  \<^item> \<open>CacheWalks\<close>, \<open>SubsLaws\<close>, \<open>ListLaws\<close>, \<open>CacheSteps\<close>, \<open>Rollback\<close>, \<open>CacheLaws\<close>: the laws of the cache. Reading, writing
    and subscribing are walks over selections; the locales of \<open>CacheWalks\<close> say in which ways a walk changes the
    state and prove once that every walk stays inside, and \<open>CacheSteps\<close> and \<open>Rollback\<close> interpret them for the
    invariants and for optimistic layers. \<open>Scenario\<close> has the documents that witnesses evaluate.
  \<^item> \<open>Artifacts\<close>, \<open>Pagination\<close> (\<^verbatim>\<open>pagination.ts\<close>, \<^verbatim>\<open>pageInfo.ts\<close>), \<open>Scalars\<close> (\<^verbatim>\<open>scalars.ts\<close>).
  \<^item> \<open>Pipeline\<close>, \<open>PipelineLaws\<close>: \<^verbatim>\<open>documentStore.ts\<close>. Hooks are programs of handler calls (\<open>prog\<close>); a \<open>machine\<close> holds
    the fields of the store, running jobs, pending network requests and listeners; \<open>machine_step\<close> lets the
    environment choose what runs next.
  \<^item> \<open>Plugins\<close>, \<open>PluginLaws\<close>, \<open>ClientScenario\<close>: \<^verbatim>\<open>houdini-core/runtime/plugins\<close> and \<^verbatim>\<open>client.ts\<close>.
  \<^item> \<open>Json\<close>, \<open>JsText\<close>, \<open>JsonPure\<close>: the functions of the platform on texts that the server side uses, written
    out: JSON, UTF-8, base64, percent and form encoding, numbers of texts.
  \<^item> \<open>Jwt\<close>, \<open>AuthTokens\<close>, \<open>Cookies\<close>, \<open>Sessions\<close>, \<open>SessionLaws\<close>: \<^verbatim>\<open>jwt.ts\<close>, \<^verbatim>\<open>auth-token.ts\<close>, \<^verbatim>\<open>cookies.ts\<close>,
    \<^verbatim>\<open>session.ts\<close> of \<^verbatim>\<open>packages/houdini/src/router\<close>.
  \<^item> \<open>Routes\<close>, \<open>Hrefs\<close>, \<open>HrefLaws\<close>: \<^verbatim>\<open>router/match.ts\<close>, \<^verbatim>\<open>router/conventions.ts\<close>, \<^verbatim>\<open>coerce.ts\<close>, and \<^verbatim>\<open>resolve-href.ts\<close>
    of \<^verbatim>\<open>houdini-react\<close>. A generated pattern is a list of pieces with a matcher of its own.
  \<^item> \<open>Forms\<close>, \<open>FormLaws\<close>: \<^verbatim>\<open>formData.ts\<close>, \<^verbatim>\<open>multipart.ts\<close>, \<^verbatim>\<open>endpoint.ts\<close>.
  \<^item> \<open>Server\<close>, \<open>ServerLaws\<close>, \<open>ServerScenario\<close>: \<^verbatim>\<open>router/server.ts\<close> over all of the above.

  \<^bold>\<open>What the lemmas show.\<close> The cache: every state that operations reach is well formed; an optimistic layer that
  is cleared leaves no trace; merging layers changes no value that is read; deleted records are in no list;
  collection evicts exactly what nobody reads. The pipeline: a promise settles once, under every schedule;
  the standard pipeline ends; a failed mutation rolls back. The server: who may change a session, that tokens
  work once, for one purpose and until they expire, what a form may execute, round trips of cookies, sessions,
  forms, links and JSON. Several properties also state where the code does something else than its comments
  say: these cases are part of the statements.

  \<^bold>\<open>Parameters.\<close> Reference equality of values (\<open>same\<close>), the scalar functions of the configuration (they may
  throw), the hooks of user plugins, the network, the keyed hash of the platform (\<open>mac\<close>), clock readings and
  random texts, the OAuth library and the callbacks of the configuration, the parser of URLs, the GraphQL
  server with its resolvers, the renderer and the remote API. Hypotheses about them are named in the theorems,
  and each such theorem has a witness with a concrete function.

  \<^bold>\<open>Bounds and fuel.\<close> Every loop and recursion is a total function with a measure of its own; no function needs
  fuel. Reads of the cache go down the selection, which bounds them although records may refer to each other.
  The walks over a cookie header or a JSON text get shorter with each step. A machine runs for as long as the
  environment chooses; that the jobs of the standard pipeline end is a theorem.

  \<^bold>\<open>Limits of the model.\<close> Numbers are exact integers and decimals, not doubles. Texts on the server side have
  code units below 256. The order of the keys of an object is that of insertion, and integer-like keys are not
  moved to the front. A form whose keys go through a list, an upload or an inherited member ends in the error
  \<open>unmodelled\<close>, and so does a scalar function on an upload.

  \<^bold>\<open>Not modelled.\<close> The compiler (Go, with the code generation around it), the Vite plugin and the commands are
  input and output. The bindings to React and Svelte depend on the scheduling of those libraries; the parts of
  them that are plain functions are above. The language server, the adapters and the templates are glue.
\<close>


text \<open>A pending mutation was applied and then resolved.\<close>

definition settled_store :: "storage" where
  "settled_store = (case resolveLayer 2 (on_layer 2 (layer_writeField ''User:1'' ''name'' (GStr ''b''))
     (snd (createLayer True (storage_writeField ''User:1'' ''name'' (GStr ''a'') new_storage)))) of
       Inr st \<Rightarrow> st | Inl e \<Rightarrow> new_storage)"

lemma reachable_settled_store: "reachable_storage settled_store"
proof -
  let ?s = "snd (createLayer True (storage_writeField ''User:1'' ''name'' (GStr ''a'') new_storage))"
  have "reachable_storage ?s"
    unfolding storage_writeField_def
    by (intro reachable_step [OF _ storage_step.create] reachable_on_top reachable_new layer_step.field)
  then have "reachable_storage (on_layer 2 (layer_writeField ''User:1'' ''name'' (GStr ''b'')) ?s)"
    by (rule reachable_on_layer) (rule layer_step.field)
  moreover have "resolveLayer 2 (on_layer 2 (layer_writeField ''User:1'' ''name'' (GStr ''b'')) ?s) = Inr settled_store"
    by code_simp
  ultimately show ?thesis by (blast intro: reachable_step storage_step.resolve)
qed


text \<open>
  C24. When layers are merged, the list operations that are kept are a subsequence of the recorded
  ones, have the same net number of inserts or removes of every id, never insert and remove the same
  id, and compacting again changes nothing.
\<close>

theorem compact_net_effect:
  "net_of (compact ops) t = net_of ops t \<and> subseq (compact ops) ops \<and> compact (compact ops) = compact ops
     \<and> (inserts_of t (compact ops) = 0 \<or> removes_of t (compact ops) = 0)"
  using compact_counts [of t ops] keep_net_subseq [of "net_of ops" "[]" "[]" ops]
  by (auto simp: compact_net compact_idem compact_def [symmetric])

end
